(* ===== verification/Prelude.thy ===== *)
theory Prelude
  imports Complex_Main "HOL-Library.AList" "HOL-Library.Multiset" "HOL-Library.Word"
begin

text \<open>
  The prelude of the SwarmX Core development: the names of the model's basic types, the
  JavaScript primitives the sources use (\<open>Map\<close>, \<open>||\<close>, \<open>Math.round\<close>, stable \<open>sort\<close>,
  \<open>Buffer.subarray\<close>), the interface of a JavaScript \<open>Map\<close> as a locale with its
  interpretation on association lists, and the generic lemmas the components share.

  Numbers.  A JavaScript number that the source uses as a count, an index, a byte length or a
  time in milliseconds is an \<open>int\<close> or a \<open>nat\<close> (all of them stay below $2^{53}$, where
  a double is exact); a ratio, a score or a load is a \<open>rat\<close>, so IEEE rounding is not modelled,
  while every explicit \<open>Math.round\<close>, \<open>Math.floor\<close> and \<open>toFixed\<close> of the source is.
\<close>

subsection \<open>Collections of rewrite rules\<close>

named_theorems js_simps \<open>the meaning of the JavaScript primitives\<close>
named_theorems row_simps \<open>what an update of a table does to its rows\<close>

subsection \<open>Basic types\<close>

type_synonym ms = int
type_synonym byte = "8 word"
type_synonym buffer = "byte list"

text \<open>A JavaScript \<open>Map\<close> keeps its entries in insertion order, and \<open>set\<close> on a present key
  keeps the key's place: exactly an association list with \<open>AList.update\<close>.\<close>

type_synonym ('k, 'v) jsmap = "('k \<times> 'v) list"

abbreviation jget :: "('k, 'v) jsmap \<Rightarrow> 'k \<Rightarrow> 'v option" where
  "jget m k \<equiv> map_of m k"

abbreviation jset :: "('k, 'v) jsmap \<Rightarrow> 'k \<Rightarrow> 'v \<Rightarrow> ('k, 'v) jsmap" where
  "jset m k v \<equiv> AList.update k v m"

abbreviation jdelete :: "('k, 'v) jsmap \<Rightarrow> 'k \<Rightarrow> ('k, 'v) jsmap" where
  "jdelete m k \<equiv> AList.delete k m"

abbreviation jhas :: "('k, 'v) jsmap \<Rightarrow> 'k \<Rightarrow> bool" where
  "jhas m k \<equiv> k \<in> set (map fst m)"

abbreviation jvalues :: "('k, 'v) jsmap \<Rightarrow> 'v list" where
  "jvalues m \<equiv> map snd m"

subsection \<open>The interface of a Map\<close>

locale js_map =
  fixes empty :: 'm
    and put :: "'k \<Rightarrow> 'v \<Rightarrow> 'm \<Rightarrow> 'm"
    and del :: "'k \<Rightarrow> 'm \<Rightarrow> 'm"
    and get :: "'m \<Rightarrow> 'k \<Rightarrow> 'v option"
    and vals :: "'m \<Rightarrow> 'v list"
    and ok :: "'m \<Rightarrow> bool"
  assumes get_empty: "get empty k = None"
    and get_put: "get (put k v m) k' = (if k' = k then Some v else get m k')"
    and get_del: "get (del k m) k' = (if k' = k then None else get m k')"
    and ok_empty: "ok empty"
    and ok_put: "ok m \<Longrightarrow> ok (put k v m)"
    and ok_del: "ok m \<Longrightarrow> ok (del k m)"
    and vals_get: "ok m \<Longrightarrow> v \<in> set (vals m) \<longleftrightarrow> (\<exists>k. get m k = Some v)"
begin

lemma get_put_same: "get (put k v m) k = Some v"
  by (simp add: get_put)

lemma get_put_other: "k' \<noteq> k \<Longrightarrow> get (put k v m) k' = get m k'"
  by (simp add: get_put)

lemma get_del_same: "get (del k m) k = None"
  by (simp add: get_del)

lemma vals_put:
  assumes "ok m" and "v' \<in> set (vals (put k v m))"
  shows "v' = v \<or> v' \<in> set (vals m)"
proof -
  from assms obtain k' where "get (put k v m) k' = Some v'"
    using vals_get [OF ok_put [OF assms(1)]] by blast
  then show ?thesis
    using vals_get [OF assms(1)] by (auto simp: get_put split: if_splits)
qed

lemma vals_put_new: "ok m \<Longrightarrow> v \<in> set (vals (put k v m))"
  using vals_get [OF ok_put] get_put_same by blast

lemma vals_del:
  assumes "ok m" and "v' \<in> set (vals (del k m))"
  shows "v' \<in> set (vals m)"
proof -
  from assms obtain k' where "get (del k m) k' = Some v'"
    using vals_get [OF ok_del [OF assms(1)]] by blast
  then show ?thesis
    using vals_get [OF assms(1)] by (auto simp: get_del split: if_splits)
qed

text \<open>A property of every stored value survives any update that stores such a value.\<close>

lemma all_vals_put:
  "ok m \<Longrightarrow> \<forall>v\<in>set (vals m). P v \<Longrightarrow> P v' \<Longrightarrow> \<forall>v\<in>set (vals (put k v' m)). P v"
  using vals_put by blast

lemma all_vals_del:
  "ok m \<Longrightarrow> \<forall>v\<in>set (vals m). P v \<Longrightarrow> \<forall>v\<in>set (vals (del k m)). P v"
  using vals_del by blast

end

abbreviation jmap_ok :: "('k, 'v) jsmap \<Rightarrow> bool" where
  "jmap_ok m \<equiv> distinct (map fst m)"

lemma jget_jset [js_simps]: "jget (jset m k v) k' = (if k' = k then Some v else jget m k')"
  by (simp add: update_conv')

lemma jget_jdelete [js_simps]: "jget (jdelete m k) k' = (if k' = k then None else jget m k')"
  by (simp add: delete_conv')

lemma jvalues_jget: "jmap_ok m \<Longrightarrow> v \<in> set (jvalues m) \<longleftrightarrow> (\<exists>k. jget m k = Some v)"
  by (force simp: map_of_eq_Some_iff)

interpretation jsm: js_map "[]" "\<lambda>k v m. jset m k v" "\<lambda>k m. jdelete m k" jget jvalues jmap_ok
proof (unfold_locales, goal_cases)
  case (5 m k v) then show ?case by (rule distinct_update)
next
  case (6 m k) then show ?case by (rule distinct_delete)
next
  case (7 m v) then show ?case by (rule jvalues_jget)
qed (auto simp: js_simps)

lemma jhas_jget: "jhas m k \<longleftrightarrow> jget m k \<noteq> None"
  by (simp add: map_of_eq_None_iff)

lemma jget_in_jvalues: "jget m k = Some v \<Longrightarrow> v \<in> set (jvalues m)"
  by (force dest: map_of_SomeD)

lemma jset_same: "jget m k = Some v \<Longrightarrow> jset m k v = m"
  by (induction m) (auto split: if_splits)

subsection \<open>Building a Map from a list of keyed values\<close>

lemma fold_jset_get:
  assumes "distinct (map k xs)"
  shows "jget (fold (\<lambda>x m. jset m (k x) (f x)) xs m0) i =
    (case find (\<lambda>x. k x = i) xs of Some x \<Rightarrow> Some (f x) | None \<Rightarrow> jget m0 i)"
  using assms
proof (induction xs arbitrary: m0)
  case (Cons x xs)
  have "find (\<lambda>x. k x = i) xs = None" if "k x = i"
  proof -
    have "i \<notin> k ` set xs" using Cons.prems that by simp
    then show ?thesis by (auto simp: find_None_iff)
  qed
  then show ?case
    using Cons by (cases "find (\<lambda>x. k x = i) xs") (auto simp: js_simps)
qed simp

lemma jset_fresh: "k \<notin> set (map fst m) \<Longrightarrow> jset m k v = m @ [(k, v)]"
  by (induction m) auto

lemma fold_jset_fresh:
  assumes "distinct (map k xs)" and "set (map k xs) \<inter> set (map fst m0) = {}"
  shows "fold (\<lambda>x m. jset m (k x) (f x)) xs m0 = m0 @ map (\<lambda>x. (k x, f x)) xs"
  using assms
proof (induction xs arbitrary: m0)
  case (Cons x xs)
  have "jset m0 (k x) (f x) = m0 @ [(k x, f x)]"
    using Cons.prems(2) by (induction m0) auto
  then show ?case using Cons by auto
qed simp

lemma find_unique:
  "distinct (map k xs) \<Longrightarrow> x \<in> set xs \<Longrightarrow> find (\<lambda>y. k y = k x) xs = Some x"
  by (induction xs) (auto simp: rev_image_eqI)

lemma fold_jset_iff:
  assumes "distinct (map k xs)"
  shows "jget (fold (\<lambda>x m. jset m (k x) (f x)) xs []) i = Some v \<longleftrightarrow>
    (\<exists>x\<in>set xs. k x = i \<and> f x = v)"
proof
  assume "jget (fold (\<lambda>x m. jset m (k x) (f x)) xs []) i = Some v"
  then obtain x where "find (\<lambda>x. k x = i) xs = Some x" and "f x = v"
    unfolding fold_jset_get [OF assms] by (auto split: option.splits)
  then show "\<exists>x\<in>set xs. k x = i \<and> f x = v"
    by (auto simp: find_Some_iff)
next
  assume "\<exists>x\<in>set xs. k x = i \<and> f x = v"
  then show "jget (fold (\<lambda>x m. jset m (k x) (f x)) xs []) i = Some v"
    unfolding fold_jset_get [OF assms] using find_unique [OF assms] by auto
qed

subsection \<open>Truthiness and rounding\<close>

text \<open>\<open>x || undefined\<close> on an optional string: the empty string is falsy.\<close>

definition or_undef :: "string option \<Rightarrow> string option" where
  "or_undef x = (case x of Some [] \<Rightarrow> None | _ \<Rightarrow> x)"

text \<open>\<open>x || undefined\<close> on an optional number: zero is falsy.\<close>

definition num_or_undef :: "int option \<Rightarrow> int option" where
  "num_or_undef x = (if x = Some 0 then None else x)"

definition str_or :: "string option \<Rightarrow> string \<Rightarrow> string" where
  "str_or x d = (case or_undef x of None \<Rightarrow> d | Some s \<Rightarrow> s)"

lemma or_undef_simps [simp]:
  "or_undef None = None" "or_undef (Some []) = None" "or_undef (Some (c # s)) = Some (c # s)"
  by (simp_all add: or_undef_def)

lemma or_undef_idem [simp]: "or_undef (or_undef x) = or_undef x"
  by (auto simp: or_undef_def split: option.splits list.splits)

lemma or_undef_nonempty: "s \<noteq> [] \<Longrightarrow> or_undef (Some s) = Some s"
  by (cases s) auto

lemma num_or_undef_idem [simp]: "num_or_undef (num_or_undef x) = num_or_undef x"
  by (simp add: num_or_undef_def)

text \<open>\<open>Math.round(x)\<close> is \<open>floor(x + 1/2)\<close>; \<open>Number(x.toFixed(d))\<close> keeps \<open>d\<close> decimals.\<close>

definition js_round :: "rat \<Rightarrow> int" where
  "js_round x = \<lfloor>x + 1 / 2\<rfloor>"

definition to_fixed :: "nat \<Rightarrow> rat \<Rightarrow> rat" where
  "to_fixed d x = (if x < 0 then - (of_int \<lfloor>- x * 10 ^ d + 1 / 2\<rfloor> / 10 ^ d)
                   else of_int \<lfloor>x * 10 ^ d + 1 / 2\<rfloor> / 10 ^ d)"

lemma js_round_mono: "x \<le> y \<Longrightarrow> js_round x \<le> js_round y"
  by (simp add: js_round_def floor_mono)

lemma js_round_0 [simp]: "js_round 0 = 0"
  by (simp add: js_round_def floor_unique)

lemma js_round_of_int [simp]: "js_round (of_int n) = n"
  by (simp add: js_round_def floor_unique)

lemma js_round_nonneg: "0 \<le> x \<Longrightarrow> 0 \<le> js_round x"
  using js_round_mono [of 0 x] js_round_of_int [of 0] by simp

lemma js_round_close: "\<bar>of_int (js_round x) - x\<bar> \<le> 1 / 2"
  unfolding js_round_def by linarith

subsection \<open>Buffers\<close>

text \<open>\<open>buf.subarray(from, to)\<close> clamps both ends to the buffer.\<close>

definition subarray :: "'a list \<Rightarrow> nat \<Rightarrow> nat \<Rightarrow> 'a list" where
  "subarray xs i j = take (j - i) (drop i xs)"

lemma length_subarray [simp]: "length (subarray xs i j) = min (j - i) (length xs - i)"
  by (simp add: subarray_def min.commute)

lemma subarray_full [simp]: "subarray xs 0 (length xs) = xs"
  by (simp add: subarray_def)

lemma length_subarray_rows:
  assumes "e \<le> n" and "length xs = n * w"
  shows "length (subarray xs (s * w) (e * w)) = (e - s) * w"
proof -
  have "e * w \<le> n * w" using assms(1) by (rule mult_le_mono1)
  then have "e * w - s * w \<le> n * w - s * w" by (rule diff_le_mono)
  then show ?thesis by (simp only: length_subarray assms(2) min.absorb1 diff_mult_distrib)
qed

lemma subarray_append:
  "i \<le> j \<Longrightarrow> j \<le> k \<Longrightarrow> subarray xs i j @ subarray xs j k = subarray xs i k"
proof -
  assume "i \<le> j" and "j \<le> k"
  then have "k - i = (j - i) + (k - j)" and "drop j xs = drop (j - i) (drop i xs)"
    by simp_all
  then show ?thesis
    by (simp only: subarray_def take_add)
qed

lemma nth_subarray: "i + n < j \<Longrightarrow> j \<le> length xs \<Longrightarrow> subarray xs i j ! n = xs ! (i + n)"
  by (simp add: subarray_def)

text \<open>\<open>src.copy(dst, off)\<close> when \<open>src\<close> fits into \<open>dst\<close> at \<open>off\<close>; what does not fit is dropped.\<close>

definition copy_into :: "'a list \<Rightarrow> 'a list \<Rightarrow> nat \<Rightarrow> 'a list" where
  "copy_into dst src off =
     take (length dst) (take off dst @ take (length dst - off) src @ drop (off + length src) dst)"

lemma length_copy_into [simp]: "off \<le> length dst \<Longrightarrow> length (copy_into dst src off) = length dst"
  by (auto simp: copy_into_def)

lemma copy_into_next:
  assumes "off + length src \<le> length dst"
  shows "copy_into dst src off = take off dst @ src @ drop (off + length src) dst"
  using assms by (simp add: copy_into_def)

text \<open>The general \<open>buf.subarray(s, e)\<close>: a negative index counts from the end, and both are clamped.\<close>

definition js_index :: "nat \<Rightarrow> int \<Rightarrow> nat" where
  "js_index len i = (if i < 0 then nat (max 0 (int len + i)) else min len (nat i))"

definition js_subarray :: "'a list \<Rightarrow> int \<Rightarrow> int \<Rightarrow> 'a list" where
  "js_subarray xs s e = subarray xs (js_index (length xs) s) (js_index (length xs) e)"

lemma js_subarray_nat: "j \<le> length xs \<Longrightarrow> i \<le> j \<Longrightarrow> js_subarray xs (int i) (int j) = subarray xs i j"
  by (simp add: js_subarray_def js_index_def)

text \<open>\<open>Buffer.allocUnsafe(n)\<close>: the contents are whatever the memory holds, here \<open>mem\<close>.\<close>

definition alloc_unsafe :: "(nat \<Rightarrow> 'a) \<Rightarrow> int \<Rightarrow> 'a list option" where
  "alloc_unsafe mem n = (if n < 0 then None else Some (map mem [0..<nat n]))"

text \<open>\<open>src.copy(dst, off)\<close> throws on a negative offset.\<close>

definition js_copy :: "'a list \<Rightarrow> 'a list \<Rightarrow> int \<Rightarrow> 'a list option" where
  "js_copy dst src off = (if off < 0 then None else Some (copy_into dst src (nat off)))"

lemma map_filter_mem: "y \<in> set (List.map_filter f xs) \<longleftrightarrow> (\<exists>x\<in>set xs. f x = Some y)"
  by (force simp: List.map_filter_def)

subsection \<open>Stable sorting\<close>

text \<open>\<open>Array.prototype.sort\<close> is stable; with the comparator \<open>f(a) - f(b)\<close> it is \<open>sort_key f\<close>.\<close>

lemma hd_sort_key:
  assumes "xs \<noteq> []"
  shows "hd (sort_key f xs) \<in> set xs \<and> (\<forall>x\<in>set xs. f (hd (sort_key f xs)) \<le> f x)"
proof -
  obtain y ys where ys: "sort_key f xs = y # ys"
    using assms by (cases "sort_key f xs") (auto dest: arg_cong [where f = length])
  then have "y \<in> set xs"
    using set_sort [of f xs] by auto
  moreover have "\<forall>x\<in>set xs. f y \<le> f x"
    using sorted_sort_key [of f xs] ys set_sort [of f xs] by auto
  ultimately show ?thesis using ys by simp
qed

lemma filter_eq_single: "distinct zs \<Longrightarrow> k \<in> set zs \<Longrightarrow> filter (\<lambda>x. x = k) zs = [k]"
  by (induction zs) (auto simp: filter_empty_conv)

text \<open>Whatever order the elements arrive in, sorting by distinct keys restores theirs.\<close>

lemma sort_key_permuted:
  assumes mset: "mset ys = mset xs" and sorted: "sorted (map f xs)" and dist: "distinct (map f xs)"
  shows "sort_key f ys = xs"
proof (rule properties_for_sort_key)
  show "mset xs = mset ys" using mset by simp
  show "sorted (map f xs)" by (rule sorted)
  fix k assume "k \<in> set xs"
  have inj: "inj_on f (set xs)" and d: "distinct xs"
    using dist by (auto simp: distinct_map)
  have sets: "set ys = set xs" using mset by (metis set_mset_mset)
  have dy: "distinct ys" using mset d by (metis mset_eq_imp_distinct_iff)
  have one: "filter (\<lambda>x. f k = f x) zs = [k]" if "distinct zs" "set zs = set xs" for zs
  proof -
    have "filter (\<lambda>x. f k = f x) zs = filter (\<lambda>x. x = k) zs"
      using inj that(2) \<open>k \<in> set xs\<close> by (intro filter_cong) (auto dest: inj_onD)
    also have "\<dots> = [k]"
      using that \<open>k \<in> set xs\<close> by (simp add: filter_eq_single)
    finally show ?thesis .
  qed
  show "filter (\<lambda>x. f k = f x) xs = filter (\<lambda>x. f k = f x) ys"
    using one [OF d refl] one [OF dy sets] by simp
qed

subsection \<open>Tables\<close>

text \<open>\<open>UPDATE t SET .. WHERE p\<close> on a table held as the list of its rows in row order.\<close>

definition sql_update :: "('r \<Rightarrow> bool) \<Rightarrow> ('r \<Rightarrow> 'r) \<Rightarrow> 'r list \<Rightarrow> 'r list" where
  "sql_update p f rows = map (\<lambda>r. if p r then f r else r) rows"

definition sql_changes :: "('r \<Rightarrow> bool) \<Rightarrow> 'r list \<Rightarrow> nat" where
  "sql_changes p rows = length (filter p rows)"

lemma set_sql_update [row_simps]:
  "set (sql_update p f rows) = (\<lambda>r. if p r then f r else r) ` set rows"
  by (simp add: sql_update_def)

lemma sql_update_Nil [simp]: "sql_update p f [] = []"
  by (simp add: sql_update_def)

lemma length_sql_update [simp]: "length (sql_update p f rows) = length rows"
  by (simp add: sql_update_def)

lemma sql_update_keeps:
  assumes "\<And>r. p r \<Longrightarrow> k (f r) = k r"
  shows "map k (sql_update p f rows) = map k rows"
  using assms by (auto simp: sql_update_def)

lemma sql_update_all:
  assumes "\<forall>r\<in>set rows. I r" and "\<And>r. r \<in> set rows \<Longrightarrow> I r \<Longrightarrow> p r \<Longrightarrow> I (f r)"
  shows "\<forall>r\<in>set (sql_update p f rows). I r"
  using assms by (auto simp: sql_update_def)

subsection \<open>Components as machines\<close>

text \<open>A component whose every operation keeps an invariant keeps it along every sequence of operations.\<close>

locale machine =
  fixes exec :: "'op \<Rightarrow> 's \<Rightarrow> 's"
    and inv :: "'s \<Rightarrow> bool"
  assumes exec_inv: "inv s \<Longrightarrow> inv (exec op s)"
begin

lemma run_inv: "inv s \<Longrightarrow> inv (fold exec ops s)"
  by (induction ops arbitrary: s) (simp_all add: exec_inv)

end

text \<open>A machine that refines an abstract one: under the invariant every operation commutes with the abstraction.\<close>

locale refining_machine = machine exec inv
  for exec :: "'op \<Rightarrow> 's \<Rightarrow> 's" and inv :: "'s \<Rightarrow> bool" +
  fixes abs_exec :: "'op \<Rightarrow> 'a \<Rightarrow> 'a"
    and abs_of :: "'s \<Rightarrow> 'a"
  assumes exec_refines: "inv s \<Longrightarrow> abs_of (exec op s) = abs_exec op (abs_of s)"
begin

lemma run_refines: "inv s \<Longrightarrow> abs_of (fold exec ops s) = fold abs_exec ops (abs_of s)"
  by (induction ops arbitrary: s) (simp_all add: exec_inv exec_refines)

end

text \<open>The environment variables that the battery gates read.\<close>

type_synonym environment = "string \<Rightarrow> string option"

definition ignore_battery :: "environment \<Rightarrow> bool" where
  "ignore_battery env \<longleftrightarrow> env ''SWARMX_DEMO_IGNORE_BATTERY'' = Some ''true'' \<or>
     env ''SWARMX_DEMO_IGNORE_BATTERY'' = Some ''1'' \<or> env ''SWARMX_FORCE_SWARM'' = Some ''1''"

end
