(* ===== verification/Json.thy ===== *)
theory Json
  imports Prelude
begin

text \<open>
  JSON values, as the sources read them: descriptors, attempt details and frame metadata.  A field
  read through optional chaining (\<open>v?.f\<close>) is \<open>json_field\<close>; reading a field of anything that is not
  an object gives \<open>undefined\<close>, here \<open>None\<close>.
\<close>

datatype json =
    JNull
  | JBool bool
  | JNum rat
  | JStr string
  | JArr "json list"
  | JObj "(string \<times> json) list"

definition json_field :: "json option \<Rightarrow> string \<Rightarrow> json option" where
  "json_field v f = (case v of Some (JObj fs) \<Rightarrow> map_of fs f | _ \<Rightarrow> None)"

text \<open>\<open>a ?? b\<close>: \<open>b\<close> when \<open>a\<close> is null or undefined.\<close>

definition nullish_or :: "json option \<Rightarrow> json option \<Rightarrow> json option" where
  "nullish_or a b = (case a of None \<Rightarrow> b | Some JNull \<Rightarrow> b | Some v \<Rightarrow> Some v)"

text \<open>A field whose value is used as a string when it is truthy (\<open>if (v.f) x = v.f\<close>).\<close>

definition truthy_str :: "json option \<Rightarrow> string option" where
  "truthy_str v = (case v of Some (JStr s) \<Rightarrow> or_undef (Some s) | _ \<Rightarrow> None)"

lemma json_field_simps [simp]:
  "json_field None f = None"
  "json_field (Some (JObj fs)) f = map_of fs f"
  "json_field (Some JNull) f = None"
  "json_field (Some (JArr xs)) f = None"
  "json_field (Some (JNum r)) f = None"
  "json_field (Some (JStr s)) f = None"
  "json_field (Some (JBool b)) f = None"
  by (simp_all add: json_field_def)

lemma nullish_or_simps [simp]:
  "nullish_or None b = b"
  "nullish_or (Some JNull) b = b"
  "nullish_or (Some (JNum r)) b = Some (JNum r)"
  "nullish_or (Some (JStr s)) b = Some (JStr s)"
  by (simp_all add: nullish_or_def)

subsection \<open>Payloads\<close>

text \<open>
  A value of type \<open>Buffer | string\<close>, and \<open>Buffer.from(s)\<close>: the UTF-8 bytes of a string, whose
  characters are here the code points below 256.
\<close>

datatype payload = Bytes buffer | Text string

definition utf8_char :: "char \<Rightarrow> byte list" where
  "utf8_char c = (let n = of_char c :: nat in
     if n < 128 then [of_nat n] else [of_nat (192 + n div 64), of_nat (128 + n mod 64)])"

definition utf8 :: "string \<Rightarrow> buffer" where
  "utf8 s = concat (map utf8_char s)"

fun to_buffer :: "payload \<Rightarrow> buffer" where
  "to_buffer (Bytes b) = b"
| "to_buffer (Text s) = utf8 s"

text \<open>A payload in a condition: only the empty string is falsy.\<close>

definition truthy_payload :: "payload option \<Rightarrow> payload option" where
  "truthy_payload x = (if x = Some (Text []) then None else x)"

subsection \<open>Numbers as text and bytes\<close>

fun decimal :: "nat \<Rightarrow> string" where
  "decimal n = (if n < 10 then [char_of (48 + n)] else decimal (n div 10) @ [char_of (48 + n mod 10)])"

declare decimal.simps [simp del]

text \<open>\<open>readUInt32BE\<close> of the first four bytes.\<close>

definition read_u32be :: "buffer \<Rightarrow> nat" where
  "read_u32be b = unat (b ! 0) * 16777216 + unat (b ! 1) * 65536 + unat (b ! 2) * 256 + unat (b ! 3)"

text \<open>\<open>writeUInt32BE\<close> of a number below $2^{32}$.\<close>

definition u32be :: "nat \<Rightarrow> buffer" where
  "u32be n = [of_nat (n div 16777216), of_nat (n div 65536), of_nat (n div 256), of_nat n]"

lemma length_u32be [simp]: "length (u32be n) = 4"
  by (simp add: u32be_def)

lemma unat_of_nat_byte: "unat (of_nat n :: byte) = n mod 256"
  by (simp add: unat_of_nat)

lemma four_digits:
  fixes a b c n r0 r1 r2 :: nat
  assumes "n = a * 256 + r0" "a = b * 256 + r1" "b = c * 256 + r2"
  shows "c * 16777216 + r2 * 65536 + r1 * 256 + r0 = n"
  using assms by simp

lemma div_steps: "n div 65536 = n div 256 div 256" "n div 16777216 = n div 256 div 256 div 256" for n :: nat
  by (simp_all flip: div_mult2_eq)

lemma read_u32be_append: "n < 4294967296 \<Longrightarrow> read_u32be (u32be n @ b) = n"
proof -
  assume n: "n < 4294967296"
  have "read_u32be (u32be n @ b) = n div 16777216 mod 256 * 16777216 + n div 65536 mod 256 * 65536 +
      n div 256 mod 256 * 256 + n mod 256"
    by (simp add: read_u32be_def u32be_def unat_of_nat_byte)
  also have "n div 16777216 mod 256 = n div 16777216" using n by (simp add: div_less_iff_less_mult)
  also have "n div 16777216 * 16777216 + n div 65536 mod 256 * 65536 + n div 256 mod 256 * 256 + n mod 256 = n"
    unfolding div_steps by (rule four_digits) (rule div_mult_mod_eq [symmetric])+
  finally show ?thesis .
qed

lemma read_u32be_take [simp]: "4 \<le> n \<Longrightarrow> read_u32be (take n b) = read_u32be b"
  by (simp add: read_u32be_def)

end
