(* ===== verification/Types.thy ===== *)
theory Types
  imports Json
begin

text \<open>
  The data of \<^verbatim>\<open>core/src/types.ts\<close> that several components share: tasks and their attempts,
  capability profiles, telemetry and the live state of a worker.  An optional field is an
  \<open>option\<close>; a field the type system makes mandatory is not.
\<close>

subsection \<open>Tasks\<close>

datatype task_status = PENDING | ASSIGNED | RUNNING | COMPLETED | ABANDONED | FAILED

record task_resources =
  minCpuCores :: "int option"
  minRamMb :: "int option"
  requiresGpu :: "bool option"
  minBatteryLevel :: "rat option"

definition no_resources :: task_resources where
  "no_resources = \<lparr>minCpuCores = None, minRamMb = None, requiresGpu = None, minBatteryLevel = None\<rparr>"

record task_attempt =
  at_timestampMs :: ms
  at_workerId :: "string option"
  at_previousStatus :: task_status
  at_reason :: string
  at_details :: "json option"

record task =
  t_id :: string
  t_inputRef :: string
  t_computationDescriptor :: string
  t_requiredResources :: task_resources
  t_dependencies :: "string list"
  t_executionConstraints :: "(string \<times> json) list"
  t_resultDestination :: string
  t_retryCount :: nat
  t_attemptHistory :: "task_attempt list"
  t_status :: task_status
  t_assignedWorkerId :: "string option"
  t_leaseExpiresAtMs :: "ms option"
  t_createdAtMs :: ms
  t_updatedAtMs :: ms

abbreviation in_flight :: "task_status \<Rightarrow> bool" where
  "in_flight s \<equiv> s = ASSIGNED \<or> s = RUNNING"

abbreviation terminal :: "task_status \<Rightarrow> bool" where
  "terminal s \<equiv> s = COMPLETED \<or> s = FAILED \<or> s = ABANDONED"

subsection \<open>Capability profiles and telemetry\<close>

datatype thermal_state = NOMINAL | FAIR | SERIOUS | CRITICAL

text \<open>The enum's numbers order the states, and the gates compare by them.\<close>

fun thermal_code :: "thermal_state \<Rightarrow> nat" where
  "thermal_code NOMINAL = 0"
| "thermal_code FAIR = 1"
| "thermal_code SERIOUS = 2"
| "thermal_code CRITICAL = 3"

lemma thermal_code_inj: "thermal_code a = thermal_code b \<Longrightarrow> a = b"
  by (cases a; cases b) simp_all

instantiation thermal_state :: linorder
begin

definition less_eq_thermal_state :: "thermal_state \<Rightarrow> thermal_state \<Rightarrow> bool" where
  "less_eq_thermal_state a b \<longleftrightarrow> thermal_code a \<le> thermal_code b"

definition less_thermal_state :: "thermal_state \<Rightarrow> thermal_state \<Rightarrow> bool" where
  "less_thermal_state a b \<longleftrightarrow> thermal_code a < thermal_code b"

instance
  by standard (auto simp: less_eq_thermal_state_def less_thermal_state_def dest: thermal_code_inj)

end

lemma thermal_below_serious [simp]: "s < SERIOUS \<longleftrightarrow> s = NOMINAL \<or> s = FAIR"
  by (cases s) (simp_all add: less_thermal_state_def)

lemma thermal_from_serious [simp]: "SERIOUS \<le> s \<longleftrightarrow> s = SERIOUS \<or> s = CRITICAL"
  by (cases s) (simp_all add: less_eq_thermal_state_def)

datatype os_type = Darwin | Windows | Linux | Ios | Android

record capability_profile =
  cp_capabilitySchemaVersion :: int
  cp_deviceId :: string
  cp_deviceName :: string
  cp_osType :: os_type
  cp_osVersion :: string
  cp_cpuArch :: string
  cp_cpuCores :: int
  cp_totalRamMb :: int
  cp_hasGpu :: bool
  cp_gpuModel :: "string option"
  cp_gpuAccelerationType :: "string option"
  cp_supportedKernels :: "string list option"
  cp_transferBandwidthBytesPerSec :: "int option"

definition CAPABILITY_SCHEMA_VERSION :: int where
  "CAPABILITY_SCHEMA_VERSION = 1"

record worker_telemetry =
  tm_deviceId :: string
  tm_timestampMs :: ms
  tm_batteryLevel :: rat
  tm_isCharging :: bool
  tm_thermalState :: thermal_state
  tm_cpuUtilization :: rat
  tm_availableRamMb :: int
  tm_isEligible :: "bool option"

subsection \<open>Live state of a worker\<close>

datatype execution_stage =
    Stage_OFFLINE | Stage_STARTING | Stage_CONNECTING | Stage_AUTHENTICATING | Stage_REGISTERING
  | Stage_READY | Stage_FETCHING | Stage_DECRYPTING | Stage_DECODING | Stage_EXECUTING
  | Stage_TRANSMITTING | Stage_COMPLETED | Stage_FAILED | Stage_RETRYING

record pipeline_checklist =
  pc_fetching :: bool
  pc_decrypting :: bool
  pc_decoding :: bool
  pc_executing :: bool
  pc_transmitting :: bool

definition checklist :: "bool \<Rightarrow> bool \<Rightarrow> bool \<Rightarrow> bool \<Rightarrow> bool \<Rightarrow> pipeline_checklist" where
  "checklist f d c e t = \<lparr>pc_fetching = f, pc_decrypting = d, pc_decoding = c, pc_executing = e,
     pc_transmitting = t\<rparr>"

lemma checklist_sel [simp]:
  "pc_fetching (checklist f d c e t) = f" "pc_decrypting (checklist f d c e t) = d"
  "pc_decoding (checklist f d c e t) = c" "pc_executing (checklist f d c e t) = e"
  "pc_transmitting (checklist f d c e t) = t"
  by (simp_all add: checklist_def)

datatype connection_state = CONNECTED | DISCOVERED | PAIRING | OFFLINE

record worker_live_state =
  ls_deviceId :: string
  ls_deviceName :: string
  ls_connectionState :: connection_state
  ls_stage :: execution_stage
  ls_currentTaskId :: "string option"
  ls_currentChunkIndex :: "int option"
  ls_totalChunks :: "int option"
  ls_startFrameIndex :: "int option"
  ls_frameCount :: "int option"
  ls_executionTimeMs :: "int option"
  ls_stageStartTimeMs :: "ms option"
  ls_completedChunks :: nat
  ls_failedChunks :: nat
  ls_retryCount :: nat
  ls_pipelineStages :: pipeline_checklist
  ls_lastHeartbeatMs :: ms
  ls_isEligible :: bool
  ls_lastCompletedTaskId :: "string option"

end
