(* ===== verification/Cycle_Check.thy ===== *)
theory Cycle_Check
  imports Prelude
begin

text \<open>
  The depth-first cycle search that \<^verbatim>\<open>TaskStore.validateDagCycle\<close> and
  \<^verbatim>\<open>DagEngine.detectCycles\<close> both run.  The source recurses on a closure over two mutable sets;
  here they are passed along.  \<open>visited\<close> holds every node entered, \<open>stack\<close> the nodes whose call has
  not returned, in call order (the source's \<open>recursionStack\<close> and \<open>path\<close>).  The recursion carries
  fuel: \<open>None\<close> is a search that ran out of it, and \<open>dfs_node_enough\<close> shows that one unit per node
  of the graph is enough.  Nodes and adjacency are generic.
\<close>

subsection \<open>The search\<close>

record 'a dfs =
  visited :: "'a list"
  stack :: "'a list"

fun dfs_node :: "nat \<Rightarrow> ('a \<Rightarrow> 'a list) \<Rightarrow> 'a \<Rightarrow> 'a dfs \<Rightarrow> (bool \<times> 'a dfs) option"
and dfs_list :: "nat \<Rightarrow> ('a \<Rightarrow> 'a list) \<Rightarrow> 'a list \<Rightarrow> 'a dfs \<Rightarrow> (bool \<times> 'a dfs) option"
where
  "dfs_node 0 adj v s = None"
| "dfs_node (Suc n) adj v s =
     (case dfs_list n adj (adj v) \<lparr>visited = v # visited s, stack = stack s @ [v]\<rparr> of
        None \<Rightarrow> None
      | Some (True, s') \<Rightarrow> Some (True, s')
      | Some (False, s') \<Rightarrow> Some (False, s'\<lparr>stack := butlast (stack s')\<rparr>))"
| "dfs_list n adj [] s = Some (False, s)"
| "dfs_list n adj (p # ps) s =
     (if p \<notin> set (visited s) then
        (case dfs_node n adj p s of
           None \<Rightarrow> None
         | Some (True, s') \<Rightarrow> Some (True, s')
         | Some (False, s') \<Rightarrow> dfs_list n adj ps s')
      else if p \<in> set (stack s) then Some (True, s\<lparr>stack := stack s @ [p]\<rparr>)
      else dfs_list n adj ps s)"

definition edges :: "('a \<Rightarrow> 'a list) \<Rightarrow> ('a \<times> 'a) set" where
  "edges adj = {(u, v). v \<in> set (adj u)}"

lemma edges_iff [simp]: "(u, v) \<in> edges adj \<longleftrightarrow> v \<in> set (adj u)"
  by (simp add: edges_def)

definition on_cycle :: "('a \<Rightarrow> 'a list) \<Rightarrow> 'a \<Rightarrow> bool" where
  "on_cycle adj u \<longleftrightarrow> (u, u) \<in> (edges adj)\<^sup>+"

definition reaches_cycle :: "('a \<Rightarrow> 'a list) \<Rightarrow> 'a \<Rightarrow> bool" where
  "reaches_cycle adj v \<longleftrightarrow> (\<exists>u. (v, u) \<in> (edges adj)\<^sup>* \<and> on_cycle adj u)"

abbreviation enter :: "'a \<Rightarrow> 'a dfs \<Rightarrow> 'a dfs" where
  "enter v s \<equiv> \<lparr>visited = v # visited s, stack = stack s @ [v]\<rparr>"

abbreviation leave :: "'a dfs \<Rightarrow> 'a dfs" where
  "leave s \<equiv> s\<lparr>stack := butlast (stack s)\<rparr>"

text \<open>Induction over the calls of a search that returned, one case per branch of the loop.\<close>

lemma dfs_induct:
  assumes node: "\<And>v s b t. Q (enter v s) (adj v) b t \<Longrightarrow> P s v b (if b then t else leave t)"
    and nil: "\<And>s. Q s [] False s"
    and hit: "\<And>s p ps. p \<in> set (visited s) \<Longrightarrow> p \<in> set (stack s) \<Longrightarrow>
                Q s (p # ps) True (s\<lparr>stack := stack s @ [p]\<rparr>)"
    and skip: "\<And>s p ps b s'. p \<in> set (visited s) \<Longrightarrow> p \<notin> set (stack s) \<Longrightarrow> Q s ps b s' \<Longrightarrow>
                Q s (p # ps) b s'"
    and found: "\<And>s p ps t. p \<notin> set (visited s) \<Longrightarrow> P s p True t \<Longrightarrow> Q s (p # ps) True t"
    and down: "\<And>s p ps t b s'. p \<notin> set (visited s) \<Longrightarrow> P s p False t \<Longrightarrow> Q t ps b s' \<Longrightarrow>
                Q s (p # ps) b s'"
  shows dfs_induct_node: "dfs_node n adj v s = Some (b, s') \<Longrightarrow> P s v b s'"
    and dfs_induct_list: "dfs_list n adj ps s = Some (b, s') \<Longrightarrow> Q s ps b s'"
proof (induction n arbitrary: v s b s' ps)
  case 0
  {
    case 1
    then show ?case by simp
  next
    case 2
    then show ?case
    proof (induction ps)
      case Nil
      then show ?case using nil by simp
    next
      case (Cons p ps)
      then show ?case using hit skip by (auto split: if_splits)
    qed
  }
next
  case (Suc n)
  have node_n: "P s v b s'" if "dfs_node (Suc n) adj v s = Some (b, s')" for v s b s'
  proof -
    from that obtain t where "dfs_list n adj (adj v) (enter v s) = Some (b, t)"
      and "s' = (if b then t else leave t)"
      by (cases b) (auto split: option.splits prod.splits bool.splits)
    then show ?thesis using node Suc.IH(2) by simp
  qed
  {
    case 1
    then show ?case by (rule node_n)
  next
    case 2
    then show ?case
    proof (induction ps arbitrary: s)
      case Nil
      then show ?case using nil by simp
    next
      case (Cons p ps)
      show ?case
      proof (cases "p \<in> set (visited s)")
        case True
        then show ?thesis using Cons hit skip by (cases "p \<in> set (stack s)") auto
      next
        case False
        with Cons.prems obtain c t where t: "dfs_node (Suc n) adj p s = Some (c, t)"
          by (fastforce split: option.splits)
        then show ?thesis using Cons False node_n [OF t] found down by (cases c) auto
      qed
    qed
  }
qed

lemmas dfs_node_induct = dfs_induct(1) [rotated 6]
lemmas dfs_list_induct = dfs_induct(2) [rotated 6]

subsection \<open>Enough fuel\<close>

lemma dfs_visited_mono:
  "dfs_node n adj v s = Some (b, s') \<Longrightarrow> set (visited s) \<subseteq> set (visited s')"
  "dfs_list n adj ps s = Some (b, s') \<Longrightarrow> set (visited s) \<subseteq> set (visited s')"
proof -
  note inst = dfs_node_induct [where P = "\<lambda>s _ _ s'. set (visited s) \<subseteq> set (visited s')"
        and Q = "\<lambda>s _ _ s'. set (visited s) \<subseteq> set (visited s')"]
    dfs_list_induct [where P = "\<lambda>s _ _ s'. set (visited s) \<subseteq> set (visited s')"
        and Q = "\<lambda>s _ _ s'. set (visited s) \<subseteq> set (visited s')"]
  show "dfs_node n adj v s = Some (b, s') \<Longrightarrow> set (visited s) \<subseteq> set (visited s')"
    by (erule inst(1)) auto
  show "dfs_list n adj ps s = Some (b, s') \<Longrightarrow> set (visited s) \<subseteq> set (visited s')"
    by (erule inst(2)) auto
qed

lemma dfs_enough:
  assumes "finite U" and closed: "\<And>u. u \<in> U \<Longrightarrow> set (adj u) \<subseteq> U"
  shows "v \<in> U \<Longrightarrow> v \<notin> set (visited s) \<Longrightarrow> card (U - set (visited s)) \<le> n \<Longrightarrow>
           dfs_node n adj v s \<noteq> None"
    and "set ps \<subseteq> U \<Longrightarrow> card (U - set (visited s)) \<le> n \<Longrightarrow> dfs_list n adj ps s \<noteq> None"
  using closed
proof (induction n adj v s and n adj ps s rule: dfs_node_dfs_list.induct)
  case (1 adj v s)
  then have "v \<in> U - set (visited s)" by simp
  with 1 \<open>finite U\<close> have "0 < card (U - set (visited s))" by (auto simp: card_gt_0_iff)
  with 1 show ?case by simp
next
  case (2 n adj v s)
  have "U - set (visited s) = insert v (U - set (v # visited s))"
    using "2.prems"(1,2) by auto
  moreover have "card (insert v (U - set (v # visited s))) = Suc (card (U - set (v # visited s)))"
    using \<open>finite U\<close> by (intro card_insert_disjoint) auto
  ultimately have "card (U - set (visited s)) = Suc (card (U - set (v # visited s)))"
    by (simp only:)
  then have "dfs_list n adj (adj v) \<lparr>visited = v # visited s, stack = stack s @ [v]\<rparr> \<noteq> None"
    using 2 by simp
  then show ?case by (auto split: option.splits prod.splits bool.splits)
next
  case (3 n adj s)
  then show ?case by simp
next
  case (4 n adj p ps s)
  show ?case
  proof (cases "p \<in> set (visited s)")
    case True
    with 4 show ?thesis by auto
  next
    case False
    with 4 obtain b s' where r: "dfs_node n adj p s = Some (b, s')" by fastforce
    have "card (U - set (visited s')) \<le> card (U - set (visited s))"
      using dfs_visited_mono(1) [OF r] \<open>finite U\<close> by (intro card_mono) auto
    then show ?thesis using 4 False r by (cases b) auto
  qed
qed

subsection \<open>What the search finds\<close>

text \<open>\<open>finished\<close> nodes have returned: their successors are finished and none is on a cycle.\<close>

definition finished :: "'a dfs \<Rightarrow> 'a set" where
  "finished s = set (visited s) - set (stack s)"

definition dfs_inv :: "('a \<Rightarrow> 'a list) \<Rightarrow> 'a dfs \<Rightarrow> bool" where
  "dfs_inv adj s \<longleftrightarrow> set (stack s) \<subseteq> set (visited s) \<and> distinct (stack s) \<and>
     (\<forall>u\<in>finished s. set (adj u) \<subseteq> finished s \<and> \<not> on_cycle adj u)"

lemma finished_closed:
  assumes "dfs_inv adj s" and "u \<in> finished s" and "(u, w) \<in> (edges adj)\<^sup>*"
  shows "w \<in> finished s"
  using assms(3,2)
proof (induction rule: rtrancl_induct)
  case (step y z)
  then show ?case using assms(1) by (auto simp: dfs_inv_def)
qed

lemma dfs_inv_push:
  assumes "dfs_inv adj s" and "v \<notin> set (visited s)"
  shows "dfs_inv adj \<lparr>visited = v # visited s, stack = stack s @ [v]\<rparr>"
proof -
  have "finished \<lparr>visited = v # visited s, stack = stack s @ [v]\<rparr> = finished s"
    using assms by (auto simp: finished_def dfs_inv_def)
  then show ?thesis using assms by (auto simp: dfs_inv_def)
qed

lemma dfs_inv_pop:
  assumes inv: "dfs_inv adj s" and st: "stack s = st @ [v]" and kids: "set (adj v) \<subseteq> finished s"
  shows "dfs_inv adj (s\<lparr>stack := st\<rparr>) \<and> v \<in> finished (s\<lparr>stack := st\<rparr>)"
proof -
  have fin: "finished (s\<lparr>stack := st\<rparr>) = insert v (finished s)"
    using inv st by (auto simp: finished_def dfs_inv_def)
  have v: "v \<notin> finished s" using st by (simp add: finished_def)
  have "\<not> on_cycle adj v"
  proof
    assume "on_cycle adj v"
    then obtain c where "c \<in> set (adj v)" and "(c, v) \<in> (edges adj)\<^sup>*"
      unfolding on_cycle_def by (auto dest!: tranclD)
    then have "v \<in> finished s" using kids finished_closed [OF inv] by blast
    with v show False by contradiction
  qed
  then show ?thesis using inv st kids fin by (auto simp: dfs_inv_def)
qed

abbreviation clean_node :: "('a \<Rightarrow> 'a list) \<Rightarrow> 'a dfs \<Rightarrow> 'a \<Rightarrow> 'a dfs \<Rightarrow> bool" where
  "clean_node adj s v s' \<equiv> dfs_inv adj s \<and> v \<notin> set (visited s) \<longrightarrow>
     dfs_inv adj s' \<and> stack s' = stack s \<and> insert v (finished s) \<subseteq> finished s'"

abbreviation clean_list :: "('a \<Rightarrow> 'a list) \<Rightarrow> 'a dfs \<Rightarrow> 'a list \<Rightarrow> 'a dfs \<Rightarrow> bool" where
  "clean_list adj s ps s' \<equiv> dfs_inv adj s \<longrightarrow>
     dfs_inv adj s' \<and> stack s' = stack s \<and> set ps \<union> finished s \<subseteq> finished s'"

lemma clean_enter:
  assumes "clean_list adj (enter v s) (adj v) t"
  shows "clean_node adj s v (leave t)"
proof
  assume pre: "dfs_inv adj s \<and> v \<notin> set (visited s)"
  then have t: "dfs_inv adj t" "stack t = stack s @ [v]" "set (adj v) \<subseteq> finished t"
    and sub: "finished (enter v s) \<subseteq> finished t"
    using assms dfs_inv_push [of adj s v] by auto
  have "finished s \<subseteq> finished (leave t)"
    using sub pre t(2) by (auto simp: finished_def dfs_inv_def)
  then show "dfs_inv adj (leave t) \<and> stack (leave t) = stack s \<and>
      insert v (finished s) \<subseteq> finished (leave t)"
    using dfs_inv_pop [OF t] t(2) by simp
qed

lemma dfs_False:
  "dfs_node n adj v s = Some (b, s') \<Longrightarrow> \<not> b \<longrightarrow> clean_node adj s v s'"
  "dfs_list n adj ps s = Some (b, s') \<Longrightarrow> \<not> b \<longrightarrow> clean_list adj s ps s'"
proof -
  note ind = dfs_node_induct [where P = "\<lambda>s v b s'. \<not> b \<longrightarrow> clean_node adj s v s'"
      and Q = "\<lambda>s ps b s'. \<not> b \<longrightarrow> clean_list adj s ps s'" and adj = adj]
    dfs_list_induct [where P = "\<lambda>s v b s'. \<not> b \<longrightarrow> clean_node adj s v s'"
      and Q = "\<lambda>s ps b s'. \<not> b \<longrightarrow> clean_list adj s ps s'" and adj = adj]
  have node: "\<not> b \<longrightarrow> clean_node adj s v (if b then t else leave t)"
    if "\<not> b \<longrightarrow> clean_list adj (enter v s) (adj v) t" for v s b t
    using that clean_enter [of adj v s t] by (cases b) (simp_all only: if_True if_False simp_thms)
  show "dfs_node n adj v s = Some (b, s') \<Longrightarrow> \<not> b \<longrightarrow> clean_node adj s v s'"
    by (erule ind(1), erule node) (auto simp: finished_def)
  show "dfs_list n adj ps s = Some (b, s') \<Longrightarrow> \<not> b \<longrightarrow> clean_list adj s ps s'"
    by (erule ind(2), erule node) (auto simp: finished_def)
qed

text \<open>When the search succeeds, the stack is a path of the graph whose last node repeats.\<close>

abbreviation path_of :: "('a \<Rightarrow> 'a list) \<Rightarrow> 'a list \<Rightarrow> bool" where
  "path_of adj xs \<equiv> successively (\<lambda>x y. y \<in> set (adj x)) xs"

definition lasso :: "('a \<Rightarrow> 'a list) \<Rightarrow> 'a list \<Rightarrow> 'a list \<Rightarrow> bool" where
  "lasso adj xs ys \<longleftrightarrow> path_of adj ys \<and> (\<exists>zs. ys = xs @ zs) \<and> last ys \<in> set (butlast ys)"

lemma lasso_prefix: "lasso adj (xs @ zs) ys \<Longrightarrow> lasso adj xs ys"
  by (auto simp: lasso_def)

lemma dfs_True:
  "dfs_node n adj v s = Some (b, s') \<Longrightarrow>
     (b \<longrightarrow> path_of adj (stack s @ [v]) \<longrightarrow> lasso adj (stack s @ [v]) (stack s')) \<and>
     (\<not> b \<longrightarrow> stack s' = stack s)"
  "dfs_list n adj ps s = Some (b, s') \<Longrightarrow>
     (b \<longrightarrow> path_of adj (stack s) \<longrightarrow> stack s \<noteq> [] \<longrightarrow> set ps \<subseteq> set (adj (last (stack s))) \<longrightarrow>
        lasso adj (stack s) (stack s')) \<and> (\<not> b \<longrightarrow> stack s' = stack s)"
proof -
  note ind = dfs_node_induct [where adj = adj and P = "\<lambda>s v b s'.
        (b \<longrightarrow> path_of adj (stack s @ [v]) \<longrightarrow> lasso adj (stack s @ [v]) (stack s')) \<and>
        (\<not> b \<longrightarrow> stack s' = stack s)"
      and Q = "\<lambda>s ps b s'.
        (b \<longrightarrow> path_of adj (stack s) \<longrightarrow> stack s \<noteq> [] \<longrightarrow> set ps \<subseteq> set (adj (last (stack s))) \<longrightarrow>
           lasso adj (stack s) (stack s')) \<and> (\<not> b \<longrightarrow> stack s' = stack s)"]
    dfs_list_induct [where adj = adj and P = "\<lambda>s v b s'.
        (b \<longrightarrow> path_of adj (stack s @ [v]) \<longrightarrow> lasso adj (stack s @ [v]) (stack s')) \<and>
        (\<not> b \<longrightarrow> stack s' = stack s)"
      and Q = "\<lambda>s ps b s'.
        (b \<longrightarrow> path_of adj (stack s) \<longrightarrow> stack s \<noteq> [] \<longrightarrow> set ps \<subseteq> set (adj (last (stack s))) \<longrightarrow>
           lasso adj (stack s) (stack s')) \<and> (\<not> b \<longrightarrow> stack s' = stack s)"]
  note steps = successively_append_iff lasso_def
  show "dfs_node n adj v s = Some (b, s') \<Longrightarrow>
     (b \<longrightarrow> path_of adj (stack s @ [v]) \<longrightarrow> lasso adj (stack s @ [v]) (stack s')) \<and>
     (\<not> b \<longrightarrow> stack s' = stack s)"
    by (erule ind(1)) (auto simp: steps)
  show "dfs_list n adj ps s = Some (b, s') \<Longrightarrow>
     (b \<longrightarrow> path_of adj (stack s) \<longrightarrow> stack s \<noteq> [] \<longrightarrow> set ps \<subseteq> set (adj (last (stack s))) \<longrightarrow>
        lasso adj (stack s) (stack s')) \<and> (\<not> b \<longrightarrow> stack s' = stack s)"
    by (erule ind(2)) (auto simp: steps)
qed

lemma path_rtrancl:
  "path_of adj (x # xs) \<Longrightarrow> y \<in> set (x # xs) \<Longrightarrow> (x, y) \<in> (edges adj)\<^sup>*"
proof (induction xs arbitrary: x)
  case Nil
  then show ?case by simp
next
  case (Cons z zs)
  then have "(x, z) \<in> edges adj" and "y = x \<or> (z, y) \<in> (edges adj)\<^sup>*" by auto
  then show ?case by (auto intro: converse_rtrancl_into_rtrancl)
qed

lemma lasso_reaches:
  assumes "lasso adj [v] ys"
  shows "reaches_cycle adj v"
proof -
  define u where "u = last ys"
  from assms obtain zs where ys: "ys = v # zs" by (auto simp: lasso_def)
  have path: "path_of adj ys" and rep: "u \<in> set (butlast ys)"
    using assms by (auto simp: lasso_def u_def)
  then have "butlast ys \<noteq> []" by auto
  obtain as bs where split: "butlast ys = as @ u # bs" using split_list [OF rep] by blast
  have whole: "ys = as @ (u # bs) @ [u]"
  proof -
    have "ys \<noteq> []" using ys by simp
    then have "ys = butlast ys @ [u]" unfolding u_def by (rule append_butlast_last_id [symmetric])
    then show ?thesis unfolding split by simp
  qed
  have q: "path_of adj (u # bs)" and e: "u \<in> set (adj (last (u # bs)))"
    using path unfolding whole successively_append_iff by simp_all
  have "(u, last (u # bs)) \<in> (edges adj)\<^sup>*"
    using q by (rule path_rtrancl) (rule last_in_set, simp)
  moreover have "(last (u # bs), u) \<in> edges adj"
    using e by (simp only: edges_iff)
  ultimately have "on_cycle adj u" by (auto simp: on_cycle_def intro: rtrancl_into_trancl1)
  moreover have "(v, u) \<in> (edges adj)\<^sup>*"
    using path in_set_butlastD [OF rep] unfolding ys by (intro path_rtrancl) auto
  ultimately show ?thesis by (auto simp: reaches_cycle_def)
qed

theorem dfs_node_correct:
  assumes "dfs_node n adj v s = Some (b, s')" and "stack s = []" and "dfs_inv adj s"
    and "v \<notin> set (visited s)"
  shows "b \<longleftrightarrow> reaches_cycle adj v"
proof (cases b)
  case True
  then have "lasso adj [v] (stack s')" using dfs_True(1) [OF assms(1)] assms(2) by simp
  then show ?thesis using lasso_reaches True by simp
next
  case False
  then have inv: "dfs_inv adj s'" and v: "v \<in> finished s'"
    using dfs_False(1) [OF assms(1)] assms(3,4) by simp_all
  have "\<not> on_cycle adj u" if "(v, u) \<in> (edges adj)\<^sup>*" for u
    using finished_closed [OF inv v that] inv by (simp add: dfs_inv_def)
  then show ?thesis using False by (simp add: reaches_cycle_def)
qed

subsection \<open>Graphs held in a Map\<close>

text \<open>\<open>adj.get(node) || []\<close>.\<close>

definition adj_of :: "('a, 'a list) jsmap \<Rightarrow> 'a \<Rightarrow> 'a list" where
  "adj_of m v = (case jget m v of None \<Rightarrow> [] | Some ps \<Rightarrow> ps)"

definition graph_nodes :: "('a, 'a list) jsmap \<Rightarrow> 'a list" where
  "graph_nodes m = map fst m @ concat (map snd m)"

abbreviation dfs_start :: "'a dfs" where
  "dfs_start \<equiv> \<lparr>visited = [], stack = []\<rparr>"

text \<open>The stack when the search from \<open>v\<close> meets a cycle: the source's \<open>cyclePath\<close>.\<close>

definition find_cycle :: "('a, 'a list) jsmap \<Rightarrow> 'a \<Rightarrow> 'a list option" where
  "find_cycle m v =
     (case dfs_node (Suc (length (graph_nodes m))) (adj_of m) v dfs_start of
        Some (True, s) \<Rightarrow> Some (stack s)
      | _ \<Rightarrow> None)"

lemma adj_of_iff: "v \<in> set (adj_of m u) \<longleftrightarrow> (\<exists>ps. jget m u = Some ps \<and> v \<in> set ps)"
  by (cases "jget m u") (simp_all add: adj_of_def)

lemma adj_of_nodes: "set (adj_of m v) \<subseteq> set (graph_nodes m)"
proof (cases "jget m v")
  case None
  then show ?thesis by (simp add: adj_of_def)
next
  case (Some ps)
  then have "ps \<in> set (map snd m)" by (rule jget_in_jvalues)
  then have "set ps \<subseteq> set (graph_nodes m)" by (auto simp: graph_nodes_def)
  then show ?thesis using Some by (simp add: adj_of_def)
qed

text \<open>From any visited set the fuel of one unit per node, and one for the root, suffices.\<close>

lemma dfs_fuel:
  assumes "v \<notin> set (visited s)"
  shows "dfs_node (Suc (length (graph_nodes m))) (adj_of m) v s \<noteq> None"
proof (rule dfs_enough(1) [where U = "insert v (set (graph_nodes m))"])
  show "set (adj_of m u) \<subseteq> insert v (set (graph_nodes m))" for u
    by (rule subset_insertI2) (rule adj_of_nodes)
  have "card (insert v (set (graph_nodes m)) - set (visited s)) \<le> card (insert v (set (graph_nodes m)))"
    by (intro card_mono) auto
  also have "\<dots> \<le> Suc (card (set (graph_nodes m)))"
    by (simp add: card_insert_if)
  also have "\<dots> \<le> Suc (length (graph_nodes m))"
    by (simp add: card_length)
  finally show "card (insert v (set (graph_nodes m)) - set (visited s)) \<le> Suc (length (graph_nodes m))" .
qed (use assms in auto)

lemma dfs_inv_start [simp]: "dfs_inv adj dfs_start"
  by (simp add: dfs_inv_def finished_def)

theorem find_cycle_iff: "find_cycle m v \<noteq> None \<longleftrightarrow> reaches_cycle (adj_of m) v"
proof -
  obtain b s where r: "dfs_node (Suc (length (graph_nodes m))) (adj_of m) v dfs_start = Some (b, s)"
    using dfs_fuel [of v dfs_start m] by auto
  from dfs_node_correct [OF this] show ?thesis
    by (cases b) (simp_all add: find_cycle_def r del: dfs_node.simps)
qed

text \<open>The reported path is a path of the graph that starts at the root and ends on a repetition.\<close>

theorem find_cycle_path: "find_cycle m v = Some ys \<Longrightarrow> lasso (adj_of m) [v] ys"
  using dfs_True(1) [of "Suc (length (graph_nodes m))" "adj_of m" v dfs_start True]
  by (auto simp: find_cycle_def split: option.splits prod.splits bool.splits)

subsection \<open>The interface of a cycle finder\<close>

text \<open>
  What its clients rely on: the finder decides whether a cycle can be reached from a node.  A graph
  that was acyclic and gets new edges out of one node only, from which no cycle is found, is acyclic.
\<close>

locale cycle_finder =
  fixes finds :: "('a, 'a list) jsmap \<Rightarrow> 'a \<Rightarrow> bool"
  assumes finds_iff: "finds m v \<longleftrightarrow> reaches_cycle (adj_of m) v"
begin

lemma split_at_new:
  assumes "edges (adj_of m) \<subseteq> E \<union> {v} \<times> UNIV" and "(a, b) \<in> (edges (adj_of m))\<^sup>+"
  shows "(a, b) \<in> E\<^sup>+ \<or> ((a, v) \<in> (edges (adj_of m))\<^sup>* \<and> (v, b) \<in> (edges (adj_of m))\<^sup>+)"
  using assms(2)
proof (induction rule: trancl_induct)
  case (base b)
  then have "(a, b) \<in> E \<or> a = v" using assms(1) by blast
  then show ?case using base by (auto simp del: edges_iff)
next
  case (step b c)
  then have "(b, c) \<in> E \<or> b = v" using assms(1) by blast
  then show ?case using step
    by (auto simp del: edges_iff intro: trancl_into_trancl trancl_into_rtrancl)
qed

lemma acyclic_extend:
  assumes "acyclic E" and "edges (adj_of m) \<subseteq> E \<union> {v} \<times> UNIV" and "\<not> finds m v"
  shows "acyclic (edges (adj_of m))"
proof (rule acyclicI, rule allI, rule notI)
  fix u assume "(u, u) \<in> (edges (adj_of m))\<^sup>+"
  with split_at_new [OF assms(2)] assms(1)
  have "(v, u) \<in> (edges (adj_of m))\<^sup>+" "(u, v) \<in> (edges (adj_of m))\<^sup>*"
    by (auto simp: acyclic_def)
  then have "(v, v) \<in> (edges (adj_of m))\<^sup>+" by (rule trancl_rtrancl_trancl)
  with assms(3) show False by (auto simp: finds_iff reaches_cycle_def on_cycle_def)
qed

lemma no_cycle_found: "acyclic (edges (adj_of m)) \<Longrightarrow> \<not> finds m v"
  by (auto simp: finds_iff reaches_cycle_def on_cycle_def acyclic_def)

end

interpretation dfs_finder: cycle_finder "\<lambda>m v. find_cycle m v \<noteq> None"
  by unfold_locales (rule find_cycle_iff)

end
