(* ===== verification/Task_Store.thy ===== *)
theory Task_Store
  imports Types Cycle_Check
begin

text \<open>
  \<^verbatim>\<open>core/src/db/task_store.ts\<close>: the table \<open>tasks\<close> and every operation on it.

  The table is the list of its rows in row order (rows are never deleted); a row is a \<open>task\<close> whose
  JSON columns hold their decoded values, since \<open>JSON.parse\<close> undoes \<open>JSON.stringify\<close> on them.  Where
  SQL leaves the order of a result open the model takes row order.  \<open>Date.now()\<close> is the argument
  \<open>now\<close>.  An operation that throws is \<open>Inl\<close> of a \<open>store_error\<close>, and its transaction is rolled back.
  Except for the two recovery functions that test \<open>db.open\<close>, operations are those of an open database.
\<close>

definition DEFAULT_MAX_RETRIES :: nat where
  "DEFAULT_MAX_RETRIES = 3"

definition DEFAULT_LEASE_DURATION_MS :: ms where
  "DEFAULT_LEASE_DURATION_MS = 30000"

record task_store =
  ts_open :: bool
  ts_rows :: "task list"

datatype store_error =
    SelfDependency string
  | CyclicDependency "string list"
  | UniqueViolation string
  | TaskNotFound string
  | InvalidTransition task_status
  | DependenciesUnsatisfied string
  | StateConflict string
  | AlreadyTerminal task_status

record new_task =
  nt_id :: string
  nt_inputRef :: string
  nt_computationDescriptor :: string
  nt_requiredResources :: "task_resources option"
  nt_dependencies :: "string list option"
  nt_executionConstraints :: "(string \<times> json) list option"
  nt_resultDestination :: "string option"
  nt_assignedWorkerId :: "string option"
  nt_status :: "task_status option"

subsection \<open>Reading\<close>

definition mapRowToTask :: "task \<Rightarrow> task" where
  "mapRowToTask r = r\<lparr>t_assignedWorkerId := or_undef (t_assignedWorkerId r),
                      t_leaseExpiresAtMs := num_or_undef (t_leaseExpiresAtMs r)\<rparr>"

definition find_row :: "task list \<Rightarrow> string \<Rightarrow> task option" where
  "find_row rows i = find (\<lambda>r. t_id r = i) rows"

definition getTask :: "task_store \<Rightarrow> string \<Rightarrow> task option" where
  "getTask s i = map_option mapRowToTask (find_row (ts_rows s) i)"

definition listTasks :: "task_store \<Rightarrow> task_status option \<Rightarrow> task list" where
  "listTasks s filterStatus =
     (case filterStatus of
        Some st \<Rightarrow> map mapRowToTask (sort_key t_createdAtMs (filter (\<lambda>r. t_status r = st) (ts_rows s)))
      | None \<Rightarrow> map mapRowToTask (sort_key t_createdAtMs (ts_rows s)))"

text \<open>\<open>SELECT count(*) .. WHERE id IN (deps) AND status = COMPLETED\<close> counts rows, not dependencies.\<close>

definition areDependenciesSatisfied :: "task_store \<Rightarrow> string \<Rightarrow> bool" where
  "areDependenciesSatisfied s taskId =
     (case getTask s taskId of
        None \<Rightarrow> False
      | Some task \<Rightarrow>
          if t_dependencies task = [] then True
          else length (filter (\<lambda>r. t_id r \<in> set (t_dependencies task) \<and> t_status r = COMPLETED)
                 (ts_rows s)) = length (t_dependencies task))"

definition getActiveTaskCountForWorker :: "task_store \<Rightarrow> string \<Rightarrow> nat" where
  "getActiveTaskCountForWorker s workerId =
     length (filter (\<lambda>r. t_assignedWorkerId r = Some workerId \<and> in_flight (t_status r)) (ts_rows s))"

fun excluded_from :: "task_attempt list \<Rightarrow> string list \<Rightarrow> string list" where
  "excluded_from [] excluded = excluded"
| "excluded_from (a # as) excluded =
     (case or_undef (at_workerId a) of
        Some w \<Rightarrow>
          if (at_reason a = ''VALIDATION_TOLERANCE_EXCEEDED'' \<or> at_reason a = ''EXECUTION_ERROR'' \<or>
              at_reason a = ''TOLERANCE_MISMATCH'') \<and> w \<notin> set excluded
          then excluded_from as (excluded @ [w])
          else excluded_from as excluded
      | None \<Rightarrow> excluded_from as excluded)"

definition getExcludedWorkerIds :: "task_store \<Rightarrow> string \<Rightarrow> string list" where
  "getExcludedWorkerIds s taskId =
     (case getTask s taskId of None \<Rightarrow> [] | Some task \<Rightarrow> excluded_from (t_attemptHistory task) [])"

subsection \<open>Creating a task\<close>

definition dependency_map :: "task list \<Rightarrow> (string, string list) jsmap" where
  "dependency_map ts = fold (\<lambda>t adj. jset adj (t_id t) (t_dependencies t)) ts []"

definition validateDagCycle :: "task_store \<Rightarrow> string \<Rightarrow> string list \<Rightarrow> store_error option" where
  "validateDagCycle s newTaskId dependencies =
     (if dependencies = [] then None
      else if newTaskId \<in> set dependencies then Some (SelfDependency newTaskId)
      else
        (let adj = jset (dependency_map (listTasks s None)) newTaskId dependencies
         in case find_cycle adj newTaskId of
              None \<Rightarrow> None
            | Some cyclePath \<Rightarrow> Some (CyclicDependency cyclePath)))"

definition full_task :: "ms \<Rightarrow> new_task \<Rightarrow> task" where
  "full_task now nt =
     \<lparr>t_id = nt_id nt, t_inputRef = nt_inputRef nt,
      t_computationDescriptor = nt_computationDescriptor nt,
      t_requiredResources = (case nt_requiredResources nt of None \<Rightarrow> no_resources | Some r \<Rightarrow> r),
      t_dependencies = (case nt_dependencies nt of None \<Rightarrow> [] | Some ds \<Rightarrow> ds),
      t_executionConstraints = (case nt_executionConstraints nt of None \<Rightarrow> [] | Some c \<Rightarrow> c),
      t_resultDestination = str_or (nt_resultDestination nt) [],
      t_retryCount = 0, t_attemptHistory = [],
      t_status = (case nt_status nt of None \<Rightarrow> PENDING | Some st \<Rightarrow> st),
      t_assignedWorkerId = nt_assignedWorkerId nt, t_leaseExpiresAtMs = None,
      t_createdAtMs = now, t_updatedAtMs = now\<rparr>"

text \<open>\<open>INSERT\<close> stores \<open>assignedWorkerId || null\<close>; the primary key refuses a present id.\<close>

definition createTask :: "task_store \<Rightarrow> ms \<Rightarrow> new_task \<Rightarrow> store_error + (task_store \<times> task)" where
  "createTask s now nt =
     (let fullTask = full_task now nt
      in case validateDagCycle s (nt_id nt) (t_dependencies fullTask) of
           Some e \<Rightarrow> Inl e
         | None \<Rightarrow>
             if find_row (ts_rows s) (nt_id nt) \<noteq> None then Inl (UniqueViolation (nt_id nt))
             else Inr (s\<lparr>ts_rows := ts_rows s @
                          [fullTask\<lparr>t_assignedWorkerId := or_undef (t_assignedWorkerId fullTask)\<rparr>]\<rparr>,
                       fullTask))"

subsection \<open>Assignment, start and completion\<close>

text \<open>The statement \<open>UPDATE tasks .. WHERE id = ? AND cond\<close> with the error when no row changed, and the
  row read back (\<open>this.getTask(taskId)!\<close>).\<close>

definition reread :: "task_store \<Rightarrow> string \<Rightarrow> store_error + (task_store \<times> task)" where
  "reread s taskId = (case getTask s taskId of None \<Rightarrow> Inl (TaskNotFound taskId) | Some t \<Rightarrow> Inr (s, t))"

definition update_task ::
  "task_store \<Rightarrow> string \<Rightarrow> (task \<Rightarrow> bool) \<Rightarrow> (task \<Rightarrow> task) \<Rightarrow> store_error + (task_store \<times> task)" where
  "update_task s taskId cond f =
     (let p = (\<lambda>r. t_id r = taskId \<and> cond r);
          s' = s\<lparr>ts_rows := sql_update p f (ts_rows s)\<rparr>
      in if sql_changes p (ts_rows s) = 0 then Inl (StateConflict taskId)
         else reread s' taskId)"

definition assignTask ::
  "task_store \<Rightarrow> ms \<Rightarrow> string \<Rightarrow> string \<Rightarrow> ms \<Rightarrow> store_error + (task_store \<times> task)" where
  "assignTask s now taskId workerId leaseDurationMs =
     (case getTask s taskId of
        None \<Rightarrow> Inl (TaskNotFound taskId)
      | Some task \<Rightarrow>
          if t_status task \<noteq> PENDING then Inl (InvalidTransition (t_status task))
          else if \<not> areDependenciesSatisfied s taskId then Inl (DependenciesUnsatisfied taskId)
          else update_task s taskId (\<lambda>r. t_status r = PENDING)
                 (\<lambda>r. r\<lparr>t_status := ASSIGNED, t_assignedWorkerId := Some workerId,
                       t_leaseExpiresAtMs := Some (now + leaseDurationMs), t_updatedAtMs := now\<rparr>))"

definition startTask :: "task_store \<Rightarrow> ms \<Rightarrow> string \<Rightarrow> ms \<Rightarrow> store_error + (task_store \<times> task)" where
  "startTask s now taskId leaseDurationMs =
     (case getTask s taskId of
        None \<Rightarrow> Inl (TaskNotFound taskId)
      | Some task \<Rightarrow>
          if t_status task \<noteq> ASSIGNED then Inl (InvalidTransition (t_status task))
          else update_task s taskId (\<lambda>r. t_status r = ASSIGNED)
                 (\<lambda>r. r\<lparr>t_status := RUNNING, t_leaseExpiresAtMs := Some (now + leaseDurationMs),
                       t_updatedAtMs := now\<rparr>))"

definition completeTask ::
  "task_store \<Rightarrow> ms \<Rightarrow> string \<Rightarrow> string option \<Rightarrow> store_error + (task_store \<times> task)" where
  "completeTask s now taskId resultDestination =
     (case getTask s taskId of
        None \<Rightarrow> Inl (TaskNotFound taskId)
      | Some task \<Rightarrow>
          if t_status task \<noteq> RUNNING \<and> t_status task \<noteq> ASSIGNED
          then Inl (InvalidTransition (t_status task))
          else
            (let newDest = str_or resultDestination (t_resultDestination task)
             in update_task s taskId (\<lambda>r. t_status r = RUNNING \<or> t_status r = ASSIGNED)
                  (\<lambda>r. r\<lparr>t_status := COMPLETED, t_resultDestination := newDest,
                        t_leaseExpiresAtMs := None, t_updatedAtMs := now\<rparr>)))"

text \<open>\<open>failTask\<close> and \<open>abandonTask\<close> append an attempt and close the task; the worker stays recorded.\<close>

definition close_task ::
  "task_status \<Rightarrow> task_store \<Rightarrow> ms \<Rightarrow> string \<Rightarrow> string \<Rightarrow> store_error + (task_store \<times> task)" where
  "close_task newStatus s now taskId reason =
     (case getTask s taskId of
        None \<Rightarrow> Inl (TaskNotFound taskId)
      | Some task \<Rightarrow>
          if terminal (t_status task) then Inl (AlreadyTerminal (t_status task))
          else
            (let attempt = \<lparr>at_timestampMs = now, at_workerId = t_assignedWorkerId task,
                            at_previousStatus = t_status task, at_reason = reason, at_details = None\<rparr>;
                 updatedHistory = t_attemptHistory task @ [attempt]
             in reread (s\<lparr>ts_rows := sql_update (\<lambda>r. t_id r = taskId)
                  (\<lambda>r. r\<lparr>t_status := newStatus, t_attemptHistory := updatedHistory,
                        t_leaseExpiresAtMs := None, t_updatedAtMs := now\<rparr>) (ts_rows s)\<rparr>) taskId))"

definition failTask :: "task_store \<Rightarrow> ms \<Rightarrow> string \<Rightarrow> string \<Rightarrow> store_error + (task_store \<times> task)" where
  "failTask = close_task FAILED"

definition abandonTask :: "task_store \<Rightarrow> ms \<Rightarrow> string \<Rightarrow> string \<Rightarrow> store_error + (task_store \<times> task)" where
  "abandonTask = close_task ABANDONED"

subsection \<open>Stealing and leases\<close>

datatype steal_reason = StealNotFound string | StealNotInFlight task_status | StealCollision string

datatype steal_reply = StealSuccess task | StealFailure steal_reason

definition stealTask :: "task_store \<Rightarrow> ms \<Rightarrow> string \<Rightarrow> string \<Rightarrow> ms \<Rightarrow> task_store \<times> steal_reply" where
  "stealTask s now taskId newWorkerId leaseDurationMs =
     (case getTask s taskId of
        None \<Rightarrow> (s, StealFailure (StealNotFound taskId))
      | Some task \<Rightarrow>
          if t_status task \<noteq> ASSIGNED \<and> t_status task \<noteq> RUNNING
          then (s, StealFailure (StealNotInFlight (t_status task)))
          else
            (let newRetryCount = t_retryCount task + 1;
                 attemptHistory = t_attemptHistory task @
                   [\<lparr>at_timestampMs = now, at_workerId = t_assignedWorkerId task,
                     at_previousStatus = t_status task, at_reason = ''WORK_STOLEN_BY_SCHEDULER'',
                     at_details = Some (JObj [(''newWorkerId'', JStr newWorkerId),
                       (''previousAttempt'', JNum (of_nat (t_retryCount task + 1))),
                       (''newAttempt'', JNum (of_nat (newRetryCount + 1)))])\<rparr>]
             in case update_task s taskId (\<lambda>r. t_status r = ASSIGNED \<or> t_status r = RUNNING)
                  (\<lambda>r. r\<lparr>t_status := ASSIGNED, t_assignedWorkerId := Some newWorkerId,
                        t_retryCount := newRetryCount, t_attemptHistory := attemptHistory,
                        t_leaseExpiresAtMs := Some (now + leaseDurationMs), t_updatedAtMs := now\<rparr>) of
                  Inl e \<Rightarrow> (s, StealFailure (StealCollision taskId))
                | Inr (s', t) \<Rightarrow> (s', StealSuccess t)))"

definition renewLease :: "task_store \<Rightarrow> ms \<Rightarrow> string \<Rightarrow> ms \<Rightarrow> task_store \<times> bool" where
  "renewLease s now taskId leaseDurationMs =
     (let p = (\<lambda>r. t_id r = taskId \<and> in_flight (t_status r))
      in (s\<lparr>ts_rows := sql_update p
              (\<lambda>r. r\<lparr>t_leaseExpiresAtMs := Some (now + leaseDurationMs), t_updatedAtMs := now\<rparr>)
              (ts_rows s)\<rparr>, sql_changes p (ts_rows s) > 0))"

definition renewWorkerLeases :: "task_store \<Rightarrow> string \<Rightarrow> ms \<Rightarrow> ms \<Rightarrow> task_store \<times> nat" where
  "renewWorkerLeases s workerId leaseDurationMs fromTimeMs =
     (let p = (\<lambda>r. t_assignedWorkerId r = Some workerId \<and> in_flight (t_status r))
      in (s\<lparr>ts_rows := sql_update p
              (\<lambda>r. r\<lparr>t_leaseExpiresAtMs := Some (fromTimeMs + leaseDurationMs),
                    t_updatedAtMs := fromTimeMs\<rparr>) (ts_rows s)\<rparr>, sql_changes p (ts_rows s)))"

subsection \<open>Recovery\<close>

text \<open>
  The body the three recovery functions share: for each selected row in turn, one more attempt is
  charged, and the row is closed as FAILED when the count reaches the limit and otherwise handed back
  as PENDING.  The update is by id on the current table, the values come from the selected row.
\<close>

definition recovered_row :: "ms \<Rightarrow> string \<Rightarrow> nat \<Rightarrow> task \<Rightarrow> task \<Rightarrow> task" where
  "recovered_row now reason maxRetries task r =
     (let newRetryCount = t_retryCount task + 1;
          attempt = \<lparr>at_timestampMs = now, at_workerId = t_assignedWorkerId task,
                     at_previousStatus = t_status task, at_reason = reason, at_details = None\<rparr>
      in r\<lparr>t_status := (if newRetryCount \<ge> maxRetries then FAILED else PENDING),
           t_retryCount := newRetryCount, t_attemptHistory := t_attemptHistory task @ [attempt],
           t_assignedWorkerId := None, t_leaseExpiresAtMs := None, t_updatedAtMs := now\<rparr>)"

fun recover_loop ::
  "ms \<Rightarrow> string \<Rightarrow> nat \<Rightarrow> task list \<Rightarrow> task_store \<Rightarrow> task list \<Rightarrow> task list \<Rightarrow>
   task_store \<times> task list \<times> task list" where
  "recover_loop now reason maxRetries [] s recovered failed = (s, recovered, failed)"
| "recover_loop now reason maxRetries (row # rs) s recovered failed =
     (let task = mapRowToTask row;
          s' = s\<lparr>ts_rows := sql_update (\<lambda>r. t_id r = t_id task)
                   (recovered_row now reason maxRetries task) (ts_rows s)\<rparr>;
          back = (case getTask s' (t_id task) of None \<Rightarrow> [] | Some t \<Rightarrow> [t])
      in if t_retryCount task + 1 \<ge> maxRetries
         then recover_loop now reason maxRetries rs s' recovered (failed @ back)
         else recover_loop now reason maxRetries rs s' (recovered @ back) failed)"

definition recoverWorkerLoss ::
  "task_store \<Rightarrow> ms \<Rightarrow> string \<Rightarrow> nat \<Rightarrow> task_store \<times> task list \<times> task list" where
  "recoverWorkerLoss s now workerId maxRetries =
     (if \<not> ts_open s then (s, [], [])
      else recover_loop now ''WORKER_DISCONNECTED'' maxRetries
             (filter (\<lambda>r. t_assignedWorkerId r = Some workerId \<and> in_flight (t_status r)) (ts_rows s))
             s [] [])"

definition lease_expired :: "ms \<Rightarrow> task \<Rightarrow> bool" where
  "lease_expired nowMs r \<longleftrightarrow> in_flight (t_status r) \<and>
     (case t_leaseExpiresAtMs r of None \<Rightarrow> False | Some l \<Rightarrow> l < nowMs)"

definition recoverExpiredLeases ::
  "task_store \<Rightarrow> ms \<Rightarrow> nat \<Rightarrow> task_store \<times> task list \<times> task list" where
  "recoverExpiredLeases s nowMs maxRetries =
     (if \<not> ts_open s then (s, [], [])
      else recover_loop nowMs ''LEASE_EXPIRED'' maxRetries
             (filter (lease_expired nowMs) (ts_rows s)) s [] [])"

definition recoverInFlightTasks ::
  "task_store \<Rightarrow> ms \<Rightarrow> nat \<Rightarrow> task_store \<times> task list \<times> task list" where
  "recoverInFlightTasks s now maxRetries =
     recover_loop now ''HOST_CRASH_RECOVERY'' maxRetries
       (filter (\<lambda>r. in_flight (t_status r)) (ts_rows s)) s [] []"

definition recordTaskFailure ::
  "task_store \<Rightarrow> ms \<Rightarrow> string \<Rightarrow> string \<Rightarrow> string \<Rightarrow> json option \<Rightarrow> nat \<Rightarrow>
   store_error + (task_store \<times> task)" where
  "recordTaskFailure s now taskId workerId reason details maxRetries =
     (case getTask s taskId of
        None \<Rightarrow> Inl (TaskNotFound taskId)
      | Some task \<Rightarrow>
          let newRetryCount = t_retryCount task + 1;
              attempt = \<lparr>at_timestampMs = now, at_workerId = Some workerId,
                         at_previousStatus = t_status task, at_reason = reason, at_details = details\<rparr>;
              updatedHistory = t_attemptHistory task @ [attempt];
              newStatus = (if newRetryCount \<ge> maxRetries then FAILED else PENDING)
          in reread (s\<lparr>ts_rows := sql_update (\<lambda>r. t_id r = taskId)
               (\<lambda>r. r\<lparr>t_status := newStatus, t_retryCount := newRetryCount,
                     t_attemptHistory := updatedHistory, t_assignedWorkerId := None,
                     t_leaseExpiresAtMs := None, t_updatedAtMs := now\<rparr>) (ts_rows s)\<rparr>) taskId)"

end
