(* ===== verification/Task_Store_Props.thy ===== *)
theory Task_Store_Props
  imports Task_Store
begin

text \<open>
  What the task store keeps and does: each operation rewrites rows one by one (\<open>row_step\<close>), the ids
  stay unique, the dependency graph stays acyclic, leases match statuses, and the recovery functions
  are single passes over the table.
\<close>

subsection \<open>Rows and reads\<close>

lemma mapRowToTask_sel [simp]:
  "t_id (mapRowToTask r) = t_id r" "t_status (mapRowToTask r) = t_status r"
  "t_dependencies (mapRowToTask r) = t_dependencies r"
  "t_retryCount (mapRowToTask r) = t_retryCount r"
  "t_attemptHistory (mapRowToTask r) = t_attemptHistory r"
  "t_resultDestination (mapRowToTask r) = t_resultDestination r"
  "t_createdAtMs (mapRowToTask r) = t_createdAtMs r"
  "t_computationDescriptor (mapRowToTask r) = t_computationDescriptor r"
  "t_requiredResources (mapRowToTask r) = t_requiredResources r"
  "t_assignedWorkerId (mapRowToTask r) = or_undef (t_assignedWorkerId r)"
  "t_leaseExpiresAtMs (mapRowToTask r) = num_or_undef (t_leaseExpiresAtMs r)"
  by (simp_all add: mapRowToTask_def)

abbreviation ids :: "task_store \<Rightarrow> string list" where
  "ids s \<equiv> map t_id (ts_rows s)"

lemma find_row_SomeD: "find_row rows i = Some r \<Longrightarrow> r \<in> set rows \<and> t_id r = i"
  by (auto simp: find_row_def find_Some_iff)

lemma find_row_None: "find_row rows i = None \<longleftrightarrow> i \<notin> t_id ` set rows"
  by (auto simp: find_row_def find_None_iff)

lemma find_row_in: "distinct (map t_id rows) \<Longrightarrow> r \<in> set rows \<Longrightarrow> find_row rows (t_id r) = Some r"
proof (induction rows)
  case (Cons a rows)
  then show ?case by (force simp: find_row_def)
qed simp

lemma find_row_map:
  "(\<And>r. r \<in> set rows \<Longrightarrow> t_id (g r) = t_id r) \<Longrightarrow>
     find_row (map g rows) i = map_option g (find_row rows i)"
  by (induction rows) (auto simp: find_row_def)

lemma getTask_SomeD:
  "getTask s i = Some t \<Longrightarrow> \<exists>r. find_row (ts_rows s) i = Some r \<and> t = mapRowToTask r"
  by (auto simp: getTask_def)

lemma row_unique:
  "distinct (map t_id rows) \<Longrightarrow> r \<in> set rows \<Longrightarrow> r' \<in> set rows \<Longrightarrow> t_id r = t_id r' \<Longrightarrow> r = r'"
  by (auto simp: distinct_map dest: inj_onD)

subsection \<open>Operations as one machine\<close>

datatype store_op =
    Create new_task
  | Assign string string ms
  | Start string ms
  | Complete string "string option"
  | Fail string string
  | Abandon string string
  | Steal string string ms
  | Renew string ms
  | RenewWorker string ms
  | WorkerLoss string nat
  | Expire nat
  | CrashRecover nat
  | RecordFailure string string string "json option" nat

definition committed :: "task_store \<Rightarrow> store_error + (task_store \<times> task) \<Rightarrow> task_store" where
  "committed s r = (case r of Inl _ \<Rightarrow> s | Inr (s', _) \<Rightarrow> s')"

fun store_exec :: "task_store \<Rightarrow> ms \<Rightarrow> store_op \<Rightarrow> task_store" where
  "store_exec s now (Create nt) = committed s (createTask s now nt)"
| "store_exec s now (Assign i w d) = committed s (assignTask s now i w d)"
| "store_exec s now (Start i d) = committed s (startTask s now i d)"
| "store_exec s now (Complete i dest) = committed s (completeTask s now i dest)"
| "store_exec s now (Fail i reason) = committed s (failTask s now i reason)"
| "store_exec s now (Abandon i reason) = committed s (abandonTask s now i reason)"
| "store_exec s now (Steal i w d) = fst (stealTask s now i w d)"
| "store_exec s now (Renew i d) = fst (renewLease s now i d)"
| "store_exec s now (RenewWorker w d) = fst (renewWorkerLeases s w d now)"
| "store_exec s now (WorkerLoss w mx) = fst (recoverWorkerLoss s now w mx)"
| "store_exec s now (Expire mx) = fst (recoverExpiredLeases s now mx)"
| "store_exec s now (CrashRecover mx) = fst (recoverInFlightTasks s now mx)"
| "store_exec s now (RecordFailure i w reason det mx) =
     committed s (recordTaskFailure s now i w reason det mx)"

definition empty_store :: task_store where
  "empty_store = \<lparr>ts_open = True, ts_rows = []\<rparr>"

inductive store_reach :: "(store_op \<Rightarrow> bool) \<Rightarrow> task_store \<Rightarrow> bool" for ok where
  init: "store_reach ok empty_store"
| step: "store_reach ok s \<Longrightarrow> ok op \<Longrightarrow> store_reach ok (store_exec s now op)"

subsection \<open>What an operation may do to a row\<close>

text \<open>
  One rule per kind of update; \<open>b\<close> says whether the update is that of \<open>recordTaskFailure\<close>, the one
  operation that takes any status.
\<close>

inductive row_step :: "bool \<Rightarrow> task \<Rightarrow> task \<Rightarrow> bool" where
  keep: "row_step b r r"
| assign: "t_status r = PENDING \<Longrightarrow> row_step b r
     (r\<lparr>t_status := ASSIGNED, t_assignedWorkerId := Some w, t_leaseExpiresAtMs := Some l, t_updatedAtMs := n\<rparr>)"
| start: "t_status r = ASSIGNED \<Longrightarrow> row_step b r
     (r\<lparr>t_status := RUNNING, t_leaseExpiresAtMs := Some l, t_updatedAtMs := n\<rparr>)"
| complete: "in_flight (t_status r) \<Longrightarrow> row_step b r
     (r\<lparr>t_status := COMPLETED, t_resultDestination := d, t_leaseExpiresAtMs := None, t_updatedAtMs := n\<rparr>)"
| close: "\<not> terminal (t_status r) \<Longrightarrow> st = FAILED \<or> st = ABANDONED \<Longrightarrow> row_step b r
     (r\<lparr>t_status := st, t_attemptHistory := t_attemptHistory r @ [a], t_leaseExpiresAtMs := None,
        t_updatedAtMs := n\<rparr>)"
| steal: "in_flight (t_status r) \<Longrightarrow> row_step b r
     (r\<lparr>t_status := ASSIGNED, t_assignedWorkerId := Some w, t_retryCount := Suc (t_retryCount r),
        t_attemptHistory := t_attemptHistory r @ [a], t_leaseExpiresAtMs := Some l, t_updatedAtMs := n\<rparr>)"
| renew: "in_flight (t_status r) \<Longrightarrow> row_step b r
     (r\<lparr>t_leaseExpiresAtMs := Some l, t_updatedAtMs := n\<rparr>)"
| recover: "b \<or> in_flight (t_status r) \<Longrightarrow> st = FAILED \<or> st = PENDING \<Longrightarrow> row_step b r
     (r\<lparr>t_status := st, t_retryCount := Suc (t_retryCount r),
        t_attemptHistory := t_attemptHistory r @ [a], t_assignedWorkerId := None,
        t_leaseExpiresAtMs := None, t_updatedAtMs := n\<rparr>)"

inductive_cases row_stepE: "row_step b r r'"

lemma row_step_frame:
  "row_step b r r' \<Longrightarrow> t_id r' = t_id r \<and> t_dependencies r' = t_dependencies r \<and>
     t_createdAtMs r' = t_createdAtMs r"
  by (erule row_stepE) auto

lemma row_step_terminal: "row_step False r r' \<Longrightarrow> terminal (t_status r) \<Longrightarrow> r' = r"
  by (erule row_stepE) auto

text \<open>A pass over the table that takes each row by a step.\<close>

definition rows_step :: "bool \<Rightarrow> task_store \<Rightarrow> task_store \<Rightarrow> bool" where
  "rows_step b s s' \<longleftrightarrow> ts_open s' = ts_open s \<and>
     (\<exists>g. ts_rows s' = map g (ts_rows s) \<and> (\<forall>r\<in>set (ts_rows s). row_step b r (g r)))"

lemma rows_step_refl [simp]: "rows_step b s s"
  unfolding rows_step_def by (intro conjI refl exI [of _ id]) (auto intro: row_step.keep)

lemma rows_step_sql:
  assumes "\<And>r. r \<in> set (ts_rows s) \<Longrightarrow> p r \<Longrightarrow> row_step b r (f r)"
  shows "rows_step b s (s\<lparr>ts_rows := sql_update p f (ts_rows s)\<rparr>)"
  unfolding rows_step_def sql_update_def
  by (intro conjI exI [of _ "\<lambda>r. if p r then f r else r"]) (auto intro: assms row_step.keep)

lemma snapshot:
  assumes "distinct (ids s)" and "getTask s i = Some t" and "r \<in> set (ts_rows s)" and "t_id r = i"
  shows "t = mapRowToTask r"
  using assms find_row_in [of "ts_rows s" r] by (auto simp: getTask_def)

lemma reread_state: "reread s i = Inr (s', t) \<Longrightarrow> s' = s"
  by (auto simp: reread_def split: option.splits)

lemma update_task_state:
  "update_task s i c f = Inr (s', t) \<Longrightarrow>
     s' = s\<lparr>ts_rows := sql_update (\<lambda>r. t_id r = i \<and> c r) f (ts_rows s)\<rparr>"
  by (auto simp: update_task_def Let_def dest: reread_state split: if_splits)

text \<open>What a guarded update of one row by id does to the rows as they are read.\<close>

lemma update_task_rows:
  assumes "update_task s i c f = Inr (s', t)" and "\<And>r. t_id (f r) = t_id r"
    and "find_row (ts_rows s) i = Some r" and "c r"
  shows "getTask s' i = Some t" and "t = mapRowToTask (f r)" and "j \<noteq> i \<Longrightarrow> getTask s' j = getTask s j"
proof -
  have s': "s' = s\<lparr>ts_rows := map (\<lambda>r. if t_id r = i \<and> c r then f r else r) (ts_rows s)\<rparr>"
    using update_task_state [OF assms(1)] by (simp add: sql_update_def)
  have find: "find_row (ts_rows s') j = map_option (\<lambda>r. if t_id r = i \<and> c r then f r else r) (find_row (ts_rows s) j)" for j
    unfolding s' using assms(2) by (simp add: find_row_map)
  show "getTask s' i = Some t"
    using assms(1) unfolding s' by (auto simp: update_task_def reread_def sql_update_def Let_def split: if_splits option.splits)
  then show "t = mapRowToTask (f r)"
    using find [of i] assms(3,4) find_row_SomeD [OF assms(3)] by (simp add: getTask_def)
  show "getTask s' j = getTask s j" if "j \<noteq> i"
    using find [of j] that by (cases "find_row (ts_rows s) j") (auto simp: getTask_def dest: find_row_SomeD)
qed

lemma committed_cases:
  "(\<And>s' t. x = Inr (s', t) \<Longrightarrow> rows_step b s s') \<Longrightarrow> rows_step b s (committed s x)"
  by (auto simp: committed_def split: sum.splits)

lemma assign_rows: "assignTask s now i w d = Inr (s', t) \<Longrightarrow> rows_step b s s'"
  by (auto simp: assignTask_def split: option.splits if_splits dest!: update_task_state
      intro!: rows_step_sql row_step.assign)

lemma start_rows: "startTask s now i d = Inr (s', t) \<Longrightarrow> rows_step b s s'"
  by (auto simp: startTask_def split: option.splits if_splits dest!: update_task_state
      intro!: rows_step_sql row_step.start)

lemma complete_rows: "completeTask s now i dest = Inr (s', t) \<Longrightarrow> rows_step b s s'"
  by (auto simp: completeTask_def Let_def split: option.splits if_splits dest!: update_task_state
      intro!: rows_step_sql row_step.complete)

lemma close_rows:
  assumes "distinct (ids s)" and "close_task st s now i reason = Inr (s', t)"
    and st: "st = FAILED \<or> st = ABANDONED"
  shows "rows_step b s s'"
proof (cases "getTask s i")
  case None
  then show ?thesis using assms(2) by (simp add: close_task_def)
next
  case (Some task)
  have row: "task = mapRowToTask r" if "r \<in> set (ts_rows s)" "t_id r = i" for r
    using snapshot [OF assms(1) Some that] .
  have open_task: "\<not> terminal (t_status task)"
    using assms(2) Some by (simp add: close_task_def split: if_splits)
  have s': "s' = s\<lparr>ts_rows := sql_update (\<lambda>r. t_id r = i)
      (\<lambda>r. r\<lparr>t_status := st, t_attemptHistory := t_attemptHistory task @
           [\<lparr>at_timestampMs = now, at_workerId = t_assignedWorkerId task,
             at_previousStatus = t_status task, at_reason = reason, at_details = None\<rparr>],
           t_leaseExpiresAtMs := None, t_updatedAtMs := now\<rparr>) (ts_rows s)\<rparr>"
    using assms(2) Some open_task by (simp add: close_task_def Let_def reread_state)
  show ?thesis unfolding s'
  proof (rule rows_step_sql)
    fix r assume "r \<in> set (ts_rows s)" and "t_id r = i"
    from row [OF this] have "task = mapRowToTask r" .
    then show "row_step b r (r\<lparr>t_status := st, t_attemptHistory := t_attemptHistory task @
         [\<lparr>at_timestampMs = now, at_workerId = t_assignedWorkerId task,
           at_previousStatus = t_status task, at_reason = reason, at_details = None\<rparr>],
         t_leaseExpiresAtMs := None, t_updatedAtMs := now\<rparr>)"
      using open_task row_step.close [of r st b] st by simp
  qed
qed

lemma steal_rows:
  assumes "distinct (ids s)"
  shows "rows_step b s (fst (stealTask s now i w d))"
proof (cases "getTask s i")
  case None
  then show ?thesis by (simp add: stealTask_def)
next
  case (Some task)
  have row: "task = mapRowToTask r" if "r \<in> set (ts_rows s)" "t_id r = i" for r
    using snapshot [OF assms Some that] .
  show ?thesis
    using Some row
    by (auto simp: stealTask_def Let_def split: sum.splits dest!: update_task_state
        intro!: rows_step_sql) (auto intro!: row_step.steal [simplified])
qed

lemma renew_rows: "rows_step b s (fst (renewLease s now i d))"
  by (auto simp: renewLease_def Let_def intro!: rows_step_sql row_step.renew)

lemma renew_worker_rows: "rows_step b s (fst (renewWorkerLeases s w d n))"
  by (auto simp: renewWorkerLeases_def Let_def intro!: rows_step_sql row_step.renew)

lemma failure_rows:
  assumes "distinct (ids s)" and "recordTaskFailure s now i w reason det mx = Inr (s', t)"
  shows "rows_step True s s'"
proof (cases "getTask s i")
  case None
  then show ?thesis using assms by (simp add: recordTaskFailure_def)
next
  case (Some task)
  have row: "task = mapRowToTask r" if "r \<in> set (ts_rows s)" "t_id r = i" for r
    using snapshot [OF assms(1) Some that] .
  show ?thesis
    using Some row assms(2)
    by (auto simp: recordTaskFailure_def Let_def dest!: reread_state intro!: rows_step_sql)
      (auto intro!: row_step.recover [simplified])
qed

subsection \<open>Recovery is one pass\<close>

abbreviation charged :: "ms \<Rightarrow> string \<Rightarrow> nat \<Rightarrow> task \<Rightarrow> task" where
  "charged now reason mx r \<equiv> recovered_row now reason mx (mapRowToTask r) r"

lemma charged_id [simp]: "t_id (recovered_row now reason mx t r) = t_id r"
  by (simp add: recovered_row_def Let_def)

lemma recover_loop_pass:
  assumes "distinct (ids s)" and "distinct (map t_id rs)" and "set rs \<subseteq> set (ts_rows s)"
  shows "recover_loop now reason mx rs s recd fld =
    (s\<lparr>ts_rows := map (\<lambda>r. if r \<in> set rs then charged now reason mx r else r) (ts_rows s)\<rparr>,
     recd @ map (mapRowToTask \<circ> charged now reason mx) (filter (\<lambda>r. Suc (t_retryCount r) < mx) rs),
     fld @ map (mapRowToTask \<circ> charged now reason mx) (filter (\<lambda>r. mx \<le> Suc (t_retryCount r)) rs))"
  using assms
proof (induction rs arbitrary: s recd fld)
  case Nil
  then show ?case by simp
next
  case (Cons row rs)
  let ?g = "\<lambda>r. if t_id r = t_id row then charged now reason mx row else r"
  define s1 where "s1 = s\<lparr>ts_rows := sql_update (\<lambda>r. t_id r = t_id row)
     (recovered_row now reason mx (mapRowToTask row)) (ts_rows s)\<rparr>"
  have in_s: "row \<in> set (ts_rows s)" using Cons.prems(3) by simp
  have rows1: "ts_rows s1 = map ?g (ts_rows s)"
    using Cons.prems(1) in_s by (auto simp: s1_def sql_update_def dest: row_unique)
  have ids1: "ids s1 = ids s" unfolding rows1 by simp
  have keep: "set rs \<subseteq> set (ts_rows s1)"
  proof
    fix r assume "r \<in> set rs"
    then have "r \<in> set (ts_rows s)" "t_id r \<noteq> t_id row" using Cons.prems(2,3) by (auto simp: image_iff)
    then show "r \<in> set (ts_rows s1)" unfolding rows1 by (auto intro!: image_eqI [of _ _ r])
  qed
  have got: "getTask s1 (t_id row) = Some (mapRowToTask (charged now reason mx row))"
    using find_row_map [of "ts_rows s" ?g "t_id row"] find_row_in [OF Cons.prems(1) in_s]
    by (simp add: getTask_def rows1)
  have pass: "map (\<lambda>r. if r \<in> set rs then charged now reason mx r else r) (ts_rows s1) =
      map (\<lambda>r. if r \<in> set (row # rs) then charged now reason mx r else r) (ts_rows s)"
  proof -
    have "t_id row \<notin> t_id ` set rs" using Cons.prems(2) by simp
    then have "charged now reason mx row \<notin> set rs"
      using imageI [of "charged now reason mx row" "set rs" t_id] by auto
    then show ?thesis using Cons.prems(1,2) in_s by (auto simp: rows1 dest: row_unique)
  qed
  have s1s: "s1\<lparr>ts_rows := x\<rparr> = s\<lparr>ts_rows := x\<rparr>" for x by (simp add: s1_def)
  have IH: "recover_loop now reason mx rs s1 recd' fld' =
    (s\<lparr>ts_rows := map (\<lambda>r. if r \<in> set (row # rs) then charged now reason mx r else r) (ts_rows s)\<rparr>,
     recd' @ map (mapRowToTask \<circ> charged now reason mx) (filter (\<lambda>r. Suc (t_retryCount r) < mx) rs),
     fld' @ map (mapRowToTask \<circ> charged now reason mx) (filter (\<lambda>r. mx \<le> Suc (t_retryCount r)) rs))"
    for recd' fld'
    using Cons.IH [of s1 recd' fld'] Cons.prems(1,2) keep ids1 pass s1s by simp
  show ?case by (simp add: s1_def [symmetric] got IH Let_def not_less)
qed

lemma filter_pass:
  assumes "distinct (ids s)"
  shows "recover_loop now reason mx (filter p (ts_rows s)) s [] [] =
    (s\<lparr>ts_rows := map (\<lambda>r. if p r then charged now reason mx r else r) (ts_rows s)\<rparr>,
     map (mapRowToTask \<circ> charged now reason mx)
       (filter (\<lambda>r. p r \<and> Suc (t_retryCount r) < mx) (ts_rows s)),
     map (mapRowToTask \<circ> charged now reason mx)
       (filter (\<lambda>r. p r \<and> mx \<le> Suc (t_retryCount r)) (ts_rows s)))"
  using assms
  by (subst recover_loop_pass) (auto simp: distinct_map_filter cong: map_cong)

lemma recover_rows:
  assumes "distinct (ids s)" and "\<And>r. p r \<Longrightarrow> in_flight (t_status r)"
  shows "rows_step b s (fst (recover_loop now reason mx (filter p (ts_rows s)) s [] []))"
  unfolding filter_pass [OF assms(1)] rows_step_def
proof (intro conjI exI [of _ "\<lambda>r. if p r then charged now reason mx r else r"] ballI)
  fix r
  show "row_step b r (if p r then charged now reason mx r else r)"
    using assms(2) by (auto simp: recovered_row_def Let_def intro!: row_step.keep row_step.recover)
qed simp_all

subsection \<open>Every operation but creation is a pass over the rows\<close>

fun is_create :: "store_op \<Rightarrow> bool" where
  "is_create (Create nt) = True"
| "is_create _ = False"

fun is_failure :: "store_op \<Rightarrow> bool" where
  "is_failure (RecordFailure i w reason det mx) = True"
| "is_failure _ = False"

lemma exec_rows:
  assumes dist: "distinct (ids s)" and "\<not> is_create op"
  shows "rows_step (is_failure op) s (store_exec s now op)"
  using assms(2)
proof (cases op)
  case (Fail i reason)
  then show ?thesis by (auto simp: failTask_def intro!: committed_cases dest: close_rows [OF dist])
next
  case (Abandon i reason)
  then show ?thesis by (auto simp: abandonTask_def intro!: committed_cases dest: close_rows [OF dist])
next
  case (WorkerLoss w mx)
  then show ?thesis by (auto simp: recoverWorkerLoss_def intro!: recover_rows [OF dist])
next
  case (Expire mx)
  then show ?thesis
    by (auto simp: recoverExpiredLeases_def lease_expired_def intro!: recover_rows [OF dist])
next
  case (CrashRecover mx)
  then show ?thesis by (auto simp: recoverInFlightTasks_def intro!: recover_rows [OF dist])
qed (auto intro!: committed_cases steal_rows [OF dist] renew_rows renew_worker_rows
      dest: assign_rows start_rows complete_rows failure_rows [OF dist])

lemma createTask_rows:
  assumes "createTask s now nt = Inr (s', t)"
  shows "t = full_task now nt"
    and "s' = s\<lparr>ts_rows := ts_rows s @
           [(full_task now nt)\<lparr>t_assignedWorkerId := or_undef (nt_assignedWorkerId nt)\<rparr>]\<rparr>"
    and "nt_id nt \<notin> t_id ` set (ts_rows s)"
    and "validateDagCycle s (nt_id nt) (t_dependencies (full_task now nt)) = None"
  using assms
  by (auto simp: createTask_def Let_def full_task_def find_row_None split: option.splits if_splits)

lemma create_exec:
  "store_exec s now (Create nt) = s \<or> (\<exists>s' t. createTask s now nt = Inr (s', t) \<and>
     store_exec s now (Create nt) = s')"
  by (auto simp: committed_def split: sum.splits)

lemma full_task_sel [simp]:
  "t_id (full_task now nt) = nt_id nt"
  "t_leaseExpiresAtMs (full_task now nt) = None"
  by (simp_all add: full_task_def)

lemma rows_step_ids:
  assumes "rows_step b s s'"
  shows "ids s' = ids s"
proof -
  from assms obtain g where g: "ts_rows s' = map g (ts_rows s)"
    and st: "\<forall>r\<in>set (ts_rows s). row_step b r (g r)"
    by (auto simp: rows_step_def)
  from st show ?thesis unfolding g by (auto dest: row_step_frame)
qed

lemma exec_ids_distinct:
  assumes "distinct (ids s)"
  shows "distinct (ids (store_exec s now op))"
proof (cases "is_create op")
  case True
  then obtain nt where op: "op = Create nt" by (cases op) auto
  from create_exec [of s now nt] show ?thesis unfolding op
    using assms createTask_rows(2,3) [of s now nt] by force
next
  case False
  then show ?thesis using rows_step_ids [OF exec_rows [OF assms False]] assms by simp
qed

lemma reach_ids_distinct: "store_reach ok s \<Longrightarrow> distinct (ids s)"
  by (induction rule: store_reach.induct) (simp_all add: empty_store_def exec_ids_distinct)

text \<open>
  The induction every invariant of rows uses: it holds of a created row, and every step of a row
  keeps it.
\<close>

lemma reach_rows_induct:
  assumes "store_reach ok s"
    and created: "\<And>now nt. ok (Create nt) \<Longrightarrow>
      I ((full_task now nt)\<lparr>t_assignedWorkerId := or_undef (nt_assignedWorkerId nt)\<rparr>)"
    and kept: "\<And>b r r'. I r \<Longrightarrow> row_step b r r' \<Longrightarrow> I r'"
  shows "\<forall>r\<in>set (ts_rows s). I r"
  using assms(1)
proof (induction rule: store_reach.induct)
  case init
  then show ?case by (simp add: empty_store_def)
next
  case (step s op now)
  show ?case
  proof (cases "is_create op")
    case True
    then obtain nt where op: "op = Create nt" by (cases op) auto
    from create_exec [of s now nt] show ?thesis unfolding op
    proof
      assume "store_exec s now (Create nt) = s"
      then show "\<forall>r\<in>set (ts_rows (store_exec s now (Create nt))). I r" using step.IH by simp
    next
      assume "\<exists>s' t. createTask s now nt = Inr (s', t) \<and> store_exec s now (Create nt) = s'"
      then obtain s' t where c: "createTask s now nt = Inr (s', t)"
        and e: "store_exec s now (Create nt) = s'" by blast
      show "\<forall>r\<in>set (ts_rows (store_exec s now (Create nt))). I r"
        unfolding e createTask_rows(2) [OF c]
        using step.IH created [of nt now] step.hyps(2) by (auto simp: op)
    qed
  next
    case False
    from exec_rows [OF reach_ids_distinct [OF step.hyps(1)] False, of now]
    obtain g where g: "ts_rows (store_exec s now op) = map g (ts_rows s)"
      and st: "\<forall>r\<in>set (ts_rows s). row_step (is_failure op) r (g r)"
      by (auto simp: rows_step_def)
    show ?thesis unfolding g set_map
    proof (rule ballI, erule imageE, simp only:)
      fix r assume "r \<in> set (ts_rows s)"
      with st step.IH show "I (g r)" using kept [of r "is_failure op" "g r"] by simp
    qed
  qed
qed

lemma reach_open: "store_reach ok s \<Longrightarrow> ts_open s"
proof (induction rule: store_reach.induct)
  case init
  then show ?case by (simp add: empty_store_def)
next
  case (step s op now)
  show ?case
  proof (cases "is_create op")
    case True
    then obtain nt where op: "op = Create nt" by (cases op) auto
    from create_exec [of s now nt] show ?thesis unfolding op
      using step.IH createTask_rows(2) [of s now nt] by force
  next
    case False
    from exec_rows [OF reach_ids_distinct [OF step.hyps(1)] False, of now] step.IH
    show ?thesis by (simp add: rows_step_def)
  qed
qed

subsection \<open>The dependency graph\<close>

definition dep_edges :: "task_store \<Rightarrow> (string \<times> string) set" where
  "dep_edges s = (\<Union>r\<in>set (ts_rows s). {t_id r} \<times> set (t_dependencies r))"

lemma dependency_fold:
  assumes "distinct (map t_id ts)"
  shows "jget (fold (\<lambda>t adj. jset adj (t_id t) (t_dependencies t)) ts m) i = Some ds \<longleftrightarrow>
    (\<exists>t\<in>set ts. t_id t = i \<and> t_dependencies t = ds) \<or> (i \<notin> t_id ` set ts \<and> jget m i = Some ds)"
  using assms
proof (induction ts arbitrary: m)
  case (Cons a ts)
  then show ?case by (auto simp: js_simps)
qed simp

lemma distinct_listed:
  assumes "distinct (ids s)"
  shows "distinct (map t_id (listTasks s None))"
    and "set (listTasks s None) = mapRowToTask ` set (ts_rows s)"
proof -
  have m: "mset (map t_id (listTasks s None)) = mset (ids s)"
    by (simp add: listTasks_def comp_def)
  show "distinct (map t_id (listTasks s None))"
    using assms mset_eq_imp_distinct_iff [OF m] by simp
  show "set (listTasks s None) = mapRowToTask ` set (ts_rows s)"
    by (simp add: listTasks_def)
qed

lemma dependency_map_get:
  assumes "distinct (ids s)"
  shows "jget (dependency_map (listTasks s None)) i = Some ds \<longleftrightarrow>
    (\<exists>r\<in>set (ts_rows s). t_id r = i \<and> t_dependencies r = ds)"
  unfolding dependency_map_def dependency_fold [OF distinct_listed(1) [OF assms]]
  by (auto simp: distinct_listed(2) [OF assms])

lemma adj_edges:
  assumes "distinct (ids s)" and "i \<notin> t_id ` set (ts_rows s)"
  shows "edges (adj_of (jset (dependency_map (listTasks s None)) i ds)) =
    dep_edges s \<union> {i} \<times> set ds"
proof -
  have "v \<in> set (adj_of (jset (dependency_map (listTasks s None)) i ds) u) \<longleftrightarrow>
      (u, v) \<in> dep_edges s \<union> {i} \<times> set ds" for u v
  proof (cases "u = i")
    case True
    then show ?thesis using assms(2) by (auto simp: adj_of_iff js_simps dep_edges_def)
  next
    case False
    then have "v \<in> set (adj_of (jset (dependency_map (listTasks s None)) i ds) u) \<longleftrightarrow>
        (\<exists>ps. jget (dependency_map (listTasks s None)) u = Some ps \<and> v \<in> set ps)"
      by (simp add: adj_of_iff js_simps)
    also have "\<dots> \<longleftrightarrow> (\<exists>r\<in>set (ts_rows s). t_id r = u \<and> v \<in> set (t_dependencies r))"
      by (auto simp: dependency_map_get [OF assms(1)])
    finally show ?thesis using False by (auto simp: dep_edges_def)
  qed
  then show ?thesis by (auto simp: edges_def)
qed

lemma rows_step_edges:
  assumes "rows_step b s s'"
  shows "dep_edges s' = dep_edges s"
proof -
  from assms obtain g where g: "ts_rows s' = map g (ts_rows s)"
    and st: "\<forall>r\<in>set (ts_rows s). t_id (g r) = t_id r \<and> t_dependencies (g r) = t_dependencies r"
    by (auto simp: rows_step_def dest!: row_step_frame)
  from st show ?thesis by (simp add: dep_edges_def g)
qed

text \<open>The check is exact: it refuses a new task when, and only when, its edges would close a cycle.\<close>

lemma validate_exact:
  assumes "distinct (ids s)" and "acyclic (dep_edges s)" and "i \<notin> t_id ` set (ts_rows s)"
  shows "validateDagCycle s i ds = None \<longleftrightarrow> acyclic (dep_edges s \<union> {i} \<times> set ds)"
proof -
  let ?adj = "jset (dependency_map (listTasks s None)) i ds"
  note eq = adj_edges [OF assms(1,3), of ds]
  show ?thesis
  proof (cases "ds = []")
    case True
    then show ?thesis using assms(2) by (simp add: validateDagCycle_def)
  next
    case ne: False
    show ?thesis
    proof (cases "i \<in> set ds")
      case True
      then have "(i, i) \<in> dep_edges s \<union> {i} \<times> set ds" by simp
      then have "\<not> acyclic (dep_edges s \<union> {i} \<times> set ds)" by (auto simp: acyclic_def)
      then show ?thesis using True ne by (simp add: validateDagCycle_def)
    next
      case False
      have "validateDagCycle s i ds = None \<longleftrightarrow> \<not> find_cycle ?adj i \<noteq> None"
        using False ne by (simp add: validateDagCycle_def Let_def split: option.splits)
      also have "\<dots> \<longleftrightarrow> acyclic (dep_edges s \<union> {i} \<times> set ds)"
        using dfs_finder.acyclic_extend [OF assms(2), of ?adj i] dfs_finder.no_cycle_found [of ?adj i]
        unfolding eq by blast
      finally show ?thesis .
    qed
  qed
qed

lemma reach_acyclic: "store_reach ok s \<Longrightarrow> acyclic (dep_edges s)"
proof (induction rule: store_reach.induct)
  case init
  then show ?case by (simp add: dep_edges_def empty_store_def acyclic_def)
next
  case (step s op now)
  note dist = reach_ids_distinct [OF step.hyps(1)]
  show ?case
  proof (cases "is_create op")
    case True
    then obtain nt where op: "op = Create nt" by (cases op) auto
    from create_exec [of s now nt] show ?thesis unfolding op
    proof
      assume "store_exec s now (Create nt) = s"
      then show "acyclic (dep_edges (store_exec s now (Create nt)))" using step.IH by simp
    next
      assume "\<exists>s' t. createTask s now nt = Inr (s', t) \<and> store_exec s now (Create nt) = s'"
      then obtain s' t where c: "createTask s now nt = Inr (s', t)"
        and e: "store_exec s now (Create nt) = s'" by blast
      have "dep_edges s' = dep_edges s \<union> {nt_id nt} \<times> set (t_dependencies (full_task now nt))"
        unfolding createTask_rows(2) [OF c] by (simp add: dep_edges_def Un_commute)
      then show "acyclic (dep_edges (store_exec s now (Create nt)))"
        using validate_exact [OF dist step.IH createTask_rows(3) [OF c]] createTask_rows(4) [OF c] e
        by simp
    qed
  next
    case False
    then show ?thesis using rows_step_edges [OF exec_rows [OF dist False]] step.IH by simp
  qed
qed

subsection \<open>Losing a worker\<close>

lemma recoverWorkerLoss_count:
  assumes "distinct (ids s)" and "ts_open s"
  shows "getActiveTaskCountForWorker (fst (recoverWorkerLoss s now w mx)) w' =
    (if w' = w then 0 else getActiveTaskCountForWorker s w')"
proof -
  have rows: "ts_rows (fst (recoverWorkerLoss s now w mx)) =
     map (\<lambda>r. if t_assignedWorkerId r = Some w \<and> in_flight (t_status r)
          then charged now ''WORKER_DISCONNECTED'' mx r else r) (ts_rows s)"
    using filter_pass [OF assms(1)] assms(2)
    by (simp add: recoverWorkerLoss_def)
  show ?thesis
  proof (cases "w' = w")
    case True
    then show ?thesis
      by (auto simp: getActiveTaskCountForWorker_def rows filter_empty_conv recovered_row_def Let_def)
  next
    case False
    then have "filter ((\<lambda>r. t_assignedWorkerId r = Some w' \<and> in_flight (t_status r)) \<circ>
         (\<lambda>r. if t_assignedWorkerId r = Some w \<and> in_flight (t_status r)
            then charged now ''WORKER_DISCONNECTED'' mx r else r)) (ts_rows s) =
       filter (\<lambda>r. t_assignedWorkerId r = Some w' \<and> in_flight (t_status r)) (ts_rows s)"
      by (intro filter_cong) (auto simp: recovered_row_def Let_def)
    then show ?thesis using False
      by (simp add: getActiveTaskCountForWorker_def rows filter_map)
  qed
qed

end
