(* ===== verification/Task_Store_Theorems.thy ===== *)
theory Task_Store_Theorems
  imports Task_Store_Props
begin

text \<open>
  The properties of the task store: acyclic dependencies, the exact assignment condition, the state
  machine with its terminal states, leases, recovery, stealing and exclusion, each with a witness on a
  small store.
\<close>

subsection \<open>A small store for the witnesses\<close>

definition demo_task :: "string \<Rightarrow> string list \<Rightarrow> new_task" where
  "demo_task i ds = \<lparr>nt_id = i, nt_inputRef = ''ref'', nt_computationDescriptor = ''k'',
     nt_requiredResources = None, nt_dependencies = Some ds, nt_executionConstraints = None,
     nt_resultDestination = None, nt_assignedWorkerId = None, nt_status = None\<rparr>"

text \<open>Two tasks, the second depending on the first; the first assigned, run and completed.\<close>

definition demo1 :: task_store where
  "demo1 = store_exec empty_store 1 (Create (demo_task ''a'' []))"
definition demo2 :: task_store where
  "demo2 = store_exec demo1 2 (Create (demo_task ''b'' [''a'']))"
definition demo3 :: task_store where
  "demo3 = store_exec demo2 3 (Assign ''a'' ''w'' 10)"
definition demo4 :: task_store where
  "demo4 = store_exec demo3 4 (Complete ''a'' None)"

text \<open>Tasks are created pending and unassigned by every caller inside Core.\<close>

fun created_pending :: "store_op \<Rightarrow> bool" where
  "created_pending (Create nt) \<longleftrightarrow>
     (nt_status nt = None \<or> nt_status nt = Some PENDING) \<and> nt_assignedWorkerId nt = None"
| "created_pending _ \<longleftrightarrow> True"

lemma demo_reach:
  "store_reach created_pending demo1" "store_reach created_pending demo2"
  "store_reach created_pending demo3" "store_reach created_pending demo4"
proof -
  show 1: "store_reach created_pending demo1"
    unfolding demo1_def by (rule store_reach.step [OF store_reach.init]) (simp add: demo_task_def)
  show 2: "store_reach created_pending demo2"
    unfolding demo2_def by (rule store_reach.step [OF 1]) (simp add: demo_task_def)
  show 3: "store_reach created_pending demo3"
    unfolding demo3_def by (rule store_reach.step [OF 2]) simp
  show "store_reach created_pending demo4"
    unfolding demo4_def by (rule store_reach.step [OF 3]) simp
qed


lemma demo4_rows: "map (\<lambda>r. (t_id r, t_status r, t_leaseExpiresAtMs r)) (ts_rows demo4) =
   [(''a'', COMPLETED, None), (''b'', PENDING, None)]"
  by code_simp

subsection \<open>Dependencies\<close>

text \<open>C8. Whatever operations ran, the dependency graph of the stored tasks is acyclic.\<close>

theorem store_dependencies_acyclic:
  assumes "store_reach ok s"
  shows "acyclic (dep_edges s)"
  using assms by (rule reach_acyclic)

theorem store_dependencies_acyclic_witness:
  "acyclic (dep_edges demo4) \<and> (''b'', ''a'') \<in> dep_edges demo4"
proof
  show "acyclic (dep_edges demo4)"
    using demo_reach(4) by (rule store_dependencies_acyclic)
  have "map (\<lambda>r. (t_id r, t_dependencies r)) (ts_rows demo4) = [(''a'', []), (''b'', [''a''])]"
    by code_simp
  then show "(''b'', ''a'') \<in> dep_edges demo4"
    by (auto simp: dep_edges_def map_eq_Cons_conv)
qed

text \<open>C19. The cycle check of \<open>createTask\<close> is exact: for a new id it refuses the dependencies if and
  only if their edges would close a cycle in the stored graph.\<close>

theorem validateDagCycle_exact:
  assumes "store_reach ok s" and "i \<notin> t_id ` set (ts_rows s)"
  shows "validateDagCycle s i ds \<noteq> None \<longleftrightarrow> \<not> acyclic (dep_edges s \<union> {i} \<times> set ds)"
  using validate_exact [OF reach_ids_distinct [OF assms(1)] reach_acyclic [OF assms(1)] assms(2)]
  by simp

definition demo_cycle :: task_store where
  "demo_cycle = store_exec (store_exec empty_store 1 (Create (demo_task ''a'' [''c'']))) 2
     (Create (demo_task ''b'' [''a'']))"

theorem validateDagCycle_exact_witness:
  "\<not> acyclic (dep_edges demo_cycle \<union> {''c''} \<times> set [''b''])"
proof -
  have "store_reach (\<lambda>_. True) demo_cycle"
    unfolding demo_cycle_def by (intro store_reach.step store_reach.init) simp_all
  moreover have "map t_id (ts_rows demo_cycle) = [''a'', ''b'']" by code_simp
  then have "''c'' \<notin> t_id ` set (ts_rows demo_cycle)" by (auto simp flip: set_map)
  moreover have "validateDagCycle demo_cycle ''c'' [''b''] =
      Some (CyclicDependency [''c'', ''b'', ''a'', ''c''])" by code_simp
  ultimately show ?thesis using validateDagCycle_exact [of _ demo_cycle "''c''" "[''b'']"] by simp
qed

text \<open>The count of the dependency query: distinct completed rows against listed dependencies.\<close>

lemma satisfied_iff:
  assumes dist: "distinct (ids s)" and t: "getTask s i = Some t"
  shows "areDependenciesSatisfied s i \<longleftrightarrow> distinct (t_dependencies t) \<and>
    (\<forall>d\<in>set (t_dependencies t). \<exists>r\<in>set (ts_rows s). t_id r = d \<and> t_status r = COMPLETED)"
proof (cases "t_dependencies t = []")
  case True
  then show ?thesis using t by (simp add: areDependenciesSatisfied_def)
next
  case False
  let ?ds = "t_dependencies t"
  let ?C = "filter (\<lambda>r. t_id r \<in> set ?ds \<and> t_status r = COMPLETED) (ts_rows s)"
  have d: "distinct (map t_id ?C)" using dist by (simp add: distinct_map_filter)
  have sub: "set (map t_id ?C) \<subseteq> set ?ds" by auto
  have len: "length ?C = card (set (map t_id ?C))" using distinct_card [OF d] by simp
  have le: "card (set ?ds) \<le> length ?ds" by (rule card_length)
  have all: "set (map t_id ?C) = set ?ds \<longleftrightarrow>
      (\<forall>d\<in>set ?ds. \<exists>r\<in>set (ts_rows s). t_id r = d \<and> t_status r = COMPLETED)"
  proof -
    have "set (map t_id ?C) =
        {d \<in> set ?ds. \<exists>r\<in>set (ts_rows s). t_id r = d \<and> t_status r = COMPLETED}" by auto
    then show ?thesis by auto
  qed
  have "length ?C = length ?ds \<longleftrightarrow> distinct ?ds \<and> set (map t_id ?C) = set ?ds"
  proof
    assume "length ?C = length ?ds"
    then have eq: "card (set (map t_id ?C)) = length ?ds" using len by simp
    have "card (set (map t_id ?C)) \<le> card (set ?ds)" using sub by (intro card_mono) auto
    with eq le have c: "card (set ?ds) = length ?ds" by simp
    then have "distinct ?ds" by (rule card_distinct)
    moreover have "set (map t_id ?C) = set ?ds"
      using sub eq c by (intro card_subset_eq) auto
    ultimately show "distinct ?ds \<and> set (map t_id ?C) = set ?ds" by simp
  next
    assume "distinct ?ds \<and> set (map t_id ?C) = set ?ds"
    then show "length ?C = length ?ds" using len by (simp add: distinct_card)
  qed
  then show ?thesis using t False all by (simp add: areDependenciesSatisfied_def)
qed

lemma update_task_success:
  assumes "distinct (ids s)" and "find_row (ts_rows s) i = Some r" and "c r" and "\<And>r. t_id (f r) = t_id r"
  shows "update_task s i c f = Inr (s\<lparr>ts_rows := sql_update (\<lambda>r. t_id r = i \<and> c r) f (ts_rows s)\<rparr>,
           mapRowToTask (f r))"
proof -
  have r: "r \<in> set (ts_rows s)" "t_id r = i" using find_row_SomeD [OF assms(2)] by auto
  then have "sql_changes (\<lambda>r. t_id r = i \<and> c r) (ts_rows s) \<noteq> 0"
    using assms(3) by (auto simp: sql_changes_def filter_empty_conv)
  moreover have "find_row (sql_update (\<lambda>r. t_id r = i \<and> c r) f (ts_rows s)) i = Some (f r)"
    unfolding sql_update_def using assms(2-4) r by (subst find_row_map) auto
  ultimately show ?thesis by (simp add: update_task_def reread_def getTask_def)
qed

text \<open>C22. \<open>assignTask\<close> succeeds exactly on a pending task whose dependencies are listed without
  repetition and are all completed; then exactly that row becomes ASSIGNED to the worker with a fresh
  lease, and nothing else changes.  (A dependency listed twice makes the task unassignable for ever.)\<close>

theorem assignTask_iff:
  assumes "store_reach ok s"
  shows "assignTask s now i w dur = Inr (s', t) \<longleftrightarrow>
    (\<exists>r. find_row (ts_rows s) i = Some r \<and> t_status r = PENDING \<and> distinct (t_dependencies r) \<and>
       (\<forall>d\<in>set (t_dependencies r). \<exists>r'\<in>set (ts_rows s). t_id r' = d \<and> t_status r' = COMPLETED) \<and>
       s' = s\<lparr>ts_rows := map (\<lambda>x. if t_id x = i then x\<lparr>t_status := ASSIGNED,
              t_assignedWorkerId := Some w, t_leaseExpiresAtMs := Some (now + dur),
              t_updatedAtMs := now\<rparr> else x) (ts_rows s)\<rparr> \<and>
       getTask s' i = Some t)"
proof (cases "find_row (ts_rows s) i")
  case None
  then show ?thesis by (simp add: assignTask_def getTask_def)
next
  case (Some r)
  note dist = reach_ids_distinct [OF assms]
  let ?f = "\<lambda>r. r\<lparr>t_status := ASSIGNED, t_assignedWorkerId := Some w,
       t_leaseExpiresAtMs := Some (now + dur), t_updatedAtMs := now\<rparr>"
  have got: "getTask s i = Some (mapRowToTask r)" using Some by (simp add: getTask_def)
  have row: "x = r" if "x \<in> set (ts_rows s)" "t_id x = i" for x
    using find_row_in [OF dist that(1)] that(2) Some by simp
  show ?thesis
  proof (cases "t_status r = PENDING")
    case False
    then show ?thesis using Some by (simp add: assignTask_def got)
  next
    case True
    have upd: "sql_update (\<lambda>x. t_id x = i \<and> t_status x = PENDING) ?f (ts_rows s) =
        map (\<lambda>x. if t_id x = i then ?f x else x) (ts_rows s)"
      using row True by (auto simp: sql_update_def)
    have read: "getTask (s\<lparr>ts_rows := map (\<lambda>x. if t_id x = i then ?f x else x) (ts_rows s)\<rparr>) i =
        Some (mapRowToTask (?f r))"
      using Some find_row_SomeD [OF Some] by (simp add: getTask_def find_row_map)
    have "update_task s i (\<lambda>r. t_status r = PENDING) ?f =
        Inr (s\<lparr>ts_rows := map (\<lambda>x. if t_id x = i then ?f x else x) (ts_rows s)\<rparr>, mapRowToTask (?f r))"
      using update_task_success [OF dist Some, of "\<lambda>r. t_status r = PENDING" ?f] True upd by simp
    then show ?thesis
      using Some True read satisfied_iff [OF dist got] by (auto simp: assignTask_def got)
  qed
qed

theorem assignTask_iff_witness:
  "\<exists>s' t r. assignTask demo4 5 ''b'' ''w'' 10 = Inr (s', t) \<and> getTask s' ''b'' = Some t \<and>
     find_row (ts_rows demo4) ''b'' = Some r \<and> t_status r = PENDING \<and> distinct (t_dependencies r)"
proof -
  obtain s' t where st: "assignTask demo4 5 ''b'' ''w'' 10 = Inr (s', t)"
    by (cases "assignTask demo4 5 ''b'' ''w'' 10") (code_simp, auto)
  with assignTask_iff [OF demo_reach(4), of 5 "''b''" "''w''" 10 s' t] show ?thesis by blast
qed

subsection \<open>Statuses, leases and attempts\<close>

fun store_run :: "task_store \<Rightarrow> (ms \<times> store_op) list \<Rightarrow> task_store" where
  "store_run s [] = s"
| "store_run s ((now, op) # ops) = store_run (store_exec s now op) ops"

lemma find_row_append: "find_row xs i = Some r \<Longrightarrow> find_row (xs @ ys) i = Some r"
  by (induction xs) (auto simp: find_row_def)

lemma exec_terminal:
  assumes "distinct (ids s)" and "find_row (ts_rows s) i = Some r" and "terminal (t_status r)"
    and "\<not> is_failure op"
  shows "find_row (ts_rows (store_exec s now op)) i = Some r"
proof (cases "is_create op")
  case True
  then obtain nt where op: "op = Create nt" by (cases op) auto
  from create_exec [of s now nt] show ?thesis unfolding op
  proof
    assume "store_exec s now (Create nt) = s"
    then show "find_row (ts_rows (store_exec s now (Create nt))) i = Some r" using assms(2) by simp
  next
    assume "\<exists>s' t. createTask s now nt = Inr (s', t) \<and> store_exec s now (Create nt) = s'"
    then obtain s' t where c: "createTask s now nt = Inr (s', t)"
      and e: "store_exec s now (Create nt) = s'" by blast
    show "find_row (ts_rows (store_exec s now (Create nt))) i = Some r"
      unfolding e createTask_rows(2) [OF c] using assms(2) by (simp add: find_row_append)
  qed
next
  case False
  from exec_rows [OF assms(1) False, of now]
  obtain g where g: "ts_rows (store_exec s now op) = map g (ts_rows s)"
    and st: "\<forall>r\<in>set (ts_rows s). row_step False r (g r)"
    using assms(4) by (auto simp: rows_step_def)
  have "find_row (map g (ts_rows s)) i = map_option g (find_row (ts_rows s) i)"
    using st by (intro find_row_map) (blast dest: row_step_frame)
  moreover have "g r = r"
    using st find_row_SomeD [OF assms(2)] assms(3) by (blast dest: row_step_terminal)
  ultimately show ?thesis using g assms(2) by simp
qed

text \<open>C21. A completed, failed or abandoned task is final: no run of operations changes any field of its
  row, unless the run contains a \<open>recordTaskFailure\<close>.\<close>

theorem terminal_rows_final:
  assumes "store_reach ok s" and "find_row (ts_rows s) i = Some r" and "terminal (t_status r)"
    and "\<forall>(now, op)\<in>set ops. \<not> is_failure op"
  shows "find_row (ts_rows (store_run s ops)) i = Some r"
  using reach_ids_distinct [OF assms(1)] assms(2-)
proof (induction s ops rule: store_run.induct)
  case (2 s now op ops)
  then show ?case using exec_ids_distinct [of s now op] exec_terminal [of s i r op now] by auto
qed simp

theorem terminal_rows_final_witness:
  "map_option t_status (find_row (ts_rows (store_run demo4
     [(9, Assign ''a'' ''v'' 10), (9, Steal ''a'' ''v'' 10), (9, Fail ''a'' ''x''), (9, CrashRecover 3)]))
     ''a'') = Some COMPLETED"
proof -
  have c: "map_option t_status (find_row (ts_rows demo4) ''a'') = Some COMPLETED" by code_simp
  then obtain r where "find_row (ts_rows demo4) ''a'' = Some r" and "t_status r = COMPLETED" by auto
  from terminal_rows_final [OF demo_reach(4) this(1), of "[(9, Assign ''a'' ''v'' 10),
      (9, Steal ''a'' ''v'' 10), (9, Fail ''a'' ''x''), (9, CrashRecover 3)]"] this(2)
  show ?thesis by simp
qed

text \<open>The exception: a late failure report reopens a completed task.\<close>

lemma recordTaskFailure_reopens:
  "map (\<lambda>r. (t_id r, t_status r)) (ts_rows
     (store_exec demo4 5 (RecordFailure ''a'' ''w'' ''EXECUTION_FAILED'' None 3))) =
   [(''a'', PENDING), (''b'', PENDING)]"
  by code_simp




subsection \<open>Recovery\<close>

text \<open>C29. One watchdog pass: \<open>recoverExpiredLeases\<close> charges one retry to every row whose lease has
  run out and to no other, leaves no expired lease behind, and reports the rows it returned to PENDING
  and those it closed as FAILED at the retry limit, in row order.\<close>

theorem recoverExpiredLeases_pass:
  assumes "store_reach ok s" and "recoverExpiredLeases s now mx = (s', recovered, failed)"
  shows "ts_rows s' = map (\<lambda>r. if lease_expired now r
           then charged now ''LEASE_EXPIRED'' mx r else r) (ts_rows s) \<and>
       (\<forall>r\<in>set (ts_rows s'). \<not> lease_expired now r) \<and>
       recovered = map (mapRowToTask \<circ> charged now ''LEASE_EXPIRED'' mx)
           (filter (\<lambda>r. lease_expired now r \<and> t_retryCount r + 1 < mx) (ts_rows s)) \<and>
       failed = map (mapRowToTask \<circ> charged now ''LEASE_EXPIRED'' mx)
           (filter (\<lambda>r. lease_expired now r \<and> mx \<le> t_retryCount r + 1) (ts_rows s)) \<and>
       (\<forall>t\<in>set recovered. t_status t = PENDING \<and> t_assignedWorkerId t = None) \<and>
       (\<forall>t\<in>set failed. t_status t = FAILED \<and> mx \<le> t_retryCount t)"
proof -
  have pass: "(s', recovered, failed) =
     (s\<lparr>ts_rows := map (\<lambda>r. if lease_expired now r then charged now ''LEASE_EXPIRED'' mx r else r)
        (ts_rows s)\<rparr>,
      map (mapRowToTask \<circ> charged now ''LEASE_EXPIRED'' mx)
        (filter (\<lambda>r. lease_expired now r \<and> Suc (t_retryCount r) < mx) (ts_rows s)),
      map (mapRowToTask \<circ> charged now ''LEASE_EXPIRED'' mx)
        (filter (\<lambda>r. lease_expired now r \<and> mx \<le> Suc (t_retryCount r)) (ts_rows s)))"
    using assms filter_pass [OF reach_ids_distinct [OF assms(1)]] reach_open [OF assms(1)]
    by (simp add: recoverExpiredLeases_def)
  have charged_free: "\<not> lease_expired now (charged now ''LEASE_EXPIRED'' mx r)" for r
    by (simp add: lease_expired_def recovered_row_def Let_def)
  have status: "t_status (charged now ''LEASE_EXPIRED'' mx r) =
      (if mx \<le> Suc (t_retryCount r) then FAILED else PENDING)"
    "t_assignedWorkerId (charged now ''LEASE_EXPIRED'' mx r) = None"
    "t_retryCount (charged now ''LEASE_EXPIRED'' mx r) = Suc (t_retryCount r)" for r
    by (simp_all add: recovered_row_def Let_def)
  from pass show ?thesis
    by (simp add: charged_free status split del: if_split) (auto simp: charged_free)
qed

theorem recoverExpiredLeases_pass_witness:
  "map (\<lambda>r. (t_id r, t_status r, t_retryCount r)) (ts_rows (fst (recoverExpiredLeases demo3 20 3))) =
     [(''a'', PENDING, 1), (''b'', PENDING, 0)] \<and>
   filter (lease_expired 20) (ts_rows (fst (recoverExpiredLeases demo3 20 3))) = []"
proof
  show "map (\<lambda>r. (t_id r, t_status r, t_retryCount r)) (ts_rows (fst (recoverExpiredLeases demo3 20 3))) =
     [(''a'', PENDING, 1), (''b'', PENDING, 0)]" by code_simp
  obtain s' rc fl where e: "recoverExpiredLeases demo3 20 3 = (s', rc, fl)" by (metis prod_cases3)
  from recoverExpiredLeases_pass [OF demo_reach(3) e]
  have "\<forall>r\<in>set (ts_rows s'). \<not> lease_expired 20 r" by (elim conjE)
  then show "filter (lease_expired 20) (ts_rows (fst (recoverExpiredLeases demo3 20 3))) = []"
    by (simp add: e filter_empty_conv)
qed

text \<open>When a worker is lost, \<open>recoverWorkerLoss\<close> takes all of its in-flight tasks away and leaves
  the load of every other worker as it was.\<close>

theorem recoverWorkerLoss_frees:
  assumes "store_reach ok s"
  shows "getActiveTaskCountForWorker (fst (recoverWorkerLoss s now w mx)) w' =
    (if w' = w then 0 else getActiveTaskCountForWorker s w')"
  by (rule recoverWorkerLoss_count [OF reach_ids_distinct [OF assms] reach_open [OF assms]])

theorem recoverWorkerLoss_frees_witness:
  "getActiveTaskCountForWorker demo3 ''w'' = 1 \<and>
   getActiveTaskCountForWorker (fst (recoverWorkerLoss demo3 5 ''w'' 3)) ''w'' = 0"
proof
  show "getActiveTaskCountForWorker demo3 ''w'' = 1" by code_simp
  show "getActiveTaskCountForWorker (fst (recoverWorkerLoss demo3 5 ''w'' 3)) ''w'' = 0"
    using recoverWorkerLoss_frees [OF demo_reach(3), of 5 "''w''" 3 "''w''"] by simp
qed

end
