(* ===== verification/Kernel_Registry.thy ===== *)
theory Kernel_Registry
  imports Types
begin

text \<open>
  \<^verbatim>\<open>core/src/kernel_registry.ts\<close>: the certified kernels.  The singleton is the value
  \<open>new_registry\<close>, the registry the private constructor fills.
\<close>

record kernel_definition =
  kd_kernelId :: string
  kd_version :: string
  kd_domain :: string
  kd_description :: string
  kd_inputFormat :: string
  kd_outputFormat :: string
  kd_minBeneficialBytes :: int
  kd_defaultToleranceValidator :: string
  kd_supportedPlatforms :: "os_type list"
  kd_estimatedComplexityFlopsPerByte :: rat

type_synonym kernel_registry = "(string, kernel_definition) jsmap"

definition registerKernel :: "kernel_registry \<Rightarrow> kernel_definition \<Rightarrow> kernel_registry" where
  "registerKernel reg k = jset reg (kd_kernelId k) k"

definition getKernel :: "kernel_registry \<Rightarrow> string \<Rightarrow> kernel_definition option" where
  "getKernel reg i = jget reg i"

definition isCertified :: "kernel_registry \<Rightarrow> string \<Rightarrow> bool" where
  "isCertified reg i = jhas reg i"

definition isPlatformSupported :: "kernel_registry \<Rightarrow> string \<Rightarrow> os_type \<Rightarrow> bool" where
  "isPlatformSupported reg i os =
     (case getKernel reg i of None \<Rightarrow> False | Some k \<Rightarrow> os \<in> set (kd_supportedPlatforms k))"

definition listKernels :: "kernel_registry \<Rightarrow> kernel_definition list" where
  "listKernels reg = jvalues reg"

definition default_kernels :: "kernel_definition list" where
  "default_kernels =
     [\<lparr>kd_kernelId = ''image_filter_box_blur_v1'', kd_version = ''1.0.0'',
       kd_domain = ''IMAGE_PROCESSING'',
       kd_description = ''2D Box Blur filter on planar RGBA uint8 pixel buffers with radius parameter'',
       kd_inputFormat = ''RAW_PLANAR_RGBA_UINT8'', kd_outputFormat = ''RAW_PLANAR_RGBA_UINT8'',
       kd_minBeneficialBytes = 65536, kd_defaultToleranceValidator = ''IMAGE_PIXEL_DELTA'',
       kd_supportedPlatforms = [Darwin, Windows, Linux, Ios, Android],
       kd_estimatedComplexityFlopsPerByte = 18\<rparr>,
      \<lparr>kd_kernelId = ''image_filter_gaussian_blur_v1'', kd_version = ''1.0.0'',
       kd_domain = ''IMAGE_PROCESSING'',
       kd_description = ''2D Gaussian Blur convolution on planar RGBA uint8 pixel buffers'',
       kd_inputFormat = ''RAW_PLANAR_RGBA_UINT8'', kd_outputFormat = ''RAW_PLANAR_RGBA_UINT8'',
       kd_minBeneficialBytes = 65536, kd_defaultToleranceValidator = ''IMAGE_PIXEL_DELTA'',
       kd_supportedPlatforms = [Darwin, Windows, Linux, Ios, Android],
       kd_estimatedComplexityFlopsPerByte = 36\<rparr>,
      \<lparr>kd_kernelId = ''matrix_multiply_v1'', kd_version = ''1.0.0'',
       kd_domain = ''NUMERICAL_COMPUTATION'',
       kd_description = ''2D General Matrix Multiplication (GEMM) on float32 planar buffers'',
       kd_inputFormat = ''FLOAT32_ARRAY'', kd_outputFormat = ''FLOAT32_ARRAY'',
       kd_minBeneficialBytes = 131072, kd_defaultToleranceValidator = ''NUMERIC_TOLERANCE'',
       kd_supportedPlatforms = [Darwin, Windows, Linux],
       kd_estimatedComplexityFlopsPerByte = 128\<rparr>,
      \<lparr>kd_kernelId = ''video_frame_analysis_v1'', kd_version = ''1.0.0'',
       kd_domain = ''IMAGE_PROCESSING'',
       kd_description = ''Multi-frame sequential luminance, gradient edge density, blur score, and motion energy analysis'',
       kd_inputFormat = ''RAW_PLANAR_RGBA_UINT8'', kd_outputFormat = ''JSON_METADATA_ARRAY'',
       kd_minBeneficialBytes = 65536, kd_defaultToleranceValidator = ''NUMERIC_TOLERANCE'',
       kd_supportedPlatforms = [Darwin, Windows, Linux],
       kd_estimatedComplexityFlopsPerByte = 32\<rparr>]"

definition new_registry :: kernel_registry where
  "new_registry = fold (\<lambda>k reg. registerKernel reg k) default_kernels []"

text \<open>Registering a kernel certifies it for good and changes the record of no other kernel.\<close>

lemma registerKernel_get [simp]:
  "getKernel (registerKernel reg k) i = (if i = kd_kernelId k then Some k else getKernel reg i)"
  by (simp add: getKernel_def registerKernel_def js_simps)

lemma isCertified_get: "isCertified reg i \<longleftrightarrow> getKernel reg i \<noteq> None"
  unfolding isCertified_def getKernel_def by (rule jhas_jget)

lemma registerKernel_certifies:
  "isCertified (registerKernel reg k) i \<longleftrightarrow> i = kd_kernelId k \<or> isCertified reg i"
  by (simp add: isCertified_get)

lemma platform_certified: "isPlatformSupported reg i os \<Longrightarrow> isCertified reg i"
  by (auto simp: isPlatformSupported_def isCertified_get split: option.splits)

lemma new_registry_ids:
  "map kd_kernelId (listKernels new_registry) =
     [''image_filter_box_blur_v1'', ''image_filter_gaussian_blur_v1'', ''matrix_multiply_v1'',
      ''video_frame_analysis_v1'']"
  by code_simp

lemma matrix_not_on_phones:
  "isPlatformSupported new_registry ''matrix_multiply_v1'' os \<longleftrightarrow> os = Darwin \<or> os = Windows \<or> os = Linux"
proof -
  have "map_option kd_supportedPlatforms (getKernel new_registry ''matrix_multiply_v1'') =
      Some [Darwin, Windows, Linux]" by code_simp
  then show ?thesis by (auto simp: isPlatformSupported_def)
qed

end
