(* ===== verification/Dag_Engine.thy ===== *)
theory Dag_Engine
  imports Kernel_Registry Cycle_Check
begin

text \<open>
  \<^verbatim>\<open>core/src/dag_engine.ts\<close>: multi-stage workloads.  A DAG is validated, registered with its stages
  PENDING or READY, and driven by \<open>assignStage\<close>, \<open>completeStage\<close>, \<open>failStage\<close> and
  \<open>cancelDag\<close>.  The three Maps are association lists in insertion order; a stage object mutated in
  place is the entry replaced at its key.  SHA-256 is the parameter \<open>sha\<close>, the clock is \<open>now\<close>.  An
  optional list of the descriptor (\<open>stage.dependencies || []\<close>) is a list.
\<close>

subsection \<open>Data\<close>

datatype dag_stage_status =
    Dag_PENDING | Dag_READY | Dag_RUNNING | Dag_COMPLETED | Dag_FAILED | Dag_CANCELLED

record dag_stage =
  sg_stageId :: string
  sg_kernelId :: string
  sg_parameters :: "json option"
  sg_dependencies :: "string list"
  sg_inputArtifactRefs :: "string list"
  sg_outputArtifactRef :: string
  sg_status :: dag_stage_status
  sg_assignedWorkerId :: "string option"
  sg_attemptNumber :: nat
  sg_executionTimeMs :: "int option"
  sg_error :: "string option"

record dag_artifact =
  ar_artifactId :: string
  ar_producingStageId :: string
  ar_sizeBytes :: int
  ar_format :: string
  ar_checksumSha256 :: "string option"
  ar_dataBuffer :: "buffer option"
  ar_referenceCount :: nat
  ar_isCleanedUp :: bool
  ar_createdAtMs :: ms

record dag_input =
  di_artifactId :: string
  di_format :: string
  di_sizeBytes :: int
  di_dataBuffer :: "payload option"

record workload_dag =
  dd_dagId :: string
  dd_version :: string
  dd_stages :: "dag_stage list"
  dd_inputArtifacts :: "dag_input list"
  dd_outputArtifactRefs :: "string list"

record dag_state =
  ds_descriptor :: workload_dag
  ds_stages :: "(string, dag_stage) jsmap"
  ds_artifacts :: "(string, dag_artifact) jsmap"
  ds_isCancelled :: bool
  ds_createdAtMs :: ms
  ds_completedAtMs :: "ms option"

record dag_engine =
  en_dags :: "(string, dag_state) jsmap"
  en_registry :: kernel_registry

definition maxStageAttempts :: nat where
  "maxStageAttempts = 3"

record dag_progress =
  dp_dagId :: string
  dp_totalStages :: nat
  dp_completedStages :: nat
  dp_runningStages :: nat
  dp_pendingStages :: nat
  dp_failedStages :: nat
  dp_percentComplete :: rat
  dp_isCancelled :: bool
  dp_isCompleted :: bool

datatype dag_error =
    MissingDagId
  | NoStages
  | MissingStageId
  | DuplicateStageId string
  | KernelNotCertified string
  | NonExistentDependency string string
  | ArtifactNotProduced string string
  | CyclicStages string
  | OutputNotProduced string
  | DagNotFound string
  | DagCancelled string
  | StageNotFound string
  | StageNotReady dag_stage_status

subsection \<open>Validation\<close>

fun scan_stages ::
  "kernel_registry \<Rightarrow> dag_stage list \<Rightarrow> string list \<Rightarrow> string list \<Rightarrow>
   dag_error + (string list \<times> string list)" where
  "scan_stages reg [] stageIds produced = Inr (stageIds, produced)"
| "scan_stages reg (st # sts) stageIds produced =
     (if sg_stageId st = [] then Inl MissingStageId
      else if sg_stageId st \<in> set stageIds then Inl (DuplicateStageId (sg_stageId st))
      else if \<not> isCertified reg (sg_kernelId st) then Inl (KernelNotCertified (sg_kernelId st))
      else scan_stages reg sts (stageIds @ [sg_stageId st])
             (if sg_outputArtifactRef st \<noteq> [] then produced @ [sg_outputArtifactRef st] else produced))"

fun check_refs :: "dag_stage list \<Rightarrow> string list \<Rightarrow> string list \<Rightarrow> dag_error option" where
  "check_refs [] stageIds produced = None"
| "check_refs (st # sts) stageIds produced =
     (case find (\<lambda>dep. dep \<notin> set stageIds) (sg_dependencies st) of
        Some dep \<Rightarrow> Some (NonExistentDependency (sg_stageId st) dep)
      | None \<Rightarrow>
          (case find (\<lambda>a. a \<notin> set produced) (sg_inputArtifactRefs st) of
             Some a \<Rightarrow> Some (ArtifactNotProduced (sg_stageId st) a)
           | None \<Rightarrow> check_refs sts stageIds produced))"

definition stage_adj :: "dag_stage list \<Rightarrow> (string, string list) jsmap" where
  "stage_adj stages = fold (\<lambda>s adj. jset adj (sg_stageId s) (sg_dependencies s)) stages []"

text \<open>The loop over the roots; the search keeps \<open>visited\<close> across them.  The third case is a search
  out of fuel, which \<open>detect_from_fuel\<close> excludes.\<close>

fun detect_from ::
  "nat \<Rightarrow> (string \<Rightarrow> string list) \<Rightarrow> dag_stage list \<Rightarrow> string dfs \<Rightarrow> (dag_error option) option" where
  "detect_from n adj [] s = Some None"
| "detect_from n adj (st # sts) s =
     (if sg_stageId st \<notin> set (visited s) then
        (case dfs_node n adj (sg_stageId st) s of
           Some (True, _) \<Rightarrow> Some (Some (CyclicStages (sg_stageId st)))
         | Some (False, s') \<Rightarrow> detect_from n adj sts s'
         | None \<Rightarrow> None)
      else detect_from n adj sts s)"

definition detectCycles :: "dag_stage list \<Rightarrow> dag_error option" where
  "detectCycles stages =
     (let adj = stage_adj stages
      in case detect_from (Suc (length (graph_nodes adj))) (adj_of adj) stages dfs_start of
           Some e \<Rightarrow> e
         | None \<Rightarrow> None)"

definition validateDag :: "kernel_registry \<Rightarrow> workload_dag \<Rightarrow> dag_error option" where
  "validateDag reg dag =
     (if dd_dagId dag = [] then Some MissingDagId
      else if dd_stages dag = [] then Some NoStages
      else
        (case scan_stages reg (dd_stages dag) [] (map di_artifactId (dd_inputArtifacts dag)) of
           Inl e \<Rightarrow> Some e
         | Inr (stageIds, produced) \<Rightarrow>
             (case check_refs (dd_stages dag) stageIds produced of
                Some e \<Rightarrow> Some e
              | None \<Rightarrow>
                  (case detectCycles (dd_stages dag) of
                     Some e \<Rightarrow> Some e
                   | None \<Rightarrow> map_option OutputNotProduced
                       (find (\<lambda>a. a \<notin> set produced) (dd_outputArtifactRefs dag))))))"

subsection \<open>Progress\<close>

abbreviation count_status :: "dag_stage_status set \<Rightarrow> dag_state \<Rightarrow> nat" where
  "count_status S d \<equiv> length (filter (\<lambda>s. sg_status s \<in> S) (jvalues (ds_stages d)))"

definition progress_of :: "string \<Rightarrow> dag_state \<Rightarrow> dag_progress" where
  "progress_of dagId d =
     (let totalStages = length (jvalues (ds_stages d));
          completedStages = count_status {Dag_COMPLETED} d
      in \<lparr>dp_dagId = dagId, dp_totalStages = totalStages, dp_completedStages = completedStages,
          dp_runningStages = count_status {Dag_RUNNING} d,
          dp_pendingStages = count_status {Dag_PENDING, Dag_READY} d,
          dp_failedStages = count_status {Dag_FAILED} d,
          dp_percentComplete = (if totalStages > 0
             then to_fixed 1 (of_nat completedStages / of_nat totalStages * 100) else 100),
          dp_isCancelled = ds_isCancelled d,
          dp_isCompleted = (completedStages = totalStages)\<rparr>)"

definition getDagProgress :: "dag_engine \<Rightarrow> string \<Rightarrow> dag_progress option" where
  "getDagProgress en dagId = map_option (progress_of dagId) (jget (en_dags en) dagId)"

subsection \<open>Registration\<close>

definition input_artifact :: "(buffer \<Rightarrow> string) \<Rightarrow> ms \<Rightarrow> dag_input \<Rightarrow> dag_artifact" where
  "input_artifact sha now inp =
     (let buf = map_option to_buffer (truthy_payload (di_dataBuffer inp))
      in \<lparr>ar_artifactId = di_artifactId inp, ar_producingStageId = ''__INPUT__'',
          ar_sizeBytes = di_sizeBytes inp, ar_format = di_format inp,
          ar_checksumSha256 = map_option sha buf, ar_dataBuffer = buf, ar_referenceCount = 0,
          ar_isCleanedUp = False, ar_createdAtMs = now\<rparr>)"

definition count_ref :: "string \<Rightarrow> (string, dag_artifact) jsmap \<Rightarrow> (string, dag_artifact) jsmap" where
  "count_ref inputRef arts =
     (case jget arts inputRef of
        None \<Rightarrow> arts
      | Some art \<Rightarrow> jset arts inputRef (art\<lparr>ar_referenceCount := ar_referenceCount art + 1\<rparr>))"

definition initial_artifacts ::
  "(buffer \<Rightarrow> string) \<Rightarrow> ms \<Rightarrow> workload_dag \<Rightarrow> (string, dag_artifact) jsmap" where
  "initial_artifacts sha now dag =
     fold (\<lambda>st arts. fold count_ref (sg_inputArtifactRefs st) arts) (dd_stages dag)
       (fold (\<lambda>inp arts. jset arts (di_artifactId inp) (input_artifact sha now inp))
         (dd_inputArtifacts dag) [])"

definition initial_stage :: "dag_stage \<Rightarrow> dag_stage" where
  "initial_stage st = st\<lparr>sg_status := (if sg_dependencies st \<noteq> [] then Dag_PENDING else Dag_READY),
                         sg_attemptNumber := 0\<rparr>"

definition initial_stages :: "workload_dag \<Rightarrow> (string, dag_stage) jsmap" where
  "initial_stages dag =
     fold (\<lambda>st m. jset m (sg_stageId st) (initial_stage st)) (dd_stages dag) []"

definition initial_dag :: "(buffer \<Rightarrow> string) \<Rightarrow> ms \<Rightarrow> workload_dag \<Rightarrow> dag_state" where
  "initial_dag sha now dag =
     \<lparr>ds_descriptor = dag, ds_stages = initial_stages dag,
      ds_artifacts = initial_artifacts sha now dag, ds_isCancelled = False,
      ds_createdAtMs = now, ds_completedAtMs = None\<rparr>"

definition registerDag ::
  "(buffer \<Rightarrow> string) \<Rightarrow> dag_engine \<Rightarrow> ms \<Rightarrow> workload_dag \<Rightarrow> dag_error + (dag_engine \<times> dag_progress)" where
  "registerDag sha en now dag =
     (case validateDag (en_registry en) dag of
        Some e \<Rightarrow> Inl e
      | None \<Rightarrow>
          let d = initial_dag sha now dag
          in Inr (en\<lparr>en_dags := jset (en_dags en) (dd_dagId dag) d\<rparr>, progress_of (dd_dagId dag) d))"

subsection \<open>Driving a DAG\<close>

definition ready_stages :: "dag_state \<Rightarrow> dag_stage list" where
  "ready_stages d = filter (\<lambda>s. sg_status s = Dag_READY) (jvalues (ds_stages d))"

definition getNextReadyStages :: "dag_engine \<Rightarrow> string \<Rightarrow> dag_stage list" where
  "getNextReadyStages en dagId =
     (case jget (en_dags en) dagId of
        None \<Rightarrow> []
      | Some d \<Rightarrow> if ds_isCancelled d then [] else ready_stages d)"

definition assign_in :: "string \<Rightarrow> string \<Rightarrow> string \<Rightarrow> dag_state \<Rightarrow> dag_error + (dag_state \<times> dag_stage)" where
  "assign_in dagId stageId workerId d =
     (if ds_isCancelled d then Inl (DagCancelled dagId)
      else case jget (ds_stages d) stageId of
             None \<Rightarrow> Inl (StageNotFound stageId)
           | Some stage \<Rightarrow>
               if sg_status stage \<noteq> Dag_READY then Inl (StageNotReady (sg_status stage))
               else
                 (let stage' = stage\<lparr>sg_status := Dag_RUNNING, sg_assignedWorkerId := Some workerId,
                                     sg_attemptNumber := sg_attemptNumber stage + 1\<rparr>
                  in Inr (d\<lparr>ds_stages := jset (ds_stages d) stageId stage'\<rparr>, stage')))"

definition assignStage ::
  "dag_engine \<Rightarrow> string \<Rightarrow> string \<Rightarrow> string \<Rightarrow> dag_error + (dag_engine \<times> dag_stage)" where
  "assignStage en dagId stageId workerId =
     (case jget (en_dags en) dagId of
        None \<Rightarrow> Inl (DagNotFound dagId)
      | Some d \<Rightarrow>
          (case assign_in dagId stageId workerId d of
             Inl e \<Rightarrow> Inl e
           | Inr (d', stage) \<Rightarrow> Inr (en\<lparr>en_dags := jset (en_dags en) dagId d'\<rparr>, stage)))"

datatype complete_error =
    NoSuchDag string
  | NoSuchStage string
  | DuplicateResult string
  | StaleWorker string
  | StaleAttempt nat

datatype complete_reply = CompleteOk "dag_stage list" | CompleteRejected complete_error

definition consumer_count :: "dag_state \<Rightarrow> string \<Rightarrow> nat" where
  "consumer_count d a = length (filter (\<lambda>s. a \<in> set (sg_inputArtifactRefs s)) (jvalues (ds_stages d)))"

definition output_artifact ::
  "(buffer \<Rightarrow> string) \<Rightarrow> ms \<Rightarrow> dag_state \<Rightarrow> string \<Rightarrow> string \<Rightarrow> payload \<Rightarrow> dag_artifact" where
  "output_artifact sha now d out stageId outputBuffer =
     (let buf = to_buffer outputBuffer
      in \<lparr>ar_artifactId = out, ar_producingStageId = stageId,
          ar_sizeBytes = int (length buf), ar_format = ''RAW_BINARY'', ar_checksumSha256 = Some (sha buf),
          ar_dataBuffer = Some buf, ar_referenceCount = consumer_count d out, ar_isCleanedUp = False,
          ar_createdAtMs = now\<rparr>)"

text \<open>One consumed input: \<open>Math.max(0, n - 1)\<close> is subtraction on the naturals.\<close>

definition release_ref :: "string \<Rightarrow> (string, dag_artifact) jsmap \<Rightarrow> (string, dag_artifact) jsmap" where
  "release_ref inputRef arts =
     (case jget arts inputRef of
        None \<Rightarrow> arts
      | Some art \<Rightarrow>
          if ar_producingStageId art = ''__INPUT__'' then arts
          else
            (let art1 = art\<lparr>ar_referenceCount := ar_referenceCount art - 1\<rparr>
             in jset arts inputRef
                  (if ar_referenceCount art1 = 0
                   then art1\<lparr>ar_isCleanedUp := True, ar_dataBuffer := None\<rparr> else art1)))"

definition all_deps_completed :: "(string, dag_stage) jsmap \<Rightarrow> dag_stage \<Rightarrow> bool" where
  "all_deps_completed stages s =
     list_all (\<lambda>dep. case jget stages dep of None \<Rightarrow> False | Some p \<Rightarrow> sg_status p = Dag_COMPLETED)
       (sg_dependencies s)"

definition promotable :: "(string, dag_stage) jsmap \<Rightarrow> dag_stage \<Rightarrow> bool" where
  "promotable stages s \<longleftrightarrow> sg_status s = Dag_PENDING \<and> all_deps_completed stages s"

text \<open>The promotion loop only turns PENDING into READY, so what it reads of other stages does not change
  while it runs and it is one pass.\<close>

definition promote :: "(string, dag_stage) jsmap \<Rightarrow> (string, dag_stage) jsmap" where
  "promote stages =
     map (\<lambda>(i, s). (i, if promotable stages s then s\<lparr>sg_status := Dag_READY\<rparr> else s)) stages"

definition newly_ready :: "(string, dag_stage) jsmap \<Rightarrow> dag_stage list" where
  "newly_ready stages =
     map (\<lambda>s. s\<lparr>sg_status := Dag_READY\<rparr>) (filter (promotable stages) (jvalues stages))"

definition complete_in ::
  "(buffer \<Rightarrow> string) \<Rightarrow> ms \<Rightarrow> string \<Rightarrow> payload \<Rightarrow> string \<Rightarrow> nat \<Rightarrow> int \<Rightarrow> dag_state \<Rightarrow>
   dag_state \<times> complete_reply" where
  "complete_in sha now stageId outputBuffer workerId attemptNumber executionTimeMs d =
     (case jget (ds_stages d) stageId of
        None \<Rightarrow> (d, CompleteRejected (NoSuchStage stageId))
      | Some stage \<Rightarrow>
          if sg_status stage = Dag_COMPLETED then (d, CompleteRejected (DuplicateResult stageId))
          else if or_undef (sg_assignedWorkerId stage) \<noteq> None \<and> sg_assignedWorkerId stage \<noteq> Some workerId
          then (d, CompleteRejected (StaleWorker (the (sg_assignedWorkerId stage))))
          else if sg_attemptNumber stage \<noteq> attemptNumber
          then (d, CompleteRejected (StaleAttempt (sg_attemptNumber stage)))
          else
            (let out = sg_outputArtifactRef stage;
                 arts1 = jset (ds_artifacts d) out (output_artifact sha now d out stageId outputBuffer);
                 stages1 = jset (ds_stages d) stageId
                   (stage\<lparr>sg_status := Dag_COMPLETED, sg_executionTimeMs := Some executionTimeMs\<rparr>);
                 arts2 = fold release_ref (sg_inputArtifactRefs stage) arts1;
                 stages2 = promote stages1;
                 allCompleted = list_all (\<lambda>s. sg_status s = Dag_COMPLETED) (jvalues stages2)
             in (d\<lparr>ds_stages := stages2, ds_artifacts := arts2,
                   ds_completedAtMs := (if allCompleted then Some now else ds_completedAtMs d)\<rparr>,
                 CompleteOk (newly_ready stages1))))"

definition completeStage ::
  "(buffer \<Rightarrow> string) \<Rightarrow> dag_engine \<Rightarrow> ms \<Rightarrow> string \<Rightarrow> string \<Rightarrow> payload \<Rightarrow> string \<Rightarrow> nat \<Rightarrow> int \<Rightarrow>
   dag_engine \<times> complete_reply" where
  "completeStage sha en now dagId stageId outputBuffer workerId attemptNumber executionTimeMs =
     (case jget (en_dags en) dagId of
        None \<Rightarrow> (en, CompleteRejected (NoSuchDag dagId))
      | Some d \<Rightarrow>
          (case complete_in sha now stageId outputBuffer workerId attemptNumber executionTimeMs d of
             (d', r) \<Rightarrow> (en\<lparr>en_dags := jset (en_dags en) dagId d'\<rparr>, r)))"

definition fail_in :: "string \<Rightarrow> string \<Rightarrow> dag_state \<Rightarrow> dag_state \<times> dag_stage_status \<times> bool" where
  "fail_in stageId err d =
     (case jget (ds_stages d) stageId of
        None \<Rightarrow> (d, Dag_FAILED, False)
      | Some stage \<Rightarrow>
          if sg_status stage = Dag_COMPLETED then (d, Dag_FAILED, False)
          else if sg_attemptNumber stage < maxStageAttempts
          then (d\<lparr>ds_stages := jset (ds_stages d) stageId
                  (stage\<lparr>sg_error := Some err, sg_status := Dag_READY, sg_assignedWorkerId := None\<rparr>)\<rparr>,
                Dag_READY, True)
          else (d\<lparr>ds_stages := jset (ds_stages d) stageId
                  (stage\<lparr>sg_error := Some err, sg_status := Dag_FAILED\<rparr>)\<rparr>, Dag_FAILED, False))"

text \<open>The worker and attempt the caller names are not read by the source.\<close>

definition failStage ::
  "dag_engine \<Rightarrow> string \<Rightarrow> string \<Rightarrow> string \<Rightarrow> string \<Rightarrow> nat \<Rightarrow> dag_engine \<times> dag_stage_status \<times> bool" where
  "failStage en dagId stageId err workerId attemptNumber =
     (case jget (en_dags en) dagId of
        None \<Rightarrow> (en, Dag_FAILED, False)
      | Some d \<Rightarrow>
          (case fail_in stageId err d of
             (d', r) \<Rightarrow> (en\<lparr>en_dags := jset (en_dags en) dagId d'\<rparr>, r)))"

definition cancelled_stage :: "dag_stage \<Rightarrow> dag_stage" where
  "cancelled_stage s =
     (if sg_status s = Dag_PENDING \<or> sg_status s = Dag_READY \<or> sg_status s = Dag_RUNNING
      then s\<lparr>sg_status := Dag_CANCELLED\<rparr> else s)"

definition cancel_in :: "dag_state \<Rightarrow> dag_state" where
  "cancel_in d = d\<lparr>ds_isCancelled := True,
     ds_stages := map (\<lambda>(i, s). (i, cancelled_stage s)) (ds_stages d),
     ds_artifacts := map (\<lambda>(i, a). (i, a\<lparr>ar_isCleanedUp := True, ar_dataBuffer := None\<rparr>)) (ds_artifacts d)\<rparr>"

definition cancelDag :: "dag_engine \<Rightarrow> string \<Rightarrow> dag_engine \<times> bool" where
  "cancelDag en dagId =
     (case jget (en_dags en) dagId of
        None \<Rightarrow> (en, False)
      | Some d \<Rightarrow> (en\<lparr>en_dags := jset (en_dags en) dagId (cancel_in d)\<rparr>, True))"

definition getArtifact :: "dag_engine \<Rightarrow> string \<Rightarrow> string \<Rightarrow> dag_artifact option" where
  "getArtifact en dagId artifactId =
     (case jget (en_dags en) dagId of None \<Rightarrow> None | Some d \<Rightarrow> jget (ds_artifacts d) artifactId)"

definition getStage :: "dag_engine \<Rightarrow> string \<Rightarrow> string \<Rightarrow> dag_stage option" where
  "getStage en dagId stageId =
     (case jget (en_dags en) dagId of None \<Rightarrow> None | Some d \<Rightarrow> jget (ds_stages d) stageId)"

end
