(* ===== verification/Dag_Validation.thy ===== *)
theory Dag_Validation
  imports Dag_Engine
begin

text \<open>
  \<open>validateDag\<close> is exact: it accepts a descriptor if and only if it is a well-formed DAG
  (\<open>valid_dag\<close>), and for an accepted one the initial stage and artifact tables are those of its
  stages and inputs.
\<close>

subsection \<open>The passes of the validator\<close>

lemma scan_stages_iff:
  "scan_stages reg sts ids prd = Inr (ids', prd') \<longleftrightarrow>
     (\<forall>st\<in>set sts. sg_stageId st \<noteq> [] \<and> isCertified reg (sg_kernelId st)) \<and>
     distinct (map sg_stageId sts) \<and> set (map sg_stageId sts) \<inter> set ids = {} \<and>
     ids' = ids @ map sg_stageId sts \<and>
     prd' = prd @ filter (\<lambda>a. a \<noteq> []) (map sg_outputArtifactRef sts)"
proof (induction sts arbitrary: ids prd)
  case Nil
  then show ?case by auto
next
  case (Cons st sts)
  let ?out = "if sg_outputArtifactRef st \<noteq> [] then [sg_outputArtifactRef st] else []"
  show ?case
  proof (cases "sg_stageId st = [] \<or> sg_stageId st \<in> set ids \<or> \<not> isCertified reg (sg_kernelId st)")
    case True
    then show ?thesis by auto
  next
    case False
    then have step: "scan_stages reg (st # sts) ids prd =
        scan_stages reg sts (ids @ [sg_stageId st]) (prd @ ?out)" by simp
    show ?thesis unfolding step Cons.IH using False
      by (simp add: Int_insert_right conj_ac)
  qed
qed

lemma check_refs_iff:
  "check_refs sts ids prd = None \<longleftrightarrow>
     (\<forall>st\<in>set sts. set (sg_dependencies st) \<subseteq> set ids \<and> set (sg_inputArtifactRefs st) \<subseteq> set prd)"
proof (induction sts)
  case (Cons st sts)
  have "find (\<lambda>dep. dep \<notin> set ids) (sg_dependencies st) = None \<longleftrightarrow> set (sg_dependencies st) \<subseteq> set ids"
    and "find (\<lambda>a. a \<notin> set prd) (sg_inputArtifactRefs st) = None \<longleftrightarrow>
      set (sg_inputArtifactRefs st) \<subseteq> set prd"
    by (auto simp: find_None_iff)
  with Cons show ?case by (auto split: option.splits)
qed simp

definition stage_edges :: "dag_stage list \<Rightarrow> (string \<times> string) set" where
  "stage_edges sts = {(u, v). \<exists>s\<in>set sts. sg_stageId s = u \<and> v \<in> set (sg_dependencies s)}"

lemma stage_adj_edges:
  assumes "distinct (map sg_stageId sts)"
  shows "edges (adj_of (stage_adj sts)) = stage_edges sts"
proof -
  have "v \<in> set (adj_of (stage_adj sts) u) \<longleftrightarrow> (u, v) \<in> stage_edges sts" for u v
  proof -
    have "jget (stage_adj sts) u = Some ps \<longleftrightarrow> (\<exists>s\<in>set sts. sg_stageId s = u \<and> sg_dependencies s = ps)"
      for ps unfolding stage_adj_def by (rule fold_jset_iff [OF assms])
    then show ?thesis by (auto simp: adj_of_iff stage_edges_def)
  qed
  then show ?thesis by (auto simp: edges_def)
qed

subsection \<open>Cycle detection over all roots\<close>

text \<open>
  With enough fuel the loop decides whether some root reaches a cycle.  After a clean root the
  visited set is closed and cycle-free (\<open>dfs_inv\<close>), so a root already visited needs no search.
\<close>

lemma detect_from_correct:
  assumes "dfs_inv (adj_of m) s" and "stack s = []"
  shows "\<exists>e. detect_from (Suc (length (graph_nodes m))) (adj_of m) sts s = Some e \<and>
    (e = None \<longleftrightarrow> (\<forall>st\<in>set sts. \<not> reaches_cycle (adj_of m) (sg_stageId st)))"
  using assms
proof (induction sts arbitrary: s)
  case (Cons st sts)
  let ?n = "Suc (length (graph_nodes m))"
  show ?case
  proof (cases "sg_stageId st \<in> set (visited s)")
    case True
    then have fin: "sg_stageId st \<in> finished s" using Cons.prems by (simp add: finished_def)
    then have "\<not> reaches_cycle (adj_of m) (sg_stageId st)"
      using finished_closed [OF Cons.prems(1) fin] Cons.prems(1)
      by (auto simp: reaches_cycle_def dfs_inv_def)
    then show ?thesis using Cons True by simp
  next
    case False
    then obtain b s' where r: "dfs_node ?n (adj_of m) (sg_stageId st) s = Some (b, s')"
      using dfs_fuel [of "sg_stageId st" s m] by auto
    have b: "b \<longleftrightarrow> reaches_cycle (adj_of m) (sg_stageId st)"
      by (rule dfs_node_correct [OF r Cons.prems(2,1) False])
    show ?thesis
    proof (cases b)
      case True
      then show ?thesis using b False r by (simp del: dfs_node.simps)
    next
      case nb: False
      then have "dfs_inv (adj_of m) s'" "stack s' = []"
        using dfs_False(1) [OF r] Cons.prems False by simp_all
      from Cons.IH [OF this] show ?thesis using b nb False r by (simp del: dfs_node.simps)
    qed
  qed
qed simp

lemma acyclic_roots:
  assumes "\<And>u v. (u, v) \<in> edges adj \<Longrightarrow> u \<in> R"
  shows "(\<forall>r\<in>R. \<not> reaches_cycle adj r) \<longleftrightarrow> acyclic (edges adj)"
proof
  assume clean: "\<forall>r\<in>R. \<not> reaches_cycle adj r"
  show "acyclic (edges adj)"
  proof (rule acyclicI, rule allI, rule notI)
    fix u assume "(u, u) \<in> (edges adj)\<^sup>+"
    moreover from this have "u \<in> R" using assms by (auto dest!: tranclD)
    ultimately show False using clean by (auto simp: reaches_cycle_def on_cycle_def)
  qed
qed (auto simp: reaches_cycle_def on_cycle_def acyclic_def)

lemma detectCycles_iff:
  assumes "distinct (map sg_stageId sts)"
  shows "detectCycles sts = None \<longleftrightarrow> acyclic (stage_edges sts)"
proof -
  let ?m = "stage_adj sts"
  have src: "u \<in> set (map sg_stageId sts)" if "(u, v) \<in> edges (adj_of ?m)" for u v
    using that unfolding stage_adj_edges [OF assms] by (auto simp: stage_edges_def)
  obtain e where e: "detect_from (Suc (length (graph_nodes ?m))) (adj_of ?m) sts dfs_start = Some e"
    "e = None \<longleftrightarrow> (\<forall>st\<in>set sts. \<not> reaches_cycle (adj_of ?m) (sg_stageId st))"
    using detect_from_correct [of ?m dfs_start sts] by auto
  have "detectCycles sts = e"
    using e(1) by (simp add: detectCycles_def Let_def)
  also have "e = None \<longleftrightarrow> (\<forall>r\<in>set (map sg_stageId sts). \<not> reaches_cycle (adj_of ?m) r)"
    using e(2) by simp
  also have "\<dots> \<longleftrightarrow> acyclic (edges (adj_of ?m))"
    by (rule acyclic_roots) (rule src)
  finally show ?thesis unfolding stage_adj_edges [OF assms] .
qed

subsection \<open>The validator as a whole\<close>

definition produced_artifacts :: "workload_dag \<Rightarrow> string set" where
  "produced_artifacts dag = set (map di_artifactId (dd_inputArtifacts dag)) \<union>
     (set (map sg_outputArtifactRef (dd_stages dag)) - {[]})"

definition valid_dag :: "kernel_registry \<Rightarrow> workload_dag \<Rightarrow> bool" where
  "valid_dag reg dag \<longleftrightarrow> dd_dagId dag \<noteq> [] \<and> dd_stages dag \<noteq> [] \<and>
     distinct (map sg_stageId (dd_stages dag)) \<and>
     (\<forall>s\<in>set (dd_stages dag). sg_stageId s \<noteq> [] \<and> isCertified reg (sg_kernelId s) \<and>
        set (sg_dependencies s) \<subseteq> set (map sg_stageId (dd_stages dag)) \<and>
        set (sg_inputArtifactRefs s) \<subseteq> produced_artifacts dag) \<and>
     acyclic (stage_edges (dd_stages dag)) \<and>
     set (dd_outputArtifactRefs dag) \<subseteq> produced_artifacts dag"

lemma validateDag_iff: "validateDag reg dag = None \<longleftrightarrow> valid_dag reg dag"
proof (cases "scan_stages reg (dd_stages dag) [] (map di_artifactId (dd_inputArtifacts dag))")
  case (Inl e)
  then have "\<not> ((\<forall>s\<in>set (dd_stages dag). sg_stageId s \<noteq> [] \<and> isCertified reg (sg_kernelId s)) \<and>
      distinct (map sg_stageId (dd_stages dag)))"
    using scan_stages_iff [of reg "dd_stages dag" "[]" "map di_artifactId (dd_inputArtifacts dag)"]
    by auto
  then show ?thesis by (auto simp: validateDag_def valid_dag_def Inl)
next
  case (Inr p)
  obtain ids prd where p: "p = (ids, prd)" by (cases p)
  note scan = Inr [unfolded p scan_stages_iff]
  have prd: "set prd = produced_artifacts dag"
    using scan by (auto simp: produced_artifacts_def)
  have refs: "check_refs (dd_stages dag) ids prd = None \<longleftrightarrow> (\<forall>s\<in>set (dd_stages dag).
      set (sg_dependencies s) \<subseteq> set (map sg_stageId (dd_stages dag)) \<and>
      set (sg_inputArtifactRefs s) \<subseteq> produced_artifacts dag)"
    unfolding check_refs_iff prd using scan by simp
  have cyc: "detectCycles (dd_stages dag) = None \<longleftrightarrow> acyclic (stage_edges (dd_stages dag))"
    using scan by (intro detectCycles_iff) simp
  have outs: "find (\<lambda>a. a \<notin> set prd) (dd_outputArtifactRefs dag) = None \<longleftrightarrow>
      set (dd_outputArtifactRefs dag) \<subseteq> produced_artifacts dag"
    unfolding prd by (auto simp: find_None_iff)
  have sc: "\<forall>s\<in>set (dd_stages dag). sg_stageId s \<noteq> [] \<and> isCertified reg (sg_kernelId s)"
    "distinct (map sg_stageId (dd_stages dag))" using scan by blast+
  have "validateDag reg dag = None \<longleftrightarrow> dd_dagId dag \<noteq> [] \<and> dd_stages dag \<noteq> [] \<and>
     check_refs (dd_stages dag) ids prd = None \<and> detectCycles (dd_stages dag) = None \<and>
     find (\<lambda>a. a \<notin> set prd) (dd_outputArtifactRefs dag) = None"
    by (simp add: validateDag_def Inr p split: option.splits)
  also have "\<dots> \<longleftrightarrow> valid_dag reg dag"
    unfolding refs cyc outs valid_dag_def using sc by blast
  finally show ?thesis .
qed

subsection \<open>The initial tables\<close>

lemma initial_stages_list:
  assumes "valid_dag reg dag"
  shows "initial_stages dag = map (\<lambda>s. (sg_stageId s, initial_stage s)) (dd_stages dag)"
  using assms fold_jset_fresh [of sg_stageId "dd_stages dag" "[]" initial_stage]
  by (simp add: initial_stages_def valid_dag_def)

end
