(* ===== verification/Dag_Props.thy ===== *)
theory Dag_Props
  imports Dag_Validation
begin

text \<open>
  The life of a registered DAG: every operation moves each stage by a \<open>stage_step\<close>, from which the
  order of execution, the attempt bound and the absence of deadlock follow; the reference counts keep
  an intermediate artifact exactly as long as some consumer still needs it.
\<close>

subsection \<open>Runs\<close>

datatype dag_op =
    DAssign string string
  | DComplete string payload string nat int
  | DFail string string
  | DCancel

fun dag_exec :: "(buffer \<Rightarrow> string) \<Rightarrow> ms \<Rightarrow> dag_op \<Rightarrow> dag_state \<Rightarrow> dag_state" where
  "dag_exec sha now (DAssign i w) d = (case assign_in [] i w d of Inl _ \<Rightarrow> d | Inr (d', _) \<Rightarrow> d')"
| "dag_exec sha now (DComplete i out w n t) d = fst (complete_in sha now i out w n t d)"
| "dag_exec sha now (DFail i e) d = fst (fail_in i e d)"
| "dag_exec sha now DCancel d = cancel_in d"

text \<open>Reports come from workers that were assigned the stage: a result names an attempt (counted from
  1), and a failure is reported on a stage that was attempted.\<close>

fun dag_legal :: "dag_state \<Rightarrow> dag_op \<Rightarrow> bool" where
  "dag_legal d (DComplete i out w n t) \<longleftrightarrow> 1 \<le> n"
| "dag_legal d (DFail i e) \<longleftrightarrow>
     (case jget (ds_stages d) i of None \<Rightarrow> True | Some s \<Rightarrow> 1 \<le> sg_attemptNumber s)"
| "dag_legal d _ \<longleftrightarrow> True"

inductive dag_reach :: "(buffer \<Rightarrow> string) \<Rightarrow> workload_dag \<Rightarrow> dag_state \<Rightarrow> bool" for sha dag where
  init: "dag_reach sha dag (initial_dag sha now dag)"
| step: "dag_reach sha dag d \<Longrightarrow> dag_legal d op \<Longrightarrow> dag_reach sha dag (dag_exec sha now op d)"

subsection \<open>What an operation may do to a stage\<close>

definition completed :: "(string, dag_stage) jsmap \<Rightarrow> string \<Rightarrow> bool" where
  "completed st i \<longleftrightarrow> (\<exists>s. jget st i = Some s \<and> sg_status s = Dag_COMPLETED)"

lemma completed_jset [simp]:
  "completed (jset st i s) j \<longleftrightarrow> (if j = i then sg_status s = Dag_COMPLETED else completed st j)"
  by (simp add: completed_def js_simps)

lemma completed_get: "jget st i = Some s \<Longrightarrow> completed st i \<longleftrightarrow> sg_status s = Dag_COMPLETED"
  by (simp add: completed_def)

inductive stage_step :: "(string \<Rightarrow> bool) \<Rightarrow> dag_stage \<Rightarrow> dag_stage \<Rightarrow> bool" for C where
  keep: "stage_step C s s"
| assign: "sg_status s = Dag_READY \<Longrightarrow> stage_step C s
     (s\<lparr>sg_status := Dag_RUNNING, sg_assignedWorkerId := Some w, sg_attemptNumber := sg_attemptNumber s + 1\<rparr>)"
| complete: "sg_status s \<noteq> Dag_COMPLETED \<Longrightarrow> 1 \<le> sg_attemptNumber s \<Longrightarrow> stage_step C s
     (s\<lparr>sg_status := Dag_COMPLETED, sg_executionTimeMs := t\<rparr>)"
| promote: "sg_status s = Dag_PENDING \<Longrightarrow> \<forall>dep\<in>set (sg_dependencies s). C dep \<Longrightarrow>
     stage_step C s (s\<lparr>sg_status := Dag_READY\<rparr>)"
| retry: "sg_status s \<noteq> Dag_COMPLETED \<Longrightarrow> 1 \<le> sg_attemptNumber s \<Longrightarrow>
     sg_attemptNumber s < maxStageAttempts \<Longrightarrow> stage_step C s
     (s\<lparr>sg_error := e, sg_status := Dag_READY, sg_assignedWorkerId := None\<rparr>)"
| exhaust: "sg_status s \<noteq> Dag_COMPLETED \<Longrightarrow> maxStageAttempts \<le> sg_attemptNumber s \<Longrightarrow> stage_step C s
     (s\<lparr>sg_error := e, sg_status := Dag_FAILED\<rparr>)"
| cancel: "sg_status s \<noteq> Dag_COMPLETED \<Longrightarrow> stage_step C s (s\<lparr>sg_status := Dag_CANCELLED\<rparr>)"

inductive_cases stage_stepE: "stage_step C s s'"

lemma stage_step_frame:
  "stage_step C s s' \<Longrightarrow> sg_stageId s' = sg_stageId s \<and> sg_dependencies s' = sg_dependencies s \<and>
     sg_inputArtifactRefs s' = sg_inputArtifactRefs s \<and> sg_outputArtifactRef s' = sg_outputArtifactRef s"
  by (erule stage_stepE) auto

lemma stage_step_completed: "stage_step C s s' \<Longrightarrow> sg_status s = Dag_COMPLETED \<Longrightarrow> s' = s"
  by (erule stage_stepE) auto

text \<open>A move of the whole table: the keys stay, each stage moves.\<close>

definition stages_step :: "(string, dag_stage) jsmap \<Rightarrow> (string, dag_stage) jsmap \<Rightarrow> bool" where
  "stages_step st st' \<longleftrightarrow> map fst st' = map fst st \<and>
     (\<forall>i. rel_option (stage_step (completed st')) (jget st i) (jget st' i))"

lemma stages_step_refl: "stages_step st st"
  by (auto simp: stages_step_def option.rel_refl stage_step.keep)

lemma jget_map_values: "jget (map (\<lambda>(i, s). (i, f s)) m) i = map_option f (jget m i)"
  by (induction m) auto

lemma keys_map_values [simp]: "map fst (map (\<lambda>(i, s). (i, f s)) m) = map fst m"
  by (induction m) auto

lemma keys_jset: "jget m k = Some v \<Longrightarrow> map fst (jset m k v') = map fst m"
proof -
  assume "jget m k = Some v"
  then have "k \<in> set (map fst m)" by (simp only: jhas_jget) simp
  then show ?thesis by (simp only: update_keys if_True)
qed

lemma stages_step_jset:
  assumes "jget st i = Some s" and "stage_step (completed (jset st i s')) s s'"
  shows "stages_step st (jset st i s')"
  using assms
  by (auto simp: stages_step_def keys_jset js_simps option.rel_refl stage_step.keep)

lemma promotable_jget [simp]:
  "promotable st s \<longleftrightarrow> sg_status s = Dag_PENDING \<and> (\<forall>dep\<in>set (sg_dependencies s). completed st dep)"
  by (auto simp: promotable_def all_deps_completed_def list_all_iff completed_def split: option.splits)

lemma promote_get: "jget (promote st) i =
    map_option (\<lambda>s. if promotable st s then s\<lparr>sg_status := Dag_READY\<rparr> else s) (jget st i)"
  unfolding promote_def by (rule jget_map_values)

lemma promote_completed [simp]: "completed (promote st) i \<longleftrightarrow> completed st i"
  by (cases "jget st i") (auto simp: promote_get completed_def)

lemma promote_keys [simp]: "map fst (promote st) = map fst st"
  unfolding promote_def by (rule keys_map_values)

text \<open>The completion of one stage followed by the promotions it enables.\<close>

lemma stages_step_complete:
  assumes "jget st i = Some s" and "sg_status s \<noteq> Dag_COMPLETED" and "1 \<le> sg_attemptNumber s"
  shows "stages_step st (promote (jset st i (s\<lparr>sg_status := Dag_COMPLETED, sg_executionTimeMs := t\<rparr>)))"
proof -
  let ?s = "s\<lparr>sg_status := Dag_COMPLETED, sg_executionTimeMs := t\<rparr>"
  let ?st = "jset st i ?s"
  have step: "rel_option (stage_step (completed (promote ?st))) (jget st j) (jget (promote ?st) j)" for j
  proof (cases "j = i")
    case True
    then show ?thesis using assms by (simp add: promote_get js_simps stage_step.complete)
  next
    case False
    then show ?thesis
      by (cases "jget st j") (auto simp: promote_get js_simps intro: stage_step.keep stage_step.promote)
  qed
  then show ?thesis using assms(1) by (simp add: stages_step_def keys_jset)
qed

lemma stages_step_cancel: "stages_step st (map (\<lambda>(i, s). (i, cancelled_stage s)) st)"
proof -
  have "rel_option (stage_step C) x (map_option cancelled_stage x)" for C and x :: "dag_stage option"
    by (cases x) (auto simp: cancelled_stage_def intro: stage_step.keep stage_step.cancel)
  then show ?thesis unfolding stages_step_def jget_map_values keys_map_values by blast
qed

lemma complete_in_cases:
  obtains (rejected) e where "complete_in sha now i out w n t d = (d, CompleteRejected e)"
  | (ok) s where "jget (ds_stages d) i = Some s" "sg_status s \<noteq> Dag_COMPLETED" "sg_attemptNumber s = n"
      "or_undef (sg_assignedWorkerId s) = None \<or> sg_assignedWorkerId s = Some w"
      "complete_in sha now i out w n t d =
        (let a = sg_outputArtifactRef s;
             st = jset (ds_stages d) i (s\<lparr>sg_status := Dag_COMPLETED, sg_executionTimeMs := Some t\<rparr>)
         in (d\<lparr>ds_stages := promote st,
               ds_artifacts := fold release_ref (sg_inputArtifactRefs s)
                 (jset (ds_artifacts d) a (output_artifact sha now d a i out)),
               ds_completedAtMs := (if list_all (\<lambda>s. sg_status s = Dag_COMPLETED) (jvalues (promote st))
                 then Some now else ds_completedAtMs d)\<rparr>, CompleteOk (newly_ready st)))"
proof (cases "jget (ds_stages d) i")
  case None
  then show thesis using that(1) by (simp add: complete_in_def)
next
  case (Some s)
  show thesis
  proof (cases "sg_status s \<noteq> Dag_COMPLETED \<and> sg_attemptNumber s = n \<and>
      (or_undef (sg_assignedWorkerId s) = None \<or> sg_assignedWorkerId s = Some w)")
    case True
    then show thesis using that(2) [OF Some] Some by (auto simp: complete_in_def Let_def)
  next
    case False
    then have "\<exists>e. complete_in sha now i out w n t d = (d, CompleteRejected e)"
      by (auto simp: complete_in_def Some)
    then show thesis using that(1) by blast
  qed
qed

lemma exec_step:
  assumes "dag_legal d op"
  shows "stages_step (ds_stages d) (ds_stages (dag_exec sha now op d))"
proof (cases op)
  case (DAssign i w)
  then show ?thesis
    by (auto simp: assign_in_def Let_def split: option.splits
        intro: stages_step_refl stages_step_jset stage_step.assign [simplified])
next
  case (DComplete i out w n t)
  show ?thesis
  proof (cases rule: complete_in_cases [of sha now i out w n t d])
    case (rejected e)
    then show ?thesis by (simp add: DComplete stages_step_refl)
  next
    case (ok s)
    then show ?thesis using assms stages_step_complete [of "ds_stages d" i s]
      by (simp add: DComplete Let_def)
  qed
next
  case (DFail i e)
  show ?thesis
  proof (cases "jget (ds_stages d) i")
    case None
    then show ?thesis by (simp add: DFail fail_in_def stages_step_refl)
  next
    case (Some s)
    then show ?thesis using assms stages_step_jset [OF Some stage_step.retry]
        stages_step_jset [OF Some stage_step.exhaust]
      by (simp add: DFail fail_in_def stages_step_refl)
  qed
next
  case DCancel
  then show ?thesis by (simp add: cancel_in_def stages_step_cancel)
qed

lemma exec_descriptor [simp]: "ds_descriptor (dag_exec sha now op d) = ds_descriptor d"
  by (cases op) (auto simp: assign_in_def complete_in_def fail_in_def cancel_in_def Let_def
      split: option.splits sum.splits)

subsection \<open>The invariant of the stage table\<close>

text \<open>The fixed part: the table holds the stages of the descriptor under their ids.\<close>

definition stage_of :: "workload_dag \<Rightarrow> string \<Rightarrow> dag_stage \<Rightarrow> bool" where
  "stage_of dag i s \<longleftrightarrow> (\<exists>s0\<in>set (dd_stages dag). sg_stageId s0 = i \<and> sg_stageId s = i \<and>
     sg_dependencies s = sg_dependencies s0 \<and> sg_inputArtifactRefs s = sg_inputArtifactRefs s0 \<and>
     sg_outputArtifactRef s = sg_outputArtifactRef s0)"

definition frame_inv :: "workload_dag \<Rightarrow> (string, dag_stage) jsmap \<Rightarrow> bool" where
  "frame_inv dag st \<longleftrightarrow> map fst st = map sg_stageId (dd_stages dag) \<and>
     (\<forall>i s. jget st i = Some s \<longrightarrow> stage_of dag i s)"

definition started :: "dag_stage \<Rightarrow> bool" where
  "started s \<longleftrightarrow> sg_status s \<in> {Dag_READY, Dag_RUNNING, Dag_COMPLETED} \<or> 1 \<le> sg_attemptNumber s"

definition order_inv :: "(string, dag_stage) jsmap \<Rightarrow> bool" where
  "order_inv st \<longleftrightarrow> (\<forall>i s. jget st i = Some s \<longrightarrow> started s \<longrightarrow>
     (\<forall>dep\<in>set (sg_dependencies s). completed st dep))"

definition attempts_ok :: "dag_stage \<Rightarrow> bool" where
  "attempts_ok s \<longleftrightarrow> sg_attemptNumber s \<le> maxStageAttempts \<and>
     (sg_status s = Dag_READY \<longrightarrow> sg_attemptNumber s < maxStageAttempts) \<and>
     (sg_status s = Dag_PENDING \<longrightarrow> sg_attemptNumber s = 0) \<and>
     (sg_status s = Dag_RUNNING \<longrightarrow> 1 \<le> sg_attemptNumber s \<and> sg_assignedWorkerId s \<noteq> None)"

text \<open>While the DAG runs, a waiting stage waits for something, and no stage is cancelled.\<close>

definition settled :: "dag_state \<Rightarrow> bool" where
  "settled d \<longleftrightarrow> (\<not> ds_isCancelled d \<longrightarrow> (\<forall>i s. jget (ds_stages d) i = Some s \<longrightarrow>
     sg_status s \<noteq> Dag_CANCELLED \<and>
     (sg_status s = Dag_PENDING \<longrightarrow> (\<exists>dep\<in>set (sg_dependencies s). \<not> completed (ds_stages d) dep))))"

lemma stages_stepD:
  assumes "stages_step st st'" and "jget st' i = Some s'"
  obtains s where "jget st i = Some s" "stage_step (completed st') s s'"
  using assms by (auto simp: stages_step_def rel_option_iff split: option.splits) (metis option.rel_cases option.sel option.distinct(1))

lemma stages_step_get:
  assumes "stages_step st st'" and "jget st i = Some s"
  obtains s' where "jget st' i = Some s'" "stage_step (completed st') s s'"
  using assms unfolding stages_step_def by (metis option.rel_cases option.sel option.distinct(1))

lemma completed_mono: "stages_step st st' \<Longrightarrow> completed st i \<Longrightarrow> completed st' i"
  by (metis completed_def stage_step_completed stages_step_get)

lemma frame_step:
  assumes "stages_step st st'" and "frame_inv dag st"
  shows "frame_inv dag st'"
proof -
  have "stage_of dag i s'" if got: "jget st' i = Some s'" for i s'
  proof -
    obtain s where "jget st i = Some s" and "stage_step (completed st') s s'"
      using stages_stepD [OF assms(1) got] .
    then show ?thesis using assms(2) stage_step_frame [of "completed st'" s s']
      by (auto simp: frame_inv_def stage_of_def)
  qed
  then show ?thesis using assms by (simp add: frame_inv_def stages_step_def)
qed

lemma order_step:
  assumes step: "stages_step st st'" and inv: "order_inv st"
  shows "order_inv st'"
  unfolding order_inv_def
proof (intro allI impI ballI)
  fix i s' dep assume s': "jget st' i = Some s'" "started s'" "dep \<in> set (sg_dependencies s')"
  then obtain s where s: "jget st i = Some s" and one: "stage_step (completed st') s s'"
    using stages_stepD [OF step] by blast
  have old: "completed st' dep" if "started s"
    using inv s that s'(3) stage_step_frame [OF one] completed_mono [OF step]
    by (auto simp: order_inv_def)
  from one show "completed st' dep"
    using old s'(2,3) by (cases rule: stage_step.cases) (auto simp: started_def)
qed

lemma attempts_step:
  "stage_step C s s' \<Longrightarrow> attempts_ok s \<Longrightarrow> attempts_ok s'"
  by (erule stage_stepE) (auto simp: attempts_ok_def maxStageAttempts_def)

lemma settled_jset:
  assumes "settled d" and "jget (ds_stages d) i = Some s" and "sg_status s \<noteq> Dag_COMPLETED"
    and "sg_status s' \<notin> {Dag_COMPLETED, Dag_PENDING, Dag_CANCELLED}"
  shows "settled (d\<lparr>ds_stages := jset (ds_stages d) i s'\<rparr>)"
proof -
  have "completed (jset (ds_stages d) i s') j \<longleftrightarrow> completed (ds_stages d) j" for j
    using assms(2-4) completed_get [OF assms(2)] by (cases "j = i") simp_all
  then show ?thesis using assms(1,4) by (auto simp: settled_def js_simps)
qed

lemma settled_promote:
  assumes "\<And>j s. jget st j = Some s \<Longrightarrow> sg_status s \<noteq> Dag_CANCELLED" and "jget (promote st) j = Some s'"
  shows "sg_status s' \<noteq> Dag_CANCELLED \<and> (sg_status s' = Dag_PENDING \<longrightarrow>
    (\<exists>dep\<in>set (sg_dependencies s'). \<not> completed (promote st) dep))"
proof -
  obtain s where s: "jget st j = Some s" "s' = (if promotable st s then s\<lparr>sg_status := Dag_READY\<rparr> else s)"
    using assms(2) by (auto simp: promote_get simp del: promotable_jget)
  then show ?thesis using assms(1) [OF s(1)] by (cases "promotable st s") auto
qed

lemma settled_exec:
  assumes "settled d"
  shows "settled (dag_exec sha now op d)"
proof (cases op)
  case (DAssign i w)
  then show ?thesis using assms
    by (auto simp: assign_in_def Let_def split: option.splits intro!: settled_jset)
next
  case (DFail i e)
  then show ?thesis using assms
    by (auto simp: fail_in_def split: option.splits intro!: settled_jset)
next
  case DCancel
  then show ?thesis by (simp add: settled_def cancel_in_def)
next
  case (DComplete i out w n t)
  show ?thesis
  proof (cases rule: complete_in_cases [of sha now i out w n t d])
    case (rejected e)
    then show ?thesis using assms by (simp add: DComplete)
  next
    case (ok s)
    let ?s = "s\<lparr>sg_status := Dag_COMPLETED, sg_executionTimeMs := Some t\<rparr>"
    have "sg_status s' \<noteq> Dag_CANCELLED"
      if "\<not> ds_isCancelled d" and "jget (jset (ds_stages d) i ?s) j = Some s'" for j s'
      using assms that by (auto simp: settled_def js_simps split: if_splits)
    then show ?thesis
      using settled_promote [of "jset (ds_stages d) i ?s"] ok(5)
      unfolding DComplete settled_def dag_exec.simps Let_def by simp
  qed
qed

lemma initial_stage_sel [simp]:
  "sg_stageId (initial_stage s) = sg_stageId s" "sg_dependencies (initial_stage s) = sg_dependencies s"
  "sg_inputArtifactRefs (initial_stage s) = sg_inputArtifactRefs s"
  "sg_outputArtifactRef (initial_stage s) = sg_outputArtifactRef s"
  "sg_status (initial_stage s) = (if sg_dependencies s \<noteq> [] then Dag_PENDING else Dag_READY)"
  "sg_attemptNumber (initial_stage s) = 0"
  by (simp_all add: initial_stage_def)

lemma initial_get:
  assumes "valid_dag reg dag"
  shows "jget (initial_stages dag) i = Some s \<longleftrightarrow>
    (\<exists>s0\<in>set (dd_stages dag). sg_stageId s0 = i \<and> initial_stage s0 = s)"
  using assms fold_jset_iff [of sg_stageId "dd_stages dag" initial_stage i s]
  by (simp add: initial_stages_def valid_dag_def)

definition dag_inv :: "workload_dag \<Rightarrow> dag_state \<Rightarrow> bool" where
  "dag_inv dag d \<longleftrightarrow> frame_inv dag (ds_stages d) \<and> order_inv (ds_stages d) \<and> settled d \<and>
     (\<forall>i s. jget (ds_stages d) i = Some s \<longrightarrow> attempts_ok s)"

lemma initial_inv:
  assumes "valid_dag reg dag"
  shows "dag_inv dag (initial_dag sha now dag)"
proof -
  note get = initial_get [OF assms]
  have keys: "map fst (initial_stages dag) = map sg_stageId (dd_stages dag)"
    by (simp add: initial_stages_list [OF assms])
  have none: "\<not> completed (initial_stages dag) i" for i
    by (auto simp: completed_def get split: if_splits)
  show ?thesis unfolding dag_inv_def initial_dag_def dag_state.simps
  proof (intro conjI allI impI)
    show "frame_inv dag (initial_stages dag)"
      using keys by (auto simp: frame_inv_def get stage_of_def)
    show "order_inv (initial_stages dag)"
      by (auto simp: order_inv_def get started_def split: if_splits)
    show "settled \<lparr>ds_descriptor = dag, ds_stages = initial_stages dag,
        ds_artifacts = initial_artifacts sha now dag, ds_isCancelled = False,
        ds_createdAtMs = now, ds_completedAtMs = None\<rparr>"
      using none by (auto simp: settled_def get neq_Nil_conv split: if_splits)
    show "attempts_ok s" if "jget (initial_stages dag) i = Some s" for i s
      using that by (auto simp: get attempts_ok_def maxStageAttempts_def split: if_splits)
  qed
qed

lemma exec_inv:
  assumes "dag_legal d op" and "dag_inv dag d"
  shows "dag_inv dag (dag_exec sha now op d)"
proof -
  note step = exec_step [OF assms(1), of sha now]
  have "attempts_ok s'" if "jget (ds_stages (dag_exec sha now op d)) i = Some s'" for i s'
    using stages_stepD [OF step that] attempts_step assms(2) by (metis dag_inv_def)
  then show ?thesis
    using assms(2) frame_step [OF step] order_step [OF step] settled_exec by (simp add: dag_inv_def)
qed

lemma reach_inv: "dag_reach sha dag d \<Longrightarrow> valid_dag reg dag \<Longrightarrow> dag_inv dag d"
  by (induction rule: dag_reach.induct) (auto intro: initial_inv exec_inv)

lemma inv_keys_distinct:
  "dag_inv dag d \<Longrightarrow> valid_dag reg dag \<Longrightarrow> jmap_ok (ds_stages d)"
  by (simp add: dag_inv_def frame_inv_def valid_dag_def)

lemma inv_stage_of: "dag_inv dag d \<Longrightarrow> jget (ds_stages d) i = Some s \<Longrightarrow> stage_of dag i s"
  by (simp add: dag_inv_def frame_inv_def)

lemma inv_get:
  assumes "dag_inv dag d" and "s0 \<in> set (dd_stages dag)"
  shows "\<exists>s. jget (ds_stages d) (sg_stageId s0) = Some s"
proof -
  have "sg_stageId s0 \<in> set (map fst (ds_stages d))"
    using assms by (simp add: dag_inv_def frame_inv_def)
  then show ?thesis by (simp only: jhas_jget) simp
qed

subsection \<open>No deadlock\<close>

lemma valid_dep:
  assumes "valid_dag reg dag" and "s \<in> set (dd_stages dag)" and "dep \<in> set (sg_dependencies s)"
  shows "\<exists>x\<in>set (dd_stages dag). sg_stageId x = dep"
proof -
  have "set (sg_dependencies s) \<subseteq> set (map sg_stageId (dd_stages dag))"
    using assms(1,2) unfolding valid_dag_def by blast
  then show ?thesis using assms(3) by auto
qed

text \<open>Among the stages that are not completed, one has all of its dependencies completed.\<close>

lemma frontier:
  assumes valid: "valid_dag reg dag" and inv: "dag_inv dag d"
    and s: "jget (ds_stages d) i = Some s" "sg_status s \<noteq> Dag_COMPLETED"
  shows "\<exists>j t. jget (ds_stages d) j = Some t \<and> sg_status t \<noteq> Dag_COMPLETED \<and>
    (\<forall>dep\<in>set (sg_dependencies t). completed (ds_stages d) dep)"
proof -
  let ?E = "stage_edges (dd_stages dag)"
  let ?open = "{j. \<exists>t. jget (ds_stages d) j = Some t \<and> sg_status t \<noteq> Dag_COMPLETED}"
  have "?E \<subseteq> (\<Union>s\<in>set (dd_stages dag). {sg_stageId s} \<times> set (sg_dependencies s))"
    by (auto simp: stage_edges_def)
  then have "finite ?E" by (rule finite_subset) auto
  then have wf: "wf (?E\<inverse>)"
    using valid by (intro finite_acyclic_wf_converse) (auto simp: valid_dag_def)
  have i: "i \<in> ?open" using s by blast
  obtain j where j: "j \<in> ?open" and min: "\<And>k. (k, j) \<in> ?E\<inverse> \<Longrightarrow> k \<notin> ?open"
    by (rule wfE_min [OF wf i]) (rule that)
  from j obtain t where t: "jget (ds_stages d) j = Some t" "sg_status t \<noteq> Dag_COMPLETED" by blast
  obtain s0 where s0: "s0 \<in> set (dd_stages dag)" "sg_stageId s0 = j" "sg_dependencies t = sg_dependencies s0"
    using inv_stage_of [OF inv t(1)] by (auto simp: stage_of_def)
  have "completed (ds_stages d) dep" if dep: "dep \<in> set (sg_dependencies t)" for dep
  proof -
    have "(j, dep) \<in> ?E" using s0 dep by (auto simp: stage_edges_def)
    then have "dep \<notin> ?open" using min by blast
    moreover obtain x where "x \<in> set (dd_stages dag)" "sg_stageId x = dep"
      using valid_dep [OF valid s0(1), of dep] s0(3) dep by auto
    moreover from this obtain u where "jget (ds_stages d) dep = Some u" using inv_get [OF inv] by blast
    ultimately show ?thesis by (auto simp: completed_def)
  qed
  with t show ?thesis by blast
qed

end
