(* ===== verification/Dag_Artifacts.thy ===== *)
theory Dag_Artifacts
  imports Dag_Props
begin

text \<open>
  The lifetime of intermediate artifacts: while the DAG is not cancelled, the output of a completed
  stage is held in memory exactly as long as one of its consumers has not completed (an output nobody
  consumes is kept for the caller).
\<close>

subsection \<open>Counting entries of a Map\<close>

lemma jvalues_count:
  assumes "jmap_ok m"
  shows "length (filter P (jvalues m)) = card {i. \<exists>v. jget m i = Some v \<and> P v}"
proof -
  have "distinct (map fst (filter (\<lambda>(i, v). P v) m))"
    using assms by (simp add: distinct_map_filter)
  then have "card (set (map fst (filter (\<lambda>(i, v). P v) m))) = length (filter (\<lambda>(i, v). P v) m)"
    using distinct_card by fastforce
  moreover have "set (map fst (filter (\<lambda>(i, v). P v) m)) = {i. \<exists>v. jget m i = Some v \<and> P v}"
    using assms by (force simp: map_of_eq_Some_iff)
  moreover have "length (filter P (jvalues m)) = length (filter (\<lambda>(i, v). P v) m)"
    by (induction m) auto
  ultimately show ?thesis by simp
qed

lemma finite_jget: "finite {i. \<exists>v. jget m i = Some v \<and> P i v}"
proof (rule finite_subset)
  show "{i. \<exists>v. jget m i = Some v \<and> P i v} \<subseteq> set (map fst m)"
    by (auto dest: map_of_SomeD simp: rev_image_eqI)
qed simp

subsection \<open>Wiring\<close>

text \<open>
  What the error message of the validator promises and its code does not check: each consumed artifact
  is an input of the DAG or the output of a stage listed as a dependency.  Outputs have ids of their
  own, and no stage lists an input twice.
\<close>

definition input_ids :: "workload_dag \<Rightarrow> string set" where
  "input_ids dag = set (map di_artifactId (dd_inputArtifacts dag))"

definition well_wired :: "workload_dag \<Rightarrow> bool" where
  "well_wired dag \<longleftrightarrow>
     distinct (map sg_outputArtifactRef (dd_stages dag)) \<and>
     set (map sg_outputArtifactRef (dd_stages dag)) \<inter> input_ids dag = {} \<and>
     ''__INPUT__'' \<notin> set (map sg_stageId (dd_stages dag)) \<and>
     (\<forall>s\<in>set (dd_stages dag). distinct (sg_inputArtifactRefs s) \<and>
        (\<forall>a\<in>set (sg_inputArtifactRefs s). a \<in> input_ids dag \<or>
           (\<exists>p\<in>set (dd_stages dag). sg_stageId p \<in> set (sg_dependencies s) \<and> sg_outputArtifactRef p = a)))"

definition consumers :: "(string, dag_stage) jsmap \<Rightarrow> string \<Rightarrow> string set" where
  "consumers st a = {i. \<exists>s. jget st i = Some s \<and> a \<in> set (sg_inputArtifactRefs s)}"

definition open_consumers :: "(string, dag_stage) jsmap \<Rightarrow> string \<Rightarrow> string set" where
  "open_consumers st a = {i \<in> consumers st a. \<not> completed st i}"

lemma finite_consumers [simp]: "finite (consumers st a)" "finite (open_consumers st a)"
  by (simp_all add: consumers_def open_consumers_def finite_jget)

text \<open>The state of one intermediate artifact.\<close>

definition art_ok :: "(string, dag_stage) jsmap \<Rightarrow> string \<Rightarrow> dag_stage \<Rightarrow> dag_artifact \<Rightarrow> bool" where
  "art_ok st i s art \<longleftrightarrow> ar_producingStageId art = i \<and>
     ar_referenceCount art = card (open_consumers st (sg_outputArtifactRef s)) \<and>
     (ar_dataBuffer art = None \<longleftrightarrow>
        open_consumers st (sg_outputArtifactRef s) = {} \<and> consumers st (sg_outputArtifactRef s) \<noteq> {}) \<and>
     ar_isCleanedUp art = (ar_dataBuffer art = None)"

definition art_inv :: "dag_state \<Rightarrow> bool" where
  "art_inv d \<longleftrightarrow> (\<not> ds_isCancelled d \<longrightarrow> (\<forall>i s. jget (ds_stages d) i = Some s \<longrightarrow>
     sg_status s = Dag_COMPLETED \<longrightarrow>
     (\<exists>art. jget (ds_artifacts d) (sg_outputArtifactRef s) = Some art \<and> art_ok (ds_stages d) i s art)))"

subsection \<open>Releasing the inputs of a stage\<close>

definition released :: "dag_artifact \<Rightarrow> dag_artifact" where
  "released art =
     (if ar_producingStageId art = ''__INPUT__'' then art
      else if ar_referenceCount art \<le> 1
      then art\<lparr>ar_referenceCount := 0, ar_isCleanedUp := True, ar_dataBuffer := None\<rparr>
      else art\<lparr>ar_referenceCount := ar_referenceCount art - 1\<rparr>)"

lemma release_ref_get:
  "jget (release_ref r arts) a = (if a = r then map_option released (jget arts a) else jget arts a)"
  by (cases "jget arts r") (auto simp: release_ref_def released_def Let_def js_simps)

lemma release_all_get:
  "distinct refs \<Longrightarrow> jget (fold release_ref refs arts) a =
     (if a \<in> set refs then map_option released (jget arts a) else jget arts a)"
  by (induction refs arbitrary: arts) (auto simp: release_ref_get)

subsection \<open>Who consumes what\<close>

lemma unique_output:
  assumes "well_wired dag" and "p \<in> set (dd_stages dag)" and "q \<in> set (dd_stages dag)"
    and "sg_outputArtifactRef p = sg_outputArtifactRef q"
  shows "p = q"
  using assms by (auto simp: well_wired_def distinct_map dest: inj_onD)

lemma wired_input:
  assumes "well_wired dag" and "s \<in> set (dd_stages dag)" and "a \<in> set (sg_inputArtifactRefs s)"
    and "a \<notin> input_ids dag"
  shows "\<exists>p\<in>set (dd_stages dag). sg_stageId p \<in> set (sg_dependencies s) \<and> sg_outputArtifactRef p = a"
  using assms unfolding well_wired_def by blast

lemma wired_not_input:
  assumes "well_wired dag" and "stage_of dag i s"
  shows "i \<noteq> ''__INPUT__''"
proof -
  have "i \<in> set (map sg_stageId (dd_stages dag))" using assms(2) by (auto simp: stage_of_def)
  then show ?thesis using assms(1) unfolding well_wired_def by blast
qed

lemma producer_dep:
  assumes wired: "well_wired dag" and t: "stage_of dag k t" and s: "stage_of dag c s"
    and a: "sg_outputArtifactRef t \<in> set (sg_inputArtifactRefs s)"
  shows "k \<in> set (sg_dependencies s)"
proof -
  obtain t0 where t0: "t0 \<in> set (dd_stages dag)" "sg_stageId t0 = k"
    "sg_outputArtifactRef t0 = sg_outputArtifactRef t" using t by (auto simp: stage_of_def)
  obtain s0 where s0: "s0 \<in> set (dd_stages dag)" "sg_dependencies s0 = sg_dependencies s"
    "sg_inputArtifactRefs s0 = sg_inputArtifactRefs s" using s by (auto simp: stage_of_def)
  have "sg_outputArtifactRef t \<notin> input_ids dag"
    using wired t0 by (auto simp: well_wired_def)
  then obtain p where "p \<in> set (dd_stages dag)" "sg_stageId p \<in> set (sg_dependencies s0)"
    "sg_outputArtifactRef p = sg_outputArtifactRef t"
    using wired_input [OF wired s0(1), of "sg_outputArtifactRef t"] s0(3) a by auto
  then show ?thesis using unique_output [OF wired, of p t0] t0 s0 by simp
qed

lemma no_self_dep:
  assumes "valid_dag reg dag" and "stage_of dag k s"
  shows "k \<notin> set (sg_dependencies s)"
proof
  assume "k \<in> set (sg_dependencies s)"
  then have "(k, k) \<in> stage_edges (dd_stages dag)"
    using assms(2) by (auto simp: stage_of_def stage_edges_def)
  then show False using assms(1) by (auto simp: valid_dag_def acyclic_def)
qed

lemma consumers_step:
  assumes "stages_step st st'"
  shows "consumers st' a = consumers st a"
proof -
  have "i \<in> consumers st' a \<longleftrightarrow> i \<in> consumers st a" for i
  proof -
    have "rel_option (stage_step (completed st')) (jget st i) (jget st' i)"
      using assms by (simp add: stages_step_def)
    then show ?thesis
      by (cases "jget st i"; cases "jget st' i") (auto simp: consumers_def dest: stage_step_frame)
  qed
  then show ?thesis by blast
qed

subsection \<open>The invariant\<close>

lemma art_inv_quiet:
  assumes inv: "art_inv d" and step: "stages_step (ds_stages d) (ds_stages d')"
    and same: "\<And>i. completed (ds_stages d') i \<longleftrightarrow> completed (ds_stages d) i"
    and arts: "ds_artifacts d' = ds_artifacts d" and "ds_isCancelled d' = ds_isCancelled d"
  shows "art_inv d'"
proof -
  have opens: "open_consumers (ds_stages d') a = open_consumers (ds_stages d) a" for a
    by (simp add: open_consumers_def consumers_step [OF step] same)
  have ok: "art_ok (ds_stages d') i s art \<longleftrightarrow> art_ok (ds_stages d) i s art" for i s art
    by (simp add: art_ok_def opens consumers_step [OF step])
  have "jget (ds_stages d) i = Some s"
    if s: "jget (ds_stages d') i = Some s" "sg_status s = Dag_COMPLETED" for i s
  proof -
    have "completed (ds_stages d') i" using s by (auto simp: completed_def)
    then have "completed (ds_stages d) i" by (simp only: same)
    then obtain s1 where s1: "jget (ds_stages d) i = Some s1" "sg_status s1 = Dag_COMPLETED"
      by (auto simp: completed_def)
    obtain s2 where "jget (ds_stages d') i = Some s2" "stage_step (completed (ds_stages d')) s1 s2"
      using stages_step_get [OF step s1(1)] .
    then show ?thesis using s s1 stage_step_completed by fastforce
  qed
  then show ?thesis using inv assms(5) by (auto simp: art_inv_def arts ok)
qed

lemma art_ok_released:
  assumes ok: "art_ok st i t art" and k: "k \<in> open_consumers st (sg_outputArtifactRef t)"
    and i: "i \<noteq> ''__INPUT__''"
    and st': "consumers st' (sg_outputArtifactRef t) = consumers st (sg_outputArtifactRef t)"
      "open_consumers st' (sg_outputArtifactRef t) = open_consumers st (sg_outputArtifactRef t) - {k}"
  shows "art_ok st' i t (released art)"
proof -
  let ?O = "open_consumers st (sg_outputArtifactRef t)"
  have n: "ar_referenceCount art = card ?O" "ar_producingStageId art = i" using ok by (auto simp: art_ok_def)
  have c: "card (?O - {k}) = card ?O - 1" using k by (simp add: card_Diff_singleton)
  have pos: "0 < card ?O" using k by (auto simp: card_gt_0_iff)
  have ne: "consumers st (sg_outputArtifactRef t) \<noteq> {}" using k by (auto simp: open_consumers_def)
  have data: "ar_dataBuffer art \<noteq> None" "\<not> ar_isCleanedUp art" using ok k by (auto simp: art_ok_def)
  have last: "?O - {k} = {} \<longleftrightarrow> card ?O \<le> 1"
  proof -
    have "finite (?O - {k})" by simp
    from card_0_eq [OF this] have "?O - {k} = {} \<longleftrightarrow> card (?O - {k}) = 0" by blast
    then show ?thesis using c pos by linarith
  qed
  show ?thesis
  proof (cases "card ?O \<le> 1")
    case True
    then show ?thesis using n i c ne last by (simp add: art_ok_def released_def st')
  next
    case False
    then show ?thesis using n i c data last by (simp add: art_ok_def released_def st')
  qed
qed

text \<open>The output of the stage that completes: all of its consumers are still open.\<close>

lemma new_artifact_ok:
  assumes valid: "valid_dag reg dag" and wired: "well_wired dag" and inv: "dag_inv dag d"
    and s: "jget (ds_stages d) k = Some s" "sg_status s \<noteq> Dag_COMPLETED"
    and st': "consumers st' (sg_outputArtifactRef s) = consumers (ds_stages d) (sg_outputArtifactRef s)"
      "open_consumers st' (sg_outputArtifactRef s) =
         open_consumers (ds_stages d) (sg_outputArtifactRef s) - {k}"
  shows "art_ok st' k s (output_artifact sha now d (sg_outputArtifactRef s) k out)"
    and "sg_outputArtifactRef s \<notin> set (sg_inputArtifactRefs s)"
proof -
  let ?a = "sg_outputArtifactRef s"
  note sk = inv_stage_of [OF inv s(1)]
  show own: "?a \<notin> set (sg_inputArtifactRefs s)"
    using producer_dep [OF wired sk sk] no_self_dep [OF valid sk] by blast
  have "\<not> completed (ds_stages d) c \<and> c \<noteq> k" if c: "c \<in> consumers (ds_stages d) ?a" for c
  proof
    obtain t where t: "jget (ds_stages d) c = Some t" "?a \<in> set (sg_inputArtifactRefs t)"
      using c by (auto simp: consumers_def)
    have k: "k \<in> set (sg_dependencies t)"
      by (rule producer_dep [OF wired sk inv_stage_of [OF inv t(1)] t(2)])
    show "c \<noteq> k" using own t s by auto
    show "\<not> completed (ds_stages d) c"
    proof
      assume "completed (ds_stages d) c"
      then have "started t" using t by (simp add: completed_get started_def)
      then have "completed (ds_stages d) k" using inv t k by (auto simp: dag_inv_def order_inv_def)
      then show False using s by (simp add: completed_get)
    qed
  qed
  then have all_open: "open_consumers st' ?a = consumers st' ?a"
    unfolding st' by (auto simp: open_consumers_def)
  have "consumer_count d ?a = card (consumers st' ?a)"
    unfolding consumer_count_def st'(1) unfolding consumers_def
    by (rule jvalues_count) (rule inv_keys_distinct [OF inv valid])
  then show "art_ok st' k s (output_artifact sha now d ?a k out)"
    by (simp add: art_ok_def output_artifact_def Let_def all_open)
qed

lemma art_inv_complete:
  assumes valid: "valid_dag reg dag" and wired: "well_wired dag" and inv: "dag_inv dag d"
    and art: "art_inv d" and legal: "1 \<le> n"
  shows "art_inv (fst (complete_in sha now k out w n t d))"
proof (cases rule: complete_in_cases [of sha now k out w n t d])
  case (rejected e)
  then show ?thesis using art by simp
next
  case (ok s)
  let ?s = "s\<lparr>sg_status := Dag_COMPLETED, sg_executionTimeMs := Some t\<rparr>"
  let ?st = "promote (jset (ds_stages d) k ?s)"
  let ?a = "sg_outputArtifactRef s"
  let ?arts = "fold release_ref (sg_inputArtifactRefs s)
      (jset (ds_artifacts d) ?a (output_artifact sha now d ?a k out))"
  have step: "stages_step (ds_stages d) ?st"
    using ok(3) legal by (intro stages_step_complete [OF ok(1,2)]) simp
  note cons = consumers_step [OF step]
  have comp: "completed ?st i \<longleftrightarrow> i = k \<or> completed (ds_stages d) i" for i by auto
  have opens: "open_consumers ?st a = open_consumers (ds_stages d) a - {k}" for a
    by (auto simp: open_consumers_def cons comp simp del: promote_completed completed_jset)
  note sk = inv_stage_of [OF inv ok(1)]
  have dist: "distinct (sg_inputArtifactRefs s)"
    using wired sk by (auto simp: well_wired_def stage_of_def)
  note get = release_all_get [OF dist, of "jset (ds_artifacts d) ?a (output_artifact sha now d ?a k out)"]
  note new = new_artifact_ok(1) [OF valid wired inv ok(1,2) cons opens, of sha now out]
    new_artifact_ok(2) [OF valid wired inv ok(1,2) cons opens]
  have "\<exists>art. jget ?arts (sg_outputArtifactRef s') = Some art \<and> art_ok ?st i s' art"
    if live: "\<not> ds_isCancelled d" and s': "jget ?st i = Some s'" "sg_status s' = Dag_COMPLETED" for i s'
  proof (cases "i = k")
    case True
    then have "s' = ?s" using s' by (simp add: promote_get js_simps)
    then show ?thesis using new True by (simp add: get js_simps art_ok_def)
  next
    case False
    then have old: "jget (ds_stages d) i = Some s'"
      using s' by (auto simp: promote_get js_simps split: if_splits)
    note si = inv_stage_of [OF inv old]
    obtain art where a: "jget (ds_artifacts d) (sg_outputArtifactRef s') = Some art"
      "art_ok (ds_stages d) i s' art"
      using art live old s'(2) by (auto simp: art_inv_def)
    have ne: "sg_outputArtifactRef s' \<noteq> ?a"
    proof
      assume "sg_outputArtifactRef s' = ?a"
      moreover from si obtain p where "p \<in> set (dd_stages dag)" "sg_stageId p = i"
        "sg_outputArtifactRef p = sg_outputArtifactRef s'" by (auto simp: stage_of_def)
      moreover from sk obtain q where "q \<in> set (dd_stages dag)" "sg_stageId q = k"
        "sg_outputArtifactRef q = ?a" by (auto simp: stage_of_def)
      ultimately show False using unique_output [OF wired, of p q] False by simp
    qed
    show ?thesis
    proof (cases "sg_outputArtifactRef s' \<in> set (sg_inputArtifactRefs s)")
      case True
      have "k \<in> open_consumers (ds_stages d) (sg_outputArtifactRef s')"
        using True ok(1,2) by (simp add: open_consumers_def consumers_def completed_get)
      moreover have "i \<noteq> ''__INPUT__''"
        by (rule wired_not_input [OF wired si])
      ultimately have "art_ok ?st i s' (released art)"
        by (rule art_ok_released [OF a(2) _ _ cons opens])
      then show ?thesis using a(1) ne True by (simp add: get js_simps)
    next
      case not_in: False
      then have "k \<notin> open_consumers (ds_stages d) (sg_outputArtifactRef s')"
        using ok(1) by (simp add: open_consumers_def consumers_def)
      then have "art_ok ?st i s' art"
        using a(2) by (simp add: art_ok_def opens cons)
      then show ?thesis using a(1) ne not_in by (simp add: get js_simps)
    qed
  qed
  then show ?thesis using ok(5) by (simp add: art_inv_def Let_def)
qed

lemma exec_art_inv:
  assumes valid: "valid_dag reg dag" and wired: "well_wired dag" and inv: "dag_inv dag d"
    and art: "art_inv d" and legal: "dag_legal d op"
  shows "art_inv (dag_exec sha now op d)"
proof (cases op)
  case (DAssign i w)
  show ?thesis
  proof (rule art_inv_quiet [OF art exec_step [OF legal]])
    fix j show "completed (ds_stages (dag_exec sha now op d)) j \<longleftrightarrow> completed (ds_stages d) j"
      by (auto simp: DAssign assign_in_def Let_def completed_get split: option.splits)
  qed (auto simp: DAssign assign_in_def Let_def split: option.splits)
next
  case (DFail i e)
  show ?thesis
  proof (rule art_inv_quiet [OF art exec_step [OF legal]])
    fix j show "completed (ds_stages (dag_exec sha now op d)) j \<longleftrightarrow> completed (ds_stages d) j"
      by (auto simp: DFail fail_in_def completed_get split: option.splits)
  qed (auto simp: DFail fail_in_def split: option.splits)
next
  case DCancel
  then show ?thesis by (simp add: art_inv_def cancel_in_def)
next
  case (DComplete i out w n t)
  then show ?thesis using art_inv_complete [OF valid wired inv art] legal by simp
qed

lemma reach_art_inv:
  assumes "dag_reach sha dag d" and "valid_dag reg dag" and "well_wired dag"
  shows "art_inv d"
  using assms(1)
proof (induction rule: dag_reach.induct)
  case (init now)
  have "sg_status s \<noteq> Dag_COMPLETED" if "jget (initial_stages dag) i = Some s" for i s
    using that by (auto simp: initial_get [OF assms(2)] split: if_splits)
  then show ?case by (auto simp: art_inv_def initial_dag_def)
next
  case (step d op now)
  then show ?case by (intro exec_art_inv [OF assms(2,3) reach_inv [OF step.hyps(1) assms(2)]])
qed

end
