(* ===== verification/Dag_Theorems.thy ===== *)
theory Dag_Theorems
  imports Dag_Artifacts
begin

text \<open>
  The properties of the DAG engine, with witnesses on a two-stage image pipeline whose second stage
  consumes what the first one produces.
\<close>

subsection \<open>A two-stage DAG\<close>

definition demo_stage :: "string \<Rightarrow> string list \<Rightarrow> string list \<Rightarrow> string \<Rightarrow> dag_stage" where
  "demo_stage i deps ins out = \<lparr>sg_stageId = i, sg_kernelId = ''image_filter_box_blur_v1'',
     sg_parameters = None, sg_dependencies = deps, sg_inputArtifactRefs = ins,
     sg_outputArtifactRef = out, sg_status = Dag_PENDING, sg_assignedWorkerId = None,
     sg_attemptNumber = 0, sg_executionTimeMs = None, sg_error = None\<rparr>"

definition demo_dag :: workload_dag where
  "demo_dag = \<lparr>dd_dagId = ''dag'', dd_version = ''1'',
     dd_stages = [demo_stage ''s1'' [] [''in''] ''mid'', demo_stage ''s2'' [''s1''] [''mid''] ''out''],
     dd_inputArtifacts = [\<lparr>di_artifactId = ''in'', di_format = ''RAW'', di_sizeBytes = 1,
       di_dataBuffer = Some (Bytes [7])\<rparr>],
     dd_outputArtifactRefs = [''out'']\<rparr>"

definition demo_sha :: "buffer \<Rightarrow> string" where
  "demo_sha b = ''h''"

definition demo_d0 :: dag_state where
  "demo_d0 = initial_dag demo_sha 0 demo_dag"
definition demo_d1 :: dag_state where
  "demo_d1 = dag_exec demo_sha 1 (DAssign ''s1'' ''w'') demo_d0"
definition demo_d2 :: dag_state where
  "demo_d2 = dag_exec demo_sha 2 (DComplete ''s1'' (Bytes [8]) ''w'' 1 5) demo_d1"
definition demo_d3 :: dag_state where
  "demo_d3 = dag_exec demo_sha 3 (DAssign ''s2'' ''w'') demo_d2"

lemma demo_valid: "valid_dag new_registry demo_dag"
  unfolding validateDag_iff [symmetric] by code_simp

lemma demo_wired: "well_wired demo_dag"
  by (simp add: well_wired_def demo_dag_def demo_stage_def input_ids_def)

lemma demo_dag_reach:
  "dag_reach demo_sha demo_dag demo_d0" "dag_reach demo_sha demo_dag demo_d1"
  "dag_reach demo_sha demo_dag demo_d2" "dag_reach demo_sha demo_dag demo_d3"
proof -
  show 0: "dag_reach demo_sha demo_dag demo_d0" unfolding demo_d0_def by (rule dag_reach.init)
  show 1: "dag_reach demo_sha demo_dag demo_d1"
    unfolding demo_d1_def by (rule dag_reach.step [OF 0]) simp
  show 2: "dag_reach demo_sha demo_dag demo_d2"
    unfolding demo_d2_def by (rule dag_reach.step [OF 1]) simp
  show "dag_reach demo_sha demo_dag demo_d3"
    unfolding demo_d3_def by (rule dag_reach.step [OF 2]) simp
qed

subsection \<open>Validation and order\<close>

text \<open>C15. \<open>registerDag\<close> accepts exactly the well-formed descriptors: an id, at least one stage, distinct
  non-empty stage ids, certified kernels, existing dependencies, produced artifacts, and no dependency
  cycle.  An accepted DAG is stored under its id with its initial state, next to the others.\<close>

theorem registerDag_exact:
  "(\<exists>p. registerDag sha en now dag = Inr p) = valid_dag (en_registry en) dag \<and>
   (case registerDag sha en now dag of
      Inl e \<Rightarrow> validateDag (en_registry en) dag = Some e
    | Inr (en', p) \<Rightarrow> jget (en_dags en') i =
        (if i = dd_dagId dag then Some (initial_dag sha now dag) else jget (en_dags en) i))"
  by (cases "validateDag (en_registry en) dag")
    (auto simp: registerDag_def Let_def js_simps simp flip: validateDag_iff)



text \<open>C7. A DAG never deadlocks: as long as it is not cancelled, not complete and no stage has failed for
  good, some stage is ready to be assigned or running.\<close>

theorem dag_no_deadlock:
  assumes "dag_reach sha dag d" and "valid_dag reg dag" and "\<not> ds_isCancelled d"
    and "\<not> dp_isCompleted (progress_of i d)" and "dp_failedStages (progress_of i d) = 0"
  shows "ready_stages d \<noteq> [] \<or> 0 < dp_runningStages (progress_of i d)"
proof -
  note inv = reach_inv [OF assms(1,2)]
  note ok = inv_keys_distinct [OF inv assms(2)]
  have "\<not> (\<forall>s\<in>set (jvalues (ds_stages d)). sg_status s = Dag_COMPLETED)"
  proof
    assume "\<forall>s\<in>set (jvalues (ds_stages d)). sg_status s = Dag_COMPLETED"
    then have "filter (\<lambda>s. sg_status s \<in> {Dag_COMPLETED}) (jvalues (ds_stages d)) = jvalues (ds_stages d)"
      by (intro filter_True) blast
    then show False using assms(4) by (simp only: progress_of_def Let_def dag_progress.simps)
  qed
  then obtain s where "s \<in> set (jvalues (ds_stages d))" "sg_status s \<noteq> Dag_COMPLETED" by blast
  then obtain k where "jget (ds_stages d) k = Some s" "sg_status s \<noteq> Dag_COMPLETED"
    using jvalues_jget [OF ok] by blast
  from frontier [OF assms(2) inv this]
  obtain j t where t: "jget (ds_stages d) j = Some t" "sg_status t \<noteq> Dag_COMPLETED"
    "\<forall>dep\<in>set (sg_dependencies t). completed (ds_stages d) dep" by blast
  then have mem: "t \<in> set (jvalues (ds_stages d))" by (auto dest: jget_in_jvalues)
  have "sg_status t \<noteq> Dag_FAILED"
    using assms(5) mem by (auto simp: progress_of_def Let_def filter_empty_conv)
  moreover have "sg_status t \<noteq> Dag_CANCELLED \<and> (sg_status t = Dag_PENDING \<longrightarrow>
      (\<exists>dep\<in>set (sg_dependencies t). \<not> completed (ds_stages d) dep))"
    using inv t(1) assms(3) unfolding dag_inv_def settled_def by blast
  ultimately have "sg_status t = Dag_READY \<or> sg_status t = Dag_RUNNING"
    using t(2,3) by (cases "sg_status t") auto
  then show ?thesis using mem
    by (auto simp: ready_stages_def progress_of_def Let_def filter_empty_conv)
qed

theorem dag_no_deadlock_witness:
  "map sg_stageId (ready_stages demo_d2) = [''s2''] \<and>
   \<not> (ready_stages demo_d2 = [] \<and> dp_runningStages (progress_of ''dag'' demo_d2) = 0)"
proof
  show "map sg_stageId (ready_stages demo_d2) = [''s2'']" by code_simp
  have "\<not> ds_isCancelled demo_d2" "\<not> dp_isCompleted (progress_of ''dag'' demo_d2)"
    "dp_failedStages (progress_of ''dag'' demo_d2) = 0" by code_simp+
  from dag_no_deadlock [OF demo_dag_reach(3) demo_valid this]
  show "\<not> (ready_stages demo_d2 = [] \<and> dp_runningStages (progress_of ''dag'' demo_d2) = 0)" by linarith
qed

text \<open>No stage is handed out more than three times, and the attempt of a running stage is one of the
  three.\<close>

theorem stage_attempts_bounded:
  assumes "dag_reach sha dag d" and "valid_dag reg dag" and "jget (ds_stages d) i = Some s"
  shows "sg_attemptNumber s \<le> 3 \<and> (sg_status s = Dag_RUNNING \<longrightarrow> 1 \<le> sg_attemptNumber s) \<and>
    (sg_status s = Dag_READY \<longrightarrow> sg_attemptNumber s < 3)"
  using reach_inv [OF assms(1,2)] assms(3)
  by (auto simp: dag_inv_def attempts_ok_def maxStageAttempts_def)

theorem stage_attempts_bounded_witness:
  "\<exists>s. jget (ds_stages demo_d3) ''s2'' = Some s \<and> sg_attemptNumber s = 1 \<and> sg_attemptNumber s \<le> 3"
proof -
  have "map_option sg_attemptNumber (jget (ds_stages demo_d3) ''s2'') = Some 1" by code_simp
  then show ?thesis
    using stage_attempts_bounded [OF demo_dag_reach(4) demo_valid] by auto
qed

subsection \<open>Exactly once\<close>

text \<open>How many results for a stage a run accepts.\<close>

fun accepted :: "(buffer \<Rightarrow> string) \<Rightarrow> string \<Rightarrow> dag_state \<Rightarrow> (ms \<times> dag_op) list \<Rightarrow> nat" where
  "accepted sha i d [] = 0"
| "accepted sha i d ((now, op) # ops) =
     (case op of
        DComplete j out w n t \<Rightarrow>
          (case snd (complete_in sha now j out w n t d) of
             CompleteOk _ \<Rightarrow> if j = i then 1 else 0 | CompleteRejected _ \<Rightarrow> 0)
      | _ \<Rightarrow> 0) + accepted sha i (dag_exec sha now op d) ops"

lemma completed_stays:
  "completed (ds_stages d) i \<Longrightarrow> completed (ds_stages (dag_exec sha now op d)) i"
proof (cases op)
  case (DAssign j w)
  assume "completed (ds_stages d) i"
  then show ?thesis
    by (auto simp: DAssign assign_in_def Let_def completed_get split: option.splits)
next
  case (DComplete j out w n t)
  assume "completed (ds_stages d) i"
  then show ?thesis
    by (cases rule: complete_in_cases [of sha now j out w n t d]) (auto simp: DComplete Let_def)
next
  case (DFail j e)
  assume "completed (ds_stages d) i"
  then show ?thesis by (auto simp: DFail fail_in_def completed_get split: option.splits)
next
  case DCancel
  assume "completed (ds_stages d) i"
  then obtain s where "jget (ds_stages d) i = Some s" "sg_status s = Dag_COMPLETED"
    by (auto simp: completed_def)
  moreover from this have "cancelled_stage s = s" by (simp add: cancelled_stage_def)
  ultimately show ?thesis by (simp add: DCancel cancel_in_def completed_def jget_map_values)
qed

lemma completed_rejects:
  "completed (ds_stages d) i \<Longrightarrow> accepted sha i d ops = 0"
proof (induction ops arbitrary: d)
  case (Cons p ops)
  obtain now op where p: "p = (now, op)" by (cases p)
  have "snd (complete_in sha now i out w n t d) = CompleteRejected (DuplicateResult i)" for out w n t
    using Cons.prems by (auto simp: complete_in_def completed_def)
  then show ?case
    using Cons.IH [OF completed_stays [OF Cons.prems]] p
    by (auto split: dag_op.splits complete_reply.splits)
qed simp

text \<open>C6. Exactly-once: whatever assignments, results, failures and cancellations arrive, in whatever
  order and however often repeated, at most one result of a stage is accepted.\<close>

theorem stage_completes_once: "accepted sha i d ops \<le> 1"
proof (induction ops arbitrary: d)
  case (Cons p ops)
  obtain now op where p: "p = (now, op)" by (cases p)
  show ?case
  proof (cases "\<exists>out w n t l. op = DComplete i out w n t \<and>
      snd (complete_in sha now i out w n t d) = CompleteOk l")
    case True
    then obtain out w n t l where op: "op = DComplete i out w n t"
      and ok: "snd (complete_in sha now i out w n t d) = CompleteOk l" by blast
    have "completed (ds_stages (dag_exec sha now op d)) i"
      using ok by (cases rule: complete_in_cases [of sha now i out w n t d]) (auto simp: op Let_def)
    from completed_rejects [OF this] show ?thesis by (simp add: p op ok)
  next
    case False
    then show ?thesis using Cons.IH [of "dag_exec sha now op d"]
      by (auto simp: p split: dag_op.splits complete_reply.splits)
  qed
qed simp

text \<open>\<open>completeStage\<close> accepts a report exactly when the stage exists, is not completed, is assigned
  to nobody or to the reporting worker, and the report names the current attempt; a rejected report
  changes nothing.\<close>

theorem completeStage_accepts:
  "(\<exists>l. snd (completeStage sha en now dagId i out w n t) = CompleteOk l) =
     (\<exists>d s. jget (en_dags en) dagId = Some d \<and> jget (ds_stages d) i = Some s \<and>
        sg_status s \<noteq> Dag_COMPLETED \<and> sg_attemptNumber s = n \<and>
        (or_undef (sg_assignedWorkerId s) = None \<or> sg_assignedWorkerId s = Some w)) \<and>
   (case completeStage sha en now dagId i out w n t of
      (en', CompleteRejected e) \<Rightarrow> en' = en | (en', CompleteOk l) \<Rightarrow> True)"
proof (cases "jget (en_dags en) dagId")
  case None
  then show ?thesis by (simp add: completeStage_def)
next
  case (Some d)
  have same: "en\<lparr>en_dags := jset (en_dags en) dagId d\<rparr> = en"
    using Some by (simp add: jset_same)
  show ?thesis
  proof (cases rule: complete_in_cases [of sha now i out w n t d])
    case (rejected e)
    have "\<not> (\<exists>s. jget (ds_stages d) i = Some s \<and> sg_status s \<noteq> Dag_COMPLETED \<and>
        sg_attemptNumber s = n \<and> (or_undef (sg_assignedWorkerId s) = None \<or> sg_assignedWorkerId s = Some w))"
    proof (rule notI, elim exE conjE)
      fix s assume s: "jget (ds_stages d) i = Some s" "sg_status s \<noteq> Dag_COMPLETED"
        "sg_attemptNumber s = n" "or_undef (sg_assignedWorkerId s) = None \<or> sg_assignedWorkerId s = Some w"
      then show False using rejected by (elim disjE) (simp_all add: complete_in_def Let_def)
    qed
    then show ?thesis using Some rejected same by (simp add: completeStage_def)
  next
    case (ok s)
    then show ?thesis using Some by (simp add: completeStage_def Let_def)
  qed
qed

subsection \<open>Artifacts and cancellation\<close>



text \<open>A stage that may run finds its inputs: while it is ready or running, every intermediate
  artifact it consumes is in memory.\<close>

theorem inputs_available:
  assumes "dag_reach sha dag d" and "valid_dag reg dag" and "well_wired dag" and "\<not> ds_isCancelled d"
    and "jget (ds_stages d) i = Some s" and "sg_status s = Dag_READY \<or> sg_status s = Dag_RUNNING"
    and "a \<in> set (sg_inputArtifactRefs s)" and "a \<notin> input_ids dag"
  shows "\<exists>art buf. jget (ds_artifacts d) a = Some art \<and> ar_dataBuffer art = Some buf"
proof -
  note inv = reach_inv [OF assms(1,2)]
  obtain s0 where s0: "s0 \<in> set (dd_stages dag)" "sg_dependencies s = sg_dependencies s0"
    "sg_inputArtifactRefs s = sg_inputArtifactRefs s0"
    using inv_stage_of [OF inv assms(5)] by (auto simp: stage_of_def)
  then obtain p where p: "p \<in> set (dd_stages dag)" "sg_stageId p \<in> set (sg_dependencies s)"
    "sg_outputArtifactRef p = a"
    using wired_input [OF assms(3) s0(1)] assms(7,8) by auto
  then have "completed (ds_stages d) (sg_stageId p)"
    using inv assms(5,6) by (auto simp: dag_inv_def order_inv_def started_def)
  then obtain t where t: "jget (ds_stages d) (sg_stageId p) = Some t" "sg_status t = Dag_COMPLETED"
    by (auto simp: completed_def)
  have "sg_outputArtifactRef t = a"
  proof -
    obtain t0 where "t0 \<in> set (dd_stages dag)" "sg_stageId t0 = sg_stageId p"
      "sg_outputArtifactRef t = sg_outputArtifactRef t0"
      using inv_stage_of [OF inv t(1)] by (auto simp: stage_of_def)
    moreover have "distinct (map sg_stageId (dd_stages dag))" using assms(2) by (simp add: valid_dag_def)
    ultimately show ?thesis using p by (metis distinct_map inj_onD)
  qed
  moreover obtain art where "jget (ds_artifacts d) (sg_outputArtifactRef t) = Some art"
    "art_ok (ds_stages d) (sg_stageId p) t art"
    using reach_art_inv [OF assms(1-3)] assms(4) t by (auto simp: art_inv_def)
  moreover have "i \<in> open_consumers (ds_stages d) a"
    using assms(5-7) by (auto simp: open_consumers_def consumers_def completed_get)
  ultimately show ?thesis by (auto simp: art_ok_def)
qed

theorem inputs_available_witness:
  "\<exists>art buf. jget (ds_artifacts demo_d3) ''mid'' = Some art \<and> ar_dataBuffer art = Some buf"
proof -
  have "map_option (\<lambda>s. (sg_status s, sg_inputArtifactRefs s)) (jget (ds_stages demo_d3) ''s2'') =
      Some (Dag_RUNNING, [''mid''])" by code_simp
  then obtain s where "jget (ds_stages demo_d3) ''s2'' = Some s" "sg_status s = Dag_RUNNING"
    "sg_inputArtifactRefs s = [''mid'']" by auto
  moreover have "\<not> ds_isCancelled demo_d3" by code_simp
  moreover have "''mid'' \<notin> input_ids demo_dag" by (simp add: input_ids_def demo_dag_def)
  ultimately show ?thesis
    using inputs_available [OF demo_dag_reach(4) demo_valid demo_wired, of "''s2''" s "''mid''"] by simp
qed

fun dag_run :: "(buffer \<Rightarrow> string) \<Rightarrow> dag_state \<Rightarrow> (ms \<times> dag_op) list \<Rightarrow> dag_state" where
  "dag_run sha d [] = d"
| "dag_run sha d ((now, op) # ops) = dag_run sha (dag_exec sha now op d) ops"

lemma cancelled_stays: "ds_isCancelled d \<Longrightarrow> ds_isCancelled (dag_exec sha now op d)"
  by (cases op) (auto simp: assign_in_def complete_in_def fail_in_def cancel_in_def Let_def
      split: option.splits sum.splits)

lemma cancelled_run: "ds_isCancelled d \<Longrightarrow> ds_isCancelled (dag_run sha d ops)"
  by (induction sha d ops rule: dag_run.induct) (auto intro: cancelled_stays)

text \<open>Cancellation is final: once \<open>cancelDag\<close> has run, every buffer is freed, and whatever reports
  still arrive, no stage is ever offered or assigned again.\<close>

theorem cancelDag_final:
  assumes "jget (en_dags en) dagId = Some d" and "cancelDag en dagId = (en', b)"
  shows "b \<and> (\<exists>d'. jget (en_dags en') dagId = Some d' \<and>
      list_all (\<lambda>a. ar_dataBuffer a = None) (jvalues (ds_artifacts d')) \<and>
      (\<forall>sha ops stage w.
         getNextReadyStages (en'\<lparr>en_dags := jset (en_dags en') dagId (dag_run sha d' ops)\<rparr>) dagId = [] \<and>
         assignStage (en'\<lparr>en_dags := jset (en_dags en') dagId (dag_run sha d' ops)\<rparr>) dagId stage w =
           Inl (DagCancelled dagId)))"
proof -
  have en': "en' = en\<lparr>en_dags := jset (en_dags en) dagId (cancel_in d)\<rparr>" "b"
    using assms by (auto simp: cancelDag_def)
  have "ds_isCancelled (dag_run sha (cancel_in d) ops)" for sha ops
    by (rule cancelled_run) (simp add: cancel_in_def)
  moreover have "list_all (\<lambda>a. ar_dataBuffer a = None) (jvalues (ds_artifacts (cancel_in d)))"
    by (auto simp: cancel_in_def list_all_iff)
  ultimately show ?thesis
    using en' by (auto simp: getNextReadyStages_def assignStage_def assign_in_def js_simps)
qed

theorem cancelDag_final_witness:
  "(\<exists>d'. jget (en_dags (fst (cancelDag \<lparr>en_dags = [(''dag'', demo_d1)], en_registry = []\<rparr> ''dag''))) ''dag'' =
     Some d' \<and> list_all (\<lambda>a. ar_dataBuffer a = None) (jvalues (ds_artifacts d')))"
proof -
  let ?en = "\<lparr>en_dags = [(''dag'', demo_d1)], en_registry = []\<rparr>"
  obtain en' b where e: "cancelDag ?en ''dag'' = (en', b)" by (cases "cancelDag ?en ''dag''")
  from cancelDag_final [OF _ e, of demo_d1] show ?thesis unfolding e by auto
qed

end
