(* ===== verification/Chunking.thy ===== *)
theory Chunking
  imports Prelude
begin

text \<open>
  What the three chunk engines of \<^verbatim>\<open>core/src/chunk_engine.ts\<close> share: the split of \<open>n\<close> rows over
  chunks, copying consecutive pieces into one buffer, and the interface of a kernel that can be
  computed by rows (\<open>row_local\<close>).
\<close>

text \<open>The reasons for which the engines throw.\<close>

datatype chunk_error =
    InvalidDimensions
  | InvalidTotalChunks
  | InvalidBufferLength
  | NoChunks
  | IncompleteChunks
  | MismatchedWorkload
  | DimensionMismatch int
  | DuplicateChunk int
  | MissingChunk int int
  | RowOverlap int
  | RowGap int
  | InconsistentRowCount int
  | WrongOutputBytes int
  | IncompleteCoverage
  | RangeError

text \<open>\<open>mode === 'RGB' ? 3 : (mode === 'L' ? 1 : 4)\<close>, with which the dispatchers and the workers alike compute the
  bytes per pixel.\<close>

definition mode_channels :: "string \<Rightarrow> nat" where
  "mode_channels mode = (if mode = ''RGB'' then 3 else if mode = ''L'' then 1 else 4)"

lemma mode_channels_pos [simp]: "0 < mode_channels mode"
  by (simp add: mode_channels_def)

subsection \<open>Splitting rows\<close>

text \<open>The loop \<open>for i < actualChunks\<close>: chunk \<open>i\<close> gets \<open>baseRows\<close> rows and one more while
  \<open>i < remainder\<close>.\<close>

fun row_loop :: "nat \<Rightarrow> nat \<Rightarrow> nat \<Rightarrow> nat \<Rightarrow> nat \<Rightarrow> (nat \<times> nat \<times> nat) list" where
  "row_loop base remd i 0 currentRow = []"
| "row_loop base remd i (Suc k) currentRow =
     (let rowCount = base + (if i < remd then 1 else 0)
      in (i, currentRow, currentRow + rowCount) # row_loop base remd (Suc i) k (currentRow + rowCount))"

definition row_ranges :: "nat \<Rightarrow> nat \<Rightarrow> (nat \<times> nat \<times> nat) list" where
  "row_ranges rows chunks = row_loop (rows div chunks) (rows mod chunks) 0 chunks 0"

definition row_offset :: "nat \<Rightarrow> nat \<Rightarrow> nat \<Rightarrow> nat" where
  "row_offset rows chunks j = j * (rows div chunks) + min j (rows mod chunks)"

lemma row_loop_eq:
  "row_loop base remd i k (i * base + min i remd) =
     map (\<lambda>j. (j, j * base + min j remd, Suc j * base + min (Suc j) remd)) [i..<i + k]"
proof (induction k arbitrary: i)
  case (Suc k)
  have "i * base + min i remd + (base + (if i < remd then 1 else 0)) = Suc i * base + min (Suc i) remd"
    by simp
  moreover have "[i..<i + Suc k] = i # [Suc i..<Suc i + k]" by (simp add: upt_conv_Cons)
  ultimately show ?case using Suc [of "Suc i"] by (simp only: row_loop.simps Let_def list.map)
qed simp

lemma row_ranges_eq:
  "row_ranges rows chunks = map (\<lambda>j. (j, row_offset rows chunks j, row_offset rows chunks (Suc j))) [0..<chunks]"
  using row_loop_eq [of "rows div chunks" "rows mod chunks" 0 chunks]
  by (simp add: row_ranges_def row_offset_def)

lemma length_row_ranges [simp]: "length (row_ranges rows chunks) = chunks"
  by (simp add: row_ranges_eq)

lemma row_offset_0 [simp]: "row_offset rows chunks 0 = 0"
  by (simp add: row_offset_def)

lemma row_offset_mono: "i \<le> j \<Longrightarrow> row_offset rows chunks i \<le> row_offset rows chunks j"
  unfolding row_offset_def by (intro add_mono mult_right_mono min.mono) simp_all

lemma row_offset_last:
  assumes "0 < chunks"
  shows "row_offset rows chunks chunks = rows"
proof -
  have "min chunks (rows mod chunks) = rows mod chunks"
    using mod_less_divisor [OF assms, of rows] by simp
  then show ?thesis by (simp add: row_offset_def)
qed

lemma row_offset_le:
  assumes "0 < chunks" and "j \<le> chunks"
  shows "row_offset rows chunks j \<le> rows"
  using row_offset_mono [OF assms(2), of rows chunks] by (simp only: row_offset_last [OF assms(1)])

text \<open>Every chunk gets the base number of rows or one more, and at least one row when there are no
  more chunks than rows.\<close>

lemma row_offset_size:
  "row_offset rows chunks (Suc j) - row_offset rows chunks j =
     rows div chunks + (if j < rows mod chunks then 1 else 0)"
  by (simp add: row_offset_def)

lemma row_offset_strict:
  assumes "0 < chunks" and "chunks \<le> rows"
  shows "row_offset rows chunks j < row_offset rows chunks (Suc j)"
proof -
  have "0 < rows div chunks" using assms by (simp add: div_greater_zero_iff)
  then show ?thesis by (simp add: row_offset_def)
qed

text \<open>Each row lies in exactly one chunk.\<close>

lemma row_in_chunk:
  assumes "0 < chunks" and "r < rows"
  shows "\<exists>!j. j < chunks \<and> row_offset rows chunks j \<le> r \<and> r < row_offset rows chunks (Suc j)"
proof -
  let ?P = "\<lambda>k. k \<le> chunks \<and> row_offset rows chunks k \<le> r"
  let ?j = "Greatest ?P"
  have bound: "\<And>k. ?P k \<Longrightarrow> k \<le> chunks" by simp
  have j: "?P ?j" by (rule GreatestI_nat [of ?P 0 chunks]) simp_all
  have "?j \<noteq> chunks" using j row_offset_last [OF assms(1), of rows] assms(2) by auto
  then have lt: "?j < chunks" using j by simp
  have "r < row_offset rows chunks (Suc ?j)"
  proof (rule ccontr)
    assume "\<not> r < row_offset rows chunks (Suc ?j)"
    then have "?P (Suc ?j)" using lt by simp
    then have "Suc ?j \<le> ?j" by (rule Greatest_le_nat [of ?P _ chunks]) simp
    then show False by simp
  qed
  moreover have "i = j'" if "row_offset rows chunks i \<le> r" "r < row_offset rows chunks (Suc i)"
    "row_offset rows chunks j' \<le> r" "r < row_offset rows chunks (Suc j')" for i j'
  proof (rule ccontr)
    assume "i \<noteq> j'"
    then have "Suc i \<le> j' \<or> Suc j' \<le> i" by linarith
    then show False using that row_offset_mono [of "Suc i" j' rows chunks] row_offset_mono [of "Suc j'" i rows chunks]
      by (auto dest: le_less_trans)
  qed
  ultimately show ?thesis using j lt by blast
qed

subsection \<open>Pasting consecutive pieces\<close>

lemma copy_into_mid:
  "length as + length src \<le> length (as @ bs) \<Longrightarrow>
     copy_into (as @ bs) src (length as) = (as @ src) @ drop (length src) bs"
  by (simp add: copy_into_next)

text \<open>Pieces copied one after the other from an offset on overwrite exactly the bytes they hold, so the
  previous contents of the buffer do not matter.\<close>

fun paste :: "'a list \<Rightarrow> nat \<Rightarrow> 'a list list \<Rightarrow> 'a list" where
  "paste dst off [] = dst"
| "paste dst off (p # ps) = paste (copy_into dst p off) (off + length p) ps"

lemma paste_consecutive:
  "off + length (concat ps) \<le> length dst \<Longrightarrow>
     paste dst off ps = take off dst @ concat ps @ drop (off + length (concat ps)) dst"
proof (induction ps arbitrary: dst off)
  case Nil
  then show ?case by simp
next
  case (Cons p ps)
  have fit: "off + length p \<le> length dst" using Cons.prems by simp
  let ?dst = "copy_into dst p off"
  have cp: "?dst = take off dst @ p @ drop (off + length p) dst" by (rule copy_into_next [OF fit])
  have "length ?dst = length dst" using fit by simp
  moreover have "take (off + length p) ?dst = take off dst @ p"
    using fit by (simp add: cp)
  moreover have "drop (off + length p + n) ?dst = drop (off + length p + n) dst" for n
    using fit by (simp add: cp add.commute)
  ultimately show ?case using Cons by (simp add: add.assoc)
qed

lemma paste_whole: "length (concat ps) = length dst \<Longrightarrow> paste dst 0 ps = concat ps"
  by (simp add: paste_consecutive)

lemma concat_tiles:
  assumes "\<And>j. j < n \<Longrightarrow> off j \<le> off (Suc j)"
  shows "concat (map (\<lambda>j. subarray xs (off j) (off (Suc j))) [0..<n]) = subarray xs (off 0) (off n)"
  using assms
proof (induction n)
  case (Suc n)
  have "off 0 \<le> off n" using Suc.prems by (induction n) (auto intro: le_trans)
  then show ?case using Suc by (simp add: subarray_append)
qed (simp add: subarray_def)

subsection \<open>The interface of a kernel that works by rows\<close>

text \<open>
  \<open>kern n xs\<close> maps \<open>n\<close> rows of \<open>inw\<close> entries to \<open>n\<close> rows of \<open>outw\<close> entries, and a range of its output
  rows only depends on the input rows up to \<open>halo\<close> away: computing on the slice and stripping the
  halo gives the same rows; \<open>ok\<close> says that the parameters of the kernel are sound.  The clients split the rows in chunks and get the whole output back.
\<close>

locale row_local =
  fixes ok :: bool
    and kern :: "nat \<Rightarrow> 'a list \<Rightarrow> 'b list"
    and inw :: nat and outw :: nat and halo :: nat
  assumes kern_length: "ok \<Longrightarrow> 0 < n \<Longrightarrow> length xs = n * inw \<Longrightarrow> length (kern n xs) = n * outw"
    and kern_local: "ok \<Longrightarrow> s < e \<Longrightarrow> e \<le> n \<Longrightarrow> length xs = n * inw \<Longrightarrow>
      lo = s - halo \<Longrightarrow> hi = min n (e + halo) \<Longrightarrow>
      subarray (kern (hi - lo) (subarray xs (lo * inw) (hi * inw)))
        ((s - lo) * outw) ((s - lo) * outw + (e - s) * outw) =
      subarray (kern n xs) (s * outw) (e * outw)"
begin

definition tile :: "nat \<Rightarrow> 'a list \<Rightarrow> nat \<Rightarrow> nat \<Rightarrow> 'b list" where
  "tile n xs s e = (let lo = s - halo; hi = min n (e + halo) in
     subarray (kern (hi - lo) (subarray xs (lo * inw) (hi * inw)))
       ((s - lo) * outw) ((s - lo) * outw + (e - s) * outw))"

lemma tile_eq:
  "ok \<Longrightarrow> s < e \<Longrightarrow> e \<le> n \<Longrightarrow> length xs = n * inw \<Longrightarrow> tile n xs s e = subarray (kern n xs) (s * outw) (e * outw)"
  unfolding tile_def Let_def by (rule kern_local) auto

lemma tiles_concat:
  assumes "ok" and "0 < chunks" and "chunks \<le> n" and "length xs = n * inw"
  shows "concat (map (\<lambda>j. tile n xs (row_offset n chunks j) (row_offset n chunks (Suc j))) [0..<chunks]) =
    kern n xs"
proof -
  let ?off = "\<lambda>j. row_offset n chunks j * outw"
  have "tile n xs (row_offset n chunks j) (row_offset n chunks (Suc j)) =
      subarray (kern n xs) (?off j) (?off (Suc j))" if "j < chunks" for j
    using row_offset_strict [OF assms(2,3)] row_offset_le [OF assms(2), of "Suc j"] that assms(1,4)
    by (intro tile_eq) auto
  then have "map (\<lambda>j. tile n xs (row_offset n chunks j) (row_offset n chunks (Suc j))) [0..<chunks] =
      map (\<lambda>j. subarray (kern n xs) (?off j) (?off (Suc j))) [0..<chunks]" by simp
  then have "concat (map (\<lambda>j. tile n xs (row_offset n chunks j) (row_offset n chunks (Suc j))) [0..<chunks]) =
      subarray (kern n xs) (?off 0) (?off chunks)"
    by (simp only:) (rule concat_tiles, simp add: row_offset_mono)
  moreover have "length (kern n xs) = n * outw" using assms by (intro kern_length) auto
  then have "subarray (kern n xs) 0 (n * outw) = kern n xs" by (metis subarray_full)
  ultimately show ?thesis by (simp only: row_offset_last [OF assms(2)] row_offset_0 mult_0)
qed

end

end
