(* ===== verification/Gemm.thy ===== *)
theory Gemm
  imports Chunking
begin

text \<open>
  The matrix kernel \<open>computeMatrixMultiply\<close> of \<^verbatim>\<open>core/src/simulation_worker.ts\<close> (and, with the same
  loops, of its worker thread): the input holds the float32 entries of $A$ ($M \times K$) and then of
  $B$ ($K \times N$), the output those of $C$.  An entry is its four bytes; the arithmetic
  \<open>out += a * b\<close> on a \<open>Float32Array\<close> is the parameter \<open>mac\<close>, so what is proved holds bit for bit for
  whatever rounding the platform has.  A read past the end gives \<open>undefined\<close>, which the arithmetic
  turns into the bits \<open>fnan\<close>; a write past the end is ignored.
\<close>

type_synonym f32 = "byte \<times> byte \<times> byte \<times> byte"

record f32_ops =
  mac :: "f32 \<Rightarrow> f32 \<Rightarrow> f32 \<Rightarrow> f32"
  fnan :: f32

fun floats_of :: "buffer \<Rightarrow> f32 list" where
  "floats_of (a # b # c # d # xs) = (a, b, c, d) # floats_of xs"
| "floats_of xs = []"

fun f32_bytes :: "f32 \<Rightarrow> buffer" where
  "f32_bytes (a, b, c, d) = [a, b, c, d]"

definition bytes_of :: "f32 list \<Rightarrow> buffer" where
  "bytes_of fs = concat (map f32_bytes fs)"

definition f_at :: "f32_ops \<Rightarrow> f32 list \<Rightarrow> nat \<Rightarrow> f32" where
  "f_at ops xs i = (if i < length xs then xs ! i else fnan ops)"

subsection \<open>The loops\<close>

text \<open>\<open>for (; j <= N - 8; j += 8)\<close> with its eight statements, and the loop over the rest.\<close>

function unrolled :: "nat \<Rightarrow> (nat \<Rightarrow> 's \<Rightarrow> 's) \<Rightarrow> nat \<Rightarrow> 's \<Rightarrow> 's" where
  "unrolled N f j s =
     (if j + 8 \<le> N
      then unrolled N f (j + 8)
             (f (j + 7) (f (j + 6) (f (j + 5) (f (j + 4) (f (j + 3) (f (j + 2) (f (j + 1) (f j s))))))))
      else fold f [j..<N] s)"
  by pat_completeness auto
termination by (relation "measure (\<lambda>(N, f, j, s). N - j)") auto

declare unrolled.simps [simp del]

definition gemm_step ::
  "f32_ops \<Rightarrow> f32 list \<Rightarrow> nat \<Rightarrow> nat \<Rightarrow> nat \<Rightarrow> nat \<Rightarrow> nat \<Rightarrow> nat \<Rightarrow> f32 list \<Rightarrow> f32 list" where
  "gemm_step ops inF M K N i k j out =
     out[i * N + j := mac ops (f_at ops out (i * N + j)) (f_at ops inF (i * K + k))
                        (f_at ops inF (M * K + k * N + j))]"

definition gemm_loops :: "f32_ops \<Rightarrow> f32 list \<Rightarrow> nat \<Rightarrow> nat \<Rightarrow> nat \<Rightarrow> f32 list" where
  "gemm_loops ops inF M K N =
     fold (\<lambda>i. fold (\<lambda>k. unrolled N (gemm_step ops inF M K N i k) 0) [0..<K]) [0..<M]
       (replicate (M * N) (0, 0, 0, 0))"

text \<open>The fallback side \<open>Math.max(1, Math.floor(Math.sqrt(floatCount / 2)))\<close>: the largest \<open>s\<close> with
  \<open>2 * s * s \<le> floatCount\<close>.\<close>

function side_from :: "nat \<Rightarrow> nat \<Rightarrow> nat" where
  "side_from n s = (if 2 * (s + 1) * (s + 1) \<le> n then side_from n (s + 1) else s)"
  by pat_completeness auto
termination
proof (relation "measure (\<lambda>(n, s). n - s)")
  fix n s :: nat assume "2 * (s + 1) * (s + 1) \<le> n"
  moreover have "s < 2 * (s + 1) * (s + 1)" by (simp add: algebra_simps)
  ultimately show "((n, s + 1), (n, s)) \<in> measure (\<lambda>(n, s). n - s)" by simp
qed simp

declare side_from.simps [simp del]

definition computeMatrixMultiply :: "f32_ops \<Rightarrow> buffer \<Rightarrow> int \<Rightarrow> int \<Rightarrow> int \<Rightarrow> buffer" where
  "computeMatrixMultiply ops input M K N =
     (let inF = floats_of input;
          side = max 1 (side_from (length inF) 0)
      in if M \<le> 0 \<or> K \<le> 0 \<or> N \<le> 0 then bytes_of (gemm_loops ops inF side side side)
         else bytes_of (gemm_loops ops inF (nat M) (nat K) (nat N)))"

subsection \<open>What the loops compute\<close>

text \<open>The reference: entry \<open>(i, j)\<close> is the chain of multiply-adds over \<open>k\<close>, starting from zero.\<close>

definition gemm_entry :: "f32_ops \<Rightarrow> f32 list \<Rightarrow> nat \<Rightarrow> nat \<Rightarrow> nat \<Rightarrow> nat \<Rightarrow> nat \<Rightarrow> f32" where
  "gemm_entry ops inF M K N i j =
     fold (\<lambda>k acc. mac ops acc (f_at ops inF (i * K + k)) (f_at ops inF (M * K + k * N + j)))
       [0..<K] (0, 0, 0, 0)"

lemma unrolled_fold: "unrolled N f j s = fold f [j..<N] s"
proof (induction N f j s rule: unrolled.induct)
  case (1 N f j s)
  show ?case
  proof (cases "j + 8 \<le> N")
    case True
    have "[j..<N] = [j..<j + 8] @ [j + 8..<N]" using True upt_add_eq_append [of j "j + 8" "N - (j + 8)"] by simp
    moreover have "[j..<j + 8] = [j, j + 1, j + 2, j + 3, j + 4, j + 5, j + 6, j + 7]"
      by (simp add: upt_rec)
    ultimately show ?thesis using 1 True by (subst unrolled.simps) simp
  next
    case False
    then show ?thesis by (subst unrolled.simps) simp
  qed
qed

text \<open>Updating the entries \<open>c\<close>, ..., \<open>c + n - 1\<close> one after the other.\<close>

lemma fold_update_range:
  assumes "c + n \<le> length out"
  shows "fold (\<lambda>j out. out[c + j := g j (f_at ops out (c + j))]) [0..<n] out =
    map (\<lambda>p. if c \<le> p \<and> p < c + n then g (p - c) (out ! p) else out ! p) [0..<length out]"
  using assms
proof (induction n)
  case 0
  then show ?case by (intro nth_equalityI) auto
next
  case (Suc n)
  then show ?case by (intro nth_equalityI) (auto simp: f_at_def nth_list_update)
qed

lemma gemm_row:
  assumes "i < M" and "length out = M * N"
  shows "fold (\<lambda>k. unrolled N (gemm_step ops inF M K' N i k) 0) [0..<K] out =
    map (\<lambda>p. if p div N = i then fold (\<lambda>k acc. mac ops acc (f_at ops inF (i * K' + k))
           (f_at ops inF (M * K' + k * N + p mod N))) [0..<K] (out ! p) else out ! p) [0..<M * N]"
  using assms(2)
proof (induction K)
  case 0
  then show ?case by (intro nth_equalityI) auto
next
  case (Suc K)
  let ?row = "\<lambda>K p. if p div N = i then fold (\<lambda>k acc. mac ops acc (f_at ops inF (i * K' + k))
           (f_at ops inF (M * K' + k * N + p mod N))) [0..<K] (out ! p) else out ! p"
  have fit: "i * N + N \<le> M * N"
    using assms(1) by (metis Suc_leI add.commute mult_Suc mult_le_mono1)
  have row: "i * N \<le> p \<and> p < i * N + N \<longleftrightarrow> p div N = i" if "p < M * N" for p
  proof -
    have "0 < N" using that by (cases N) auto
    then show ?thesis using div_nat_eqI [of N i p] by (auto simp: add.commute mult.commute dividend_less_times_div)
  qed
  have "fold (\<lambda>k. unrolled N (gemm_step ops inF M K' N i k) 0) [0..<Suc K] out =
      unrolled N (gemm_step ops inF M K' N i K) 0 (map (?row K) [0..<M * N])"
    using Suc by simp
  also have "\<dots> = map (?row (Suc K)) [0..<M * N]"
    unfolding unrolled_fold gemm_step_def
    using fit row
    by (subst fold_update_range) (auto intro!: nth_equalityI simp: modulo_nat_def mult.commute)
  finally show ?case .
qed

lemma gemm_loops_eq:
  "gemm_loops ops inF M K N = map (\<lambda>p. gemm_entry ops inF M K N (p div N) (p mod N)) [0..<M * N]"
proof -
  let ?z = "replicate (M * N) (0, 0, 0, 0) :: f32 list"
  have "fold (\<lambda>i. fold (\<lambda>k. unrolled N (gemm_step ops inF M K N i k) 0) [0..<K]) [0..<m] ?z =
      map (\<lambda>p. if p div N < m then gemm_entry ops inF M K N (p div N) (p mod N) else (0, 0, 0, 0)) [0..<M * N]"
    if "m \<le> M" for m
    using that
  proof (induction m)
    case 0
    then show ?case by (simp add: map_replicate_const)
  next
    case (Suc m)
    then show ?case
      by (simp add: gemm_row) (auto simp: gemm_entry_def)
  qed
  from this [of M] show ?thesis
    unfolding gemm_loops_def by (auto simp: less_mult_imp_div_less mult.commute)
qed

lemma length_gemm_loops [simp]: "length (gemm_loops ops inF M K N) = M * N"
  by (simp add: gemm_loops_eq)

lemma gemm_loops_nth:
  "p < M * N \<Longrightarrow> gemm_loops ops inF M K N ! p = gemm_entry ops inF M K N (p div N) (p mod N)"
  by (simp add: gemm_loops_eq)

subsection \<open>Bytes and entries\<close>

lemma length_floats_of [simp]: "length (floats_of xs) = length xs div 4"
  by (induction xs rule: floats_of.induct) auto

lemma length_f32_bytes [simp]: "length (f32_bytes f) = 4"
  by (cases f) simp

lemma length_bytes_of [simp]: "length (bytes_of fs) = 4 * length fs"
  by (induction fs) (auto simp: bytes_of_def)

lemma floats_of_append:
  "length xs mod 4 = 0 \<Longrightarrow> floats_of (xs @ ys) = floats_of xs @ floats_of ys"
  by (induction xs rule: floats_of.induct) auto

lemma bytes_of_append: "bytes_of (fs @ gs) = bytes_of fs @ bytes_of gs"
  by (simp add: bytes_of_def)

lemma drop_four: "drop (4 + n) (a # b # c # d # xs) = drop n xs"
  by (simp add: numeral_eq_Suc)

lemma take_four: "take (4 + n) (a # b # c # d # xs) = a # b # c # d # take n xs"
  by (simp add: numeral_eq_Suc)

lemma floats_of_drop: "floats_of (drop (4 * i) xs) = drop i (floats_of xs)"
proof (induction i arbitrary: xs)
  case (Suc i)
  then show ?case
    by (cases xs rule: floats_of.cases) (simp_all add: drop_four)
qed simp

lemma floats_of_take: "floats_of (take (4 * i) xs) = take i (floats_of xs)"
proof (induction i arbitrary: xs)
  case (Suc i)
  then show ?case
    by (cases xs rule: floats_of.cases) (simp_all add: take_four)
qed simp

lemma floats_of_subarray: "floats_of (subarray xs (4 * i) (4 * j)) = subarray (floats_of xs) i j"
  by (simp add: subarray_def floats_of_take floats_of_drop flip: diff_mult_distrib2)

lemma subarray_bytes_of: "subarray (bytes_of fs) (4 * i) (4 * j) = bytes_of (subarray fs i j)"
proof -
  have d: "drop (4 * n) (bytes_of fs) = bytes_of (drop n fs)" for n fs
  proof (induction n arbitrary: fs)
    case (Suc n)
    then show ?case by (cases fs) (auto simp: bytes_of_def)
  qed simp
  have t: "take (4 * n) (bytes_of fs) = bytes_of (take n fs)" for n fs
  proof (induction n arbitrary: fs)
    case (Suc n)
    then show ?case by (cases fs) (auto simp: bytes_of_def)
  qed (simp add: bytes_of_def)
  show ?thesis unfolding subarray_def d diff_mult_distrib2 [symmetric] t ..
qed

subsection \<open>The kernel works by rows\<close>

definition gemm_kern :: "f32_ops \<Rightarrow> buffer \<Rightarrow> nat \<Rightarrow> nat \<Rightarrow> nat \<Rightarrow> buffer \<Rightarrow> buffer" where
  "gemm_kern ops b K N n a = computeMatrixMultiply ops (a @ b) (int n) (int K) (int N)"

lemma gemm_kern_eq:
  assumes "0 < n" and "0 < K" and "0 < N" and "length a = n * (K * 4)"
  shows "gemm_kern ops b K N n a = bytes_of (gemm_loops ops (floats_of a @ floats_of b) n K N)"
  using assms by (simp add: gemm_kern_def computeMatrixMultiply_def Let_def floats_of_append)

lemma f_at_append:
  "f_at ops (xs @ ys) i = (if i < length xs then xs ! i else f_at ops ys (i - length xs))"
  by (auto simp: f_at_def nth_append)

lemma fold_cong_upt:
  "(\<And>k acc. k < n \<Longrightarrow> f k acc = g k acc) \<Longrightarrow> fold f [0..<n] z = fold g [0..<n] z"
  by (intro fold_cong) (auto intro: ext)

lemma gemm_entry_slice:
  assumes fa: "length fa = n * K" and "s < e" and "e \<le> n" and "i < e - s"
  shows "gemm_entry ops (subarray fa (s * K) (e * K) @ fb) (e - s) K N i j =
    gemm_entry ops (fa @ fb) n K N (s + i) j"
proof -
  have le: "e * K \<le> n * K" using assms(3) by simp
  have len: "length (subarray fa (s * K) (e * K)) = (e - s) * K"
    by (rule length_subarray_rows [OF assms(3) fa])
  have a: "f_at ops (subarray fa (s * K) (e * K) @ fb) (i * K + k) = f_at ops (fa @ fb) ((s + i) * K + k)"
    if "k < K" for k
  proof -
    have "i * K + k < (e - s) * K"
      using assms(4) that by (metis Suc_leI add.commute mult_Suc mult_le_mono1 nat_add_left_cancel_less order_less_le_trans)
    moreover have "s * K + (i * K + k) < e * K"
      using calculation assms(2) by (simp add: diff_mult_distrib)
    moreover have "s * K + (i * K + k) < n * K"
      using calculation(2) le by (rule order_less_le_trans)
    moreover have "(s + i) * K + k = s * K + (i * K + k)" by (simp add: add_mult_distrib)
    moreover have "e * K \<le> length fa" using le fa by (simp only:)
    ultimately show ?thesis
      using nth_subarray [of "s * K" "i * K + k" "e * K" fa]
      unfolding f_at_append len fa by (simp only: if_True)
  qed
  have b: "f_at ops (subarray fa (s * K) (e * K) @ fb) ((e - s) * K + k * N + j) =
      f_at ops (fa @ fb) (n * K + k * N + j)" for k
    using len fa by (simp add: f_at_append)
  show ?thesis unfolding gemm_entry_def
    by (rule fold_cong_upt) (simp add: a b del: add.assoc)
qed

lemma gemm_slice:
  assumes fa: "length fa = n * K" and "0 < N" and "s < e" and "e \<le> n"
  shows "gemm_loops ops (subarray fa (s * K) (e * K) @ fb) (e - s) K N =
    subarray (gemm_loops ops (fa @ fb) n K N) (s * N) (e * N)"
proof (rule nth_equalityI)
  have le: "e * N \<le> n * N" using assms(4) by simp
  have len: "length (subarray (gemm_loops ops (fa @ fb) n K N) (s * N) (e * N)) = (e - s) * N"
    by (rule length_subarray_rows [OF assms(4)]) simp
  then show "length (gemm_loops ops (subarray fa (s * K) (e * K) @ fb) (e - s) K N) =
      length (subarray (gemm_loops ops (fa @ fb) n K N) (s * N) (e * N))"
    by simp
  fix p assume "p < length (gemm_loops ops (subarray fa (s * K) (e * K) @ fb) (e - s) K N)"
  then have p: "p < (e - s) * N" by simp
  then have row: "p div N < e - s" by (simp add: less_mult_imp_div_less)
  have pe: "s * N + p < e * N" using p assms(3) by (simp add: diff_mult_distrib)
  have "subarray (gemm_loops ops (fa @ fb) n K N) (s * N) (e * N) ! p =
      gemm_entry ops (fa @ fb) n K N (s + p div N) (p mod N)"
  proof -
    have "s * N + p < n * N" using pe le by (rule order_less_le_trans)
    moreover have "e * N \<le> length (gemm_loops ops (fa @ fb) n K N)" using le by (simp only: length_gemm_loops)
    ultimately show ?thesis using assms(2)
      by (simp only: nth_subarray [OF pe] gemm_loops_nth) simp
  qed
  also have "\<dots> = gemm_entry ops (subarray fa (s * K) (e * K) @ fb) (e - s) K N (p div N) (p mod N)"
    using gemm_entry_slice [OF fa assms(3,4) row] by simp
  finally show "gemm_loops ops (subarray fa (s * K) (e * K) @ fb) (e - s) K N ! p =
      subarray (gemm_loops ops (fa @ fb) n K N) (s * N) (e * N) ! p"
    using p by (simp add: gemm_loops_eq)
qed

interpretation gemm: row_local "0 < K \<and> 0 < N" "gemm_kern ops b K N" "K * 4" "N * 4" 0 for ops b K N
proof (unfold_locales, goal_cases)
  case (1 n xs)
  then show ?case by (simp add: gemm_kern_eq)
next
  case (2 s e n xs lo hi)
  have lens: "length (floats_of xs) = n * K" using 2 by simp
  have e: "e * (K * 4) \<le> n * (K * 4)" using 2 by simp
  have sub: "length (subarray xs (s * (K * 4)) (e * (K * 4))) = (e - s) * (K * 4)"
    using 2 by (intro length_subarray_rows) auto
  have fl: "floats_of (subarray xs (s * (K * 4)) (e * (K * 4))) = subarray (floats_of xs) (s * K) (e * K)"
    using floats_of_subarray [of xs "s * K" "e * K"] by (simp add: ac_simps)
  have "gemm_kern ops b K N (e - s) (subarray xs (s * (K * 4)) (e * (K * 4))) =
      bytes_of (subarray (gemm_loops ops (floats_of xs @ floats_of b) n K N) (s * N) (e * N))"
    using 2 sub lens by (simp add: gemm_kern_eq fl gemm_slice)
  also have "\<dots> = subarray (gemm_kern ops b K N n xs) (s * (N * 4)) (e * (N * 4))"
    using 2 subarray_bytes_of [of "gemm_loops ops (floats_of xs @ floats_of b) n K N" "s * N" "e * N"]
    by (simp add: gemm_kern_eq ac_simps)
  finally have eq: "gemm_kern ops b K N (e - s) (subarray xs (s * (K * 4)) (e * (K * 4))) =
      subarray (gemm_kern ops b K N n xs) (s * (N * 4)) (e * (N * 4))" .
  have "length (gemm_kern ops b K N (e - s) (subarray xs (s * (K * 4)) (e * (K * 4)))) = (e - s) * (N * 4)"
    using 2 sub by (simp add: gemm_kern_eq)
  then have "subarray (gemm_kern ops b K N (e - s) (subarray xs (s * (K * 4)) (e * (K * 4)))) 0 ((e - s) * (N * 4)) =
      gemm_kern ops b K N (e - s) (subarray xs (s * (K * 4)) (e * (K * 4)))"
    by (metis subarray_full)
  then show ?case using 2 eq by simp
qed

end
