(* ===== verification/Matrix_Chunks.thy ===== *)
theory Matrix_Chunks
  imports Gemm
begin

text \<open>
  \<open>MatrixChunkEngine\<close> of \<^verbatim>\<open>core/src/chunk_engine.ts\<close>: rows of $A$ are split over chunks, each chunk
  carries its rows and the whole of $B$, and the results are validated and pasted together in any
  arrival order.  All numbers are the source's; the contents of \<open>allocUnsafe\<close> memory are the parameter
  \<open>mem\<close>.
\<close>

subsection \<open>Data\<close>

record matrix_chunk_metadata =
  mm_parentWorkloadId :: string
  mm_chunkIndex :: int
  mm_totalChunks :: int
  mm_rowStart :: int
  mm_rowEnd :: int
  mm_rowCount :: int
  mm_M :: int
  mm_K :: int
  mm_N :: int
  mm_dtype :: string
  mm_inputBytes :: int
  mm_outputBytes :: int

record matrix_chunk_spec =
  ms_metadata :: matrix_chunk_metadata
  ms_payload :: buffer

record matrix_chunk_result =
  mr_parentWorkloadId :: string
  mr_chunkIndex :: int
  mr_totalChunks :: int
  mr_rowStart :: int
  mr_rowEnd :: int
  mr_rowCount :: int
  mr_M :: int
  mr_K :: int
  mr_N :: int
  mr_outputBuffer :: buffer
  mr_workerId :: "string option"
  mr_executionTimeMs :: "int option"

subsection \<open>Partition\<close>

definition matrix_spec ::
  "string \<Rightarrow> int \<Rightarrow> int \<Rightarrow> int \<Rightarrow> int \<Rightarrow> buffer \<Rightarrow> buffer \<Rightarrow> nat \<times> nat \<times> nat \<Rightarrow> matrix_chunk_spec" where
  "matrix_spec parentWorkloadId M K N actualChunks aBuffer bBuffer r =
     (case r of (i, rs, re) \<Rightarrow>
        let rowStart = int rs; rowEnd = int re; chunkRowCount = rowEnd - rowStart;
            aOffset = rowStart * K * 4;
            aChunkBytes = chunkRowCount * K * 4;
            payload = js_subarray aBuffer aOffset (aOffset + aChunkBytes) @ bBuffer
        in \<lparr>ms_metadata = \<lparr>mm_parentWorkloadId = parentWorkloadId, mm_chunkIndex = int i,
              mm_totalChunks = actualChunks, mm_rowStart = rowStart, mm_rowEnd = rowEnd,
              mm_rowCount = chunkRowCount, mm_M = M, mm_K = K, mm_N = N, mm_dtype = ''FLOAT32'',
              mm_inputBytes = int (length payload), mm_outputBytes = chunkRowCount * N * 4\<rparr>,
            ms_payload = payload\<rparr>)"

definition partitionMatrixMultiply ::
  "string \<Rightarrow> int \<Rightarrow> int \<Rightarrow> int \<Rightarrow> int \<Rightarrow> buffer \<Rightarrow> buffer \<Rightarrow> chunk_error + matrix_chunk_spec list" where
  "partitionMatrixMultiply parentWorkloadId M K N totalChunks aBuffer bBuffer =
     (if M \<le> 0 \<or> K \<le> 0 \<or> N \<le> 0 then Inl InvalidDimensions
      else if totalChunks \<le> 0 then Inl InvalidTotalChunks
      else
        (let actualChunks = min totalChunks M
         in if int (length aBuffer) \<noteq> M * K * 4 then Inl InvalidBufferLength
            else if int (length bBuffer) \<noteq> K * N * 4 then Inl InvalidBufferLength
            else Inr (map (matrix_spec parentWorkloadId M K N actualChunks aBuffer bBuffer)
                        (row_ranges (nat M) (nat actualChunks)))))"

subsection \<open>Reassembly\<close>

fun check_matrix ::
  "string \<Rightarrow> int \<Rightarrow> int \<Rightarrow> int \<Rightarrow> int \<Rightarrow> int list \<Rightarrow> int \<Rightarrow> matrix_chunk_result list \<Rightarrow> chunk_error + int" where
  "check_matrix wid M K N i seenIndices expectedNextRow [] = Inr expectedNextRow"
| "check_matrix wid M K N i seenIndices expectedNextRow (chunk # rest) =
     (if mr_parentWorkloadId chunk \<noteq> wid then Inl MismatchedWorkload
      else if mr_M chunk \<noteq> M \<or> mr_K chunk \<noteq> K \<or> mr_N chunk \<noteq> N
      then Inl (DimensionMismatch (mr_chunkIndex chunk))
      else if mr_chunkIndex chunk \<in> set seenIndices then Inl (DuplicateChunk (mr_chunkIndex chunk))
      else if mr_chunkIndex chunk \<noteq> i then Inl (MissingChunk i (mr_chunkIndex chunk))
      else if mr_rowStart chunk \<noteq> expectedNextRow
      then Inl (if mr_rowStart chunk < expectedNextRow then RowOverlap (mr_chunkIndex chunk)
                else RowGap (mr_chunkIndex chunk))
      else if mr_rowCount chunk \<noteq> mr_rowEnd chunk - mr_rowStart chunk
      then Inl (InconsistentRowCount (mr_chunkIndex chunk))
      else if int (length (mr_outputBuffer chunk)) \<noteq> mr_rowCount chunk * N * 4
      then Inl (WrongOutputBytes (mr_chunkIndex chunk))
      else check_matrix wid M K N (i + 1) (seenIndices @ [mr_chunkIndex chunk]) (mr_rowEnd chunk) rest)"

fun copy_matrix :: "int \<Rightarrow> matrix_chunk_result list \<Rightarrow> buffer \<Rightarrow> chunk_error + buffer" where
  "copy_matrix N [] finalBuffer = Inr finalBuffer"
| "copy_matrix N (chunk # rest) finalBuffer =
     (case js_copy finalBuffer (mr_outputBuffer chunk) (mr_rowStart chunk * N * 4) of
        None \<Rightarrow> Inl RangeError
      | Some b \<Rightarrow> copy_matrix N rest b)"

definition assembleMatrixChunks ::
  "(nat \<Rightarrow> byte) \<Rightarrow> string \<Rightarrow> int \<Rightarrow> int \<Rightarrow> int \<Rightarrow> matrix_chunk_result list \<Rightarrow> chunk_error + buffer" where
  "assembleMatrixChunks mem parentWorkloadId M K N results =
     (case results of
        [] \<Rightarrow> Inl NoChunks
      | first # _ \<Rightarrow>
          if int (length results) \<noteq> mr_totalChunks first then Inl IncompleteChunks
          else
            (let sorted = sort_key mr_chunkIndex results
             in case check_matrix parentWorkloadId M K N 0 [] 0 sorted of
                  Inl e \<Rightarrow> Inl e
                | Inr expectedNextRow \<Rightarrow>
                    if expectedNextRow \<noteq> M then Inl IncompleteCoverage
                    else
                      (case alloc_unsafe mem (M * N * 4) of
                         None \<Rightarrow> Inl RangeError
                       | Some finalBuffer \<Rightarrow> copy_matrix N sorted finalBuffer)))"

text \<open>The result record the dispatcher of \<^verbatim>\<open>core/src/ipc_server.ts\<close> builds from a chunk and the buffer a
  worker returned for it.\<close>

definition matrix_result :: "matrix_chunk_spec \<Rightarrow> buffer \<Rightarrow> string \<Rightarrow> int \<Rightarrow> matrix_chunk_result" where
  "matrix_result spec outputBuf targetWorkerId executionTimeMs =
     (let m = ms_metadata spec
      in \<lparr>mr_parentWorkloadId = mm_parentWorkloadId m, mr_chunkIndex = mm_chunkIndex m,
          mr_totalChunks = mm_totalChunks m, mr_rowStart = mm_rowStart m, mr_rowEnd = mm_rowEnd m,
          mr_rowCount = mm_rowCount m, mr_M = mm_M m, mr_K = mm_K m, mr_N = mm_N m,
          mr_outputBuffer = outputBuf, mr_workerId = Some targetWorkerId,
          mr_executionTimeMs = Some executionTimeMs\<rparr>)"

subsection \<open>When reassembly succeeds\<close>

text \<open>The results, in index order, tile the rows from \<open>r\<close> on, starting with index \<open>i\<close>.\<close>

fun tiles_rows :: "string \<Rightarrow> int \<Rightarrow> int \<Rightarrow> int \<Rightarrow> int \<Rightarrow> int \<Rightarrow> matrix_chunk_result list \<Rightarrow> bool" where
  "tiles_rows wid M K N i r [] \<longleftrightarrow> r = M"
| "tiles_rows wid M K N i r (c # cs) \<longleftrightarrow>
     mr_parentWorkloadId c = wid \<and> mr_M c = M \<and> mr_K c = K \<and> mr_N c = N \<and>
     mr_chunkIndex c = i \<and> mr_rowStart c = r \<and> mr_rowCount c = mr_rowEnd c - r \<and>
     int (length (mr_outputBuffer c)) = mr_rowCount c * N * 4 \<and>
     tiles_rows wid M K N (i + 1) (mr_rowEnd c) cs"

lemma check_matrix_iff:
  assumes "\<forall>k\<in>set seen. k < i"
  shows "check_matrix wid M K N i seen r cs = Inr M \<longleftrightarrow> tiles_rows wid M K N i r cs"
  using assms
proof (induction cs arbitrary: i seen r)
  case (Cons c cs)
  have "mr_chunkIndex c \<notin> set seen" if "mr_chunkIndex c = i"
    using Cons.prems that by auto
  moreover have "check_matrix wid M K N (i + 1) (seen @ [i]) (mr_rowEnd c) cs = Inr M \<longleftrightarrow>
      tiles_rows wid M K N (i + 1) (mr_rowEnd c) cs"
    using Cons.prems by (intro Cons.IH) auto
  ultimately show ?case by auto
qed simp

lemma copy_matrix_paste:
  assumes "0 < N" and "0 \<le> r" and "tiles_rows wid M K N i r cs" and "off = nat (r * N * 4)"
  shows "copy_matrix N cs buf = Inr (paste buf off (map mr_outputBuffer cs)) \<and>
    int (length (concat (map mr_outputBuffer cs))) = (M - r) * N * 4"
  using assms(2-)
proof (induction cs arbitrary: i r buf off)
  case Nil
  then show ?case by simp
next
  case (Cons c cs)
  then have c: "mr_rowStart c = r" "int (length (mr_outputBuffer c)) = (mr_rowEnd c - r) * N * 4"
    and rest: "tiles_rows wid M K N (i + 1) (mr_rowEnd c) cs" by auto
  have le: "0 \<le> (mr_rowEnd c - r) * N * 4" unfolding c(2) [symmetric] by simp
  then have "0 \<le> (mr_rowEnd c - r) * N" by linarith
  then have "r \<le> mr_rowEnd c" using assms(1) by (simp add: zero_le_mult_iff)
  then have "0 \<le> mr_rowEnd c" using Cons.prems(1) by simp
  have rN: "0 \<le> r * N * 4" using Cons.prems(1) assms(1) by simp
  have off: "off + length (mr_outputBuffer c) = nat (mr_rowEnd c * N * 4)"
  proof -
    have "int (off + length (mr_outputBuffer c)) = mr_rowEnd c * N * 4"
      using c(2) rN Cons.prems(3) by (simp add: algebra_simps)
    then show ?thesis by simp
  qed
  have "js_copy buf (mr_outputBuffer c) (mr_rowStart c * N * 4) =
      Some (copy_into buf (mr_outputBuffer c) off)"
    using rN c(1) Cons.prems(3) by (simp add: js_copy_def)
  moreover note Cons.IH [OF \<open>0 \<le> mr_rowEnd c\<close> rest off, of "copy_into buf (mr_outputBuffer c) off"]
  ultimately show ?case using c(2) by (simp add: algebra_simps)
qed

text \<open>Reassembly succeeds exactly on a complete tiling, and then returns the pieces in row order,
  whatever was in the memory.\<close>

lemma assemble_iff:
  assumes "0 < N"
  shows "assembleMatrixChunks mem wid M K N results = Inr buf \<longleftrightarrow>
    results \<noteq> [] \<and> mr_totalChunks (hd results) = int (length results) \<and>
    tiles_rows wid M K N 0 0 (sort_key mr_chunkIndex results) \<and>
    buf = concat (map mr_outputBuffer (sort_key mr_chunkIndex results))"
proof (cases results)
  case Nil
  then show ?thesis by (simp add: assembleMatrixChunks_def)
next
  case (Cons c cs)
  let ?s = "sort_key mr_chunkIndex results"
  have chk: "check_matrix wid M K N 0 [] 0 ?s = Inr M \<longleftrightarrow> tiles_rows wid M K N 0 0 ?s"
    by (rule check_matrix_iff) simp
  show ?thesis
  proof (cases "tiles_rows wid M K N 0 0 ?s")
    case False
    then have "\<forall>n. check_matrix wid M K N 0 [] 0 ?s = Inr n \<longrightarrow> n \<noteq> M" using chk by auto
    then show ?thesis using False Cons
      by (auto simp: assembleMatrixChunks_def Let_def split: sum.splits)
  next
    case True
    note copy = copy_matrix_paste [OF assms order_refl True, of 0, simplified]
    have size: "int (length (concat (map mr_outputBuffer ?s))) = M * N * 4" using copy by simp
    then have "0 \<le> M * N * 4" by (metis of_nat_0_le_iff)
    then obtain fb where fb: "alloc_unsafe mem (M * N * 4) = Some fb" "int (length fb) = M * N * 4"
      by (simp add: alloc_unsafe_def)
    have "length (concat (map mr_outputBuffer ?s)) = length fb"
      using size fb(2) by (metis of_nat_eq_iff)
    then have "copy_matrix N ?s fb = Inr (concat (map mr_outputBuffer ?s))"
      using copy [of fb] paste_whole by metis
    then show ?thesis using True Cons chk fb
      by (auto simp: assembleMatrixChunks_def Let_def)
  qed
qed

end
