(* ===== verification/Matrix_Theorems.thy ===== *)
theory Matrix_Theorems
  imports Matrix_Chunks
begin

text \<open>
  The properties of the matrix chunk engine: the partition covers every row once and evenly,
  reassembly accepts exactly complete tilings, and the distributed product is the local one bit for
  bit, whatever the arrival order and the rounding of the platform.
\<close>

subsection \<open>The partition\<close>

lemma partition_specs:
  assumes "partitionMatrixMultiply wid M K N chunks a b = Inr specs"
  shows "0 < M" "0 < K" "0 < N" "0 < min chunks M"
    "int (length a) = M * K * 4" "int (length b) = K * N * 4"
    "specs = map (matrix_spec wid M K N (min chunks M) a b) (row_ranges (nat M) (nat (min chunks M)))"
  using assms by (auto simp: partitionMatrixMultiply_def Let_def split: if_splits)

lemma length_A:
  assumes "partitionMatrixMultiply wid M K N chunks a b = Inr specs"
  shows "length a = nat M * (nat K * 4)"
proof -
  have "int (length a) = int (nat M * (nat K * 4))"
    using partition_specs(1,2,5) [OF assms] by simp
  then show ?thesis by (simp only: of_nat_eq_iff)
qed

lemma partition_payload:
  assumes "partitionMatrixMultiply wid M K N chunks a b = Inr specs" and "j < length specs"
  shows "ms_payload (specs ! j) = subarray a (row_offset (nat M) (length specs) j * (nat K * 4))
    (row_offset (nat M) (length specs) (Suc j) * (nat K * 4)) @ b"
proof -
  note p = partition_specs [OF assms(1)]
  let ?n = "nat (min chunks M)"
  let ?off = "row_offset (nat M) ?n"
  have n: "0 < ?n" "?n \<le> nat M" using p(1,4) by auto
  have len: "length specs = ?n" using p(7) by simp
  have j: "j < ?n" using assms(2) len by simp
  have lt: "?off j < ?off (Suc j)" by (rule row_offset_strict [OF n])
  have le: "?off (Suc j) \<le> nat M" using j by (intro row_offset_le [OF n(1)]) simp
  have "js_subarray a (int (?off j) * K * 4)
      (int (?off j) * K * 4 + (int (?off (Suc j)) - int (?off j)) * K * 4) =
    js_subarray a (int (?off j * (nat K * 4))) (int (?off (Suc j) * (nat K * 4)))"
    using p(2) by (simp add: algebra_simps)
  also have "\<dots> = subarray a (?off j * (nat K * 4)) (?off (Suc j) * (nat K * 4))"
    using le lt by (intro js_subarray_nat) (auto simp: length_A [OF assms(1)] intro: mult_le_mono1)
  finally show ?thesis unfolding len
    using j by (simp add: p(7) row_ranges_eq matrix_spec_def Let_def)
qed

text \<open>Every row of $A$ lies in exactly one chunk; the chunks differ in size by at most one row, the
  larger ones first; no chunk is empty; and the payload of a chunk is its rows of $A$ followed by $B$.\<close>

theorem partition_covers:
  assumes "partitionMatrixMultiply wid M K N chunks a b = Inr specs"
  shows "int (length specs) = min chunks M \<and>
    (\<forall>r. 0 \<le> r \<and> r < M \<longrightarrow> (\<exists>!j. j < length specs \<and>
       mm_rowStart (ms_metadata (specs ! j)) \<le> r \<and> r < mm_rowEnd (ms_metadata (specs ! j)))) \<and>
    (\<forall>j<length specs. let m = ms_metadata (specs ! j) in
       mm_chunkIndex m = int j \<and>
       mm_rowCount m = M div min chunks M + (if int j < M mod min chunks M then 1 else 0) \<and>
       0 < mm_rowCount m \<and>
       ms_payload (specs ! j) =
         subarray a (nat (mm_rowStart m) * (nat K * 4)) (nat (mm_rowEnd m) * (nat K * 4)) @ b)"
proof -
  note p = partition_specs [OF assms]
  let ?n = "nat (min chunks M)"
  let ?off = "row_offset (nat M) ?n"
  have n: "0 < ?n" "?n \<le> nat M" "int ?n = min chunks M" using p(1,4) by auto
  have len: "length specs = ?n" using p(7) by simp
  have spec: "specs ! j = matrix_spec wid M K N (min chunks M) a b (j, ?off j, ?off (Suc j))"
    if "j < ?n" for j using that by (simp add: p(7) row_ranges_eq)
  have rows: "mm_rowStart (ms_metadata (specs ! j)) = int (?off j) \<and>
      mm_rowEnd (ms_metadata (specs ! j)) = int (?off (Suc j))" if "j < ?n" for j
    by (simp add: spec [OF that] matrix_spec_def Let_def)
  have cover: "\<exists>!j. j < length specs \<and>
      mm_rowStart (ms_metadata (specs ! j)) \<le> r \<and> r < mm_rowEnd (ms_metadata (specs ! j))"
    if "0 \<le> r" "r < M" for r
  proof -
    have "nat r < nat M" using that by simp
    moreover have "j < length specs \<and> mm_rowStart (ms_metadata (specs ! j)) \<le> r \<and>
        r < mm_rowEnd (ms_metadata (specs ! j)) \<longleftrightarrow>
      j < ?n \<and> ?off j \<le> nat r \<and> nat r < ?off (Suc j)" for j
    proof (cases "j < ?n")
      case True
      have "int (?off j) \<le> r \<longleftrightarrow> ?off j \<le> nat r" "r < int (?off (Suc j)) \<longleftrightarrow> nat r < ?off (Suc j)"
        using that by linarith+
      then show ?thesis using rows [OF True] len by simp
    qed (simp add: len)
    ultimately show ?thesis using row_in_chunk [OF n(1)] by simp
  qed
  have one: "let m = ms_metadata (specs ! j) in
       mm_chunkIndex m = int j \<and>
       mm_rowCount m = M div min chunks M + (if int j < M mod min chunks M then 1 else 0) \<and>
       0 < mm_rowCount m \<and>
       ms_payload (specs ! j) =
         subarray a (nat (mm_rowStart m) * (nat K * 4)) (nat (mm_rowEnd m) * (nat K * 4)) @ b"
    if j: "j < ?n" for j
  proof -
    have lt: "?off j < ?off (Suc j)" by (rule row_offset_strict [OF n(1,2)])
    have le: "?off (Suc j) \<le> nat M" using j by (intro row_offset_le [OF n(1)]) simp
    have "int (?off (Suc j) - ?off j) = int (nat M div ?n) + (if j < nat M mod ?n then 1 else 0)"
      unfolding row_offset_size by simp
    also have "int (nat M div ?n) = M div min chunks M"
      unfolding zdiv_int n(3) using p(1) by simp
    also have "j < nat M mod ?n \<longleftrightarrow> int j < M mod min chunks M"
    proof -
      have "int (nat M mod ?n) = M mod min chunks M"
        unfolding zmod_int n(3) using p(1) by simp
      then show ?thesis by (metis of_nat_less_iff)
    qed
    finally have cnt: "int (?off (Suc j)) - int (?off j) =
        M div min chunks M + (if int j < M mod min chunks M then 1 else 0)"
      using lt by (simp add: of_nat_diff)
    have pay: "ms_payload (specs ! j) =
        subarray a (?off j * (nat K * 4)) (?off (Suc j) * (nat K * 4)) @ b"
      using partition_payload [OF assms, of j] j by (simp add: len)
    have "mm_rowCount (ms_metadata (specs ! j)) = int (?off (Suc j)) - int (?off j)"
      "mm_chunkIndex (ms_metadata (specs ! j)) = int j"
      by (simp_all add: spec [OF j] matrix_spec_def Let_def)
    then show ?thesis using cnt pay rows [OF j] lt by (simp add: Let_def)
  qed
  show ?thesis using cover one len n(3) by simp
qed

definition demo_a :: buffer where
  "demo_a = replicate 8 1 @ replicate 8 2 @ replicate 8 3"

definition demo_b :: buffer where
  "demo_b = replicate 8 4"

text \<open>Arithmetic for the witnesses: any function on the bytes of an entry will do.\<close>

definition demo_ops :: f32_ops where
  "demo_ops = \<lparr>mac = (\<lambda>(a1, a2, a3, a4) (b1, b2, b3, b4) (c1, c2, c3, c4).
     (a1 + b1 * c1, a2 + b2 * c2, a3 + b3 * c3, a4 + b4 * c4)), fnan = (0, 0, 192, 127)\<rparr>"

theorem partition_covers_witness:
  "\<exists>specs. partitionMatrixMultiply ''w'' 3 2 1 2 demo_a demo_b = Inr specs \<and>
     (\<exists>!j. j < length specs \<and> mm_rowStart (ms_metadata (specs ! j)) \<le> 2 \<and>
        2 < mm_rowEnd (ms_metadata (specs ! j)))"
proof -
  obtain specs where s: "partitionMatrixMultiply ''w'' 3 2 1 2 demo_a demo_b = Inr specs"
    by (cases "partitionMatrixMultiply ''w'' 3 2 1 2 demo_a demo_b") (code_simp, auto)
  from partition_covers [OF s]
  have "\<forall>r. 0 \<le> r \<and> r < 3 \<longrightarrow> (\<exists>!j. j < length specs \<and>
      mm_rowStart (ms_metadata (specs ! j)) \<le> r \<and> r < mm_rowEnd (ms_metadata (specs ! j)))"
    by (elim conjE)
  then have "0 \<le> (2::int) \<and> (2::int) < 3 \<longrightarrow> (\<exists>!j. j < length specs \<and>
      mm_rowStart (ms_metadata (specs ! j)) \<le> 2 \<and> 2 < mm_rowEnd (ms_metadata (specs ! j)))"
    by (rule spec)
  with s show ?thesis by simp
qed

subsection \<open>Reassembly\<close>

text \<open>Reassembly is exact: it succeeds if and only if the results, sorted by index, tile the rows of
  the matrix from the first to the last without gap, overlap, duplicate or foreign chunk and with
  buffers of the right length; the output is then the concatenation of the buffers in row order, and
  no byte of the uninitialised allocation shows through.\<close>

theorem assembleMatrixChunks_exact:
  assumes "0 < N"
  shows "assembleMatrixChunks mem wid M K N results = Inr buf \<longleftrightarrow>
    results \<noteq> [] \<and> mr_totalChunks (hd results) = int (length results) \<and>
    tiles_rows wid M K N 0 0 (sort_key mr_chunkIndex results) \<and>
    buf = concat (map mr_outputBuffer (sort_key mr_chunkIndex results))"
  using assms by (rule assemble_iff)

definition demo_result :: "int \<Rightarrow> buffer \<Rightarrow> matrix_chunk_result" where
  "demo_result i b = \<lparr>mr_parentWorkloadId = ''w'', mr_chunkIndex = i, mr_totalChunks = 2,
     mr_rowStart = i, mr_rowEnd = i + 1, mr_rowCount = 1, mr_M = 2, mr_K = 1, mr_N = 1,
     mr_outputBuffer = b, mr_workerId = None, mr_executionTimeMs = None\<rparr>"

theorem assembleMatrixChunks_exact_witness:
  "assembleMatrixChunks (\<lambda>_. 255) ''w'' 2 1 1 [demo_result 1 [5, 6, 7, 8], demo_result 0 [1, 2, 3, 4]] =
     Inr [1, 2, 3, 4, 5, 6, 7, 8]"
proof -
  have "sort_key mr_chunkIndex [demo_result 1 [5, 6, 7, 8], demo_result 0 [1, 2, 3, 4]] =
      [demo_result 0 [1, 2, 3, 4], demo_result 1 [5, 6, 7, 8]]"
    by (simp add: demo_result_def)
  then show ?thesis
    using assembleMatrixChunks_exact [of 1 "\<lambda>_. 255" "''w''" 2 1
        "[demo_result 1 [5, 6, 7, 8], demo_result 0 [1, 2, 3, 4]]" "[1, 2, 3, 4, 5, 6, 7, 8]"]
    by (simp add: demo_result_def)
qed

subsection \<open>Distributed and local product agree\<close>

text \<open>What a worker computes for a chunk: the matrix kernel on its payload with its row count.\<close>

definition run_chunk :: "f32_ops \<Rightarrow> matrix_chunk_spec \<Rightarrow> buffer" where
  "run_chunk ops spec = (let m = ms_metadata spec in
     computeMatrixMultiply ops (ms_payload spec) (mm_rowCount m) (mm_K m) (mm_N m))"

lemma tiles_rows_specs:
  assumes "0 < N" and "\<And>j. i \<le> j \<Longrightarrow> j < n \<Longrightarrow> off j \<le> off (Suc j)"
    and "\<And>j. i \<le> j \<Longrightarrow> j < n \<Longrightarrow> length (out j) = (off (Suc j) - off j) * (nat N * 4)" and "int (off n) = M"
    and "i \<le> n"
  shows "tiles_rows wid M K N (int i) (int (off i))
    (map (\<lambda>j. matrix_result (matrix_spec wid M K N nc a b (j, off j, off (Suc j))) (out j) (w j) (t j)) [i..<n])"
  using assms(2-)
proof (induction "n - i" arbitrary: i)
  case 0
  then show ?case by simp
next
  case (Suc d)
  then have lt: "i < n" by simp
  have "int (length (out i)) = (int (off (Suc i)) - int (off i)) * N * 4"
    using Suc.prems(1,2) [of i] lt assms(1) by (simp add: of_nat_diff)
  moreover have "tiles_rows wid M K N (int (Suc i)) (int (off (Suc i)))
     (map (\<lambda>j. matrix_result (matrix_spec wid M K N nc a b (j, off j, off (Suc j))) (out j) (w j) (t j)) [Suc i..<n])"
    using Suc lt by (intro Suc.hyps(1)) auto
  ultimately show ?case
    using lt by (simp add: upt_conv_Cons [OF lt] matrix_result_def matrix_spec_def Let_def add.commute)
qed

text \<open>The distributed product is the local one: split $A$ over any number of chunks, let every worker
  run the kernel on its payload, let the results arrive in any order and from any workers; reassembly
  succeeds and returns, bit for bit, what the kernel returns for the whole of $A$ and $B$ - for every
  float arithmetic.\<close>

theorem distributed_gemm:
  assumes "partitionMatrixMultiply wid M K N chunks a b = Inr specs"
    and "mset results = mset (map (\<lambda>s. matrix_result s (run_chunk ops s) (w s) (t s)) specs)"
  shows "assembleMatrixChunks mem wid M K N results = Inr (computeMatrixMultiply ops (a @ b) M K N)"
proof -
  note p = partition_specs [OF assms(1)]
  define n where "n = nat (min chunks M)"
  define off where "off = row_offset (nat M) n"
  define spec where "spec = (\<lambda>j. matrix_spec wid M K N (min chunks M) a b (j, off j, off (Suc j)))"
  define res where "res = (\<lambda>j. matrix_result (spec j) (run_chunk ops (spec j)) (w (spec j)) (t (spec j)))"
  have n: "0 < n" "n \<le> nat M" "int n = min chunks M" using p(1,4) by (auto simp: n_def)
  have specs: "specs = map spec [0..<n]"
    using p(7) by (simp add: row_ranges_eq n_def off_def spec_def)
  have idx: "map mr_chunkIndex (map res [0..<n]) = map int [0..<n]"
    by (simp add: res_def spec_def matrix_result_def matrix_spec_def Let_def)
  have sorted: "sort_key mr_chunkIndex results = map res [0..<n]"
  proof (rule sort_key_permuted)
    show "mset results = mset (map res [0..<n])" using assms(2) by (simp add: specs res_def comp_def)
    show "sorted (map mr_chunkIndex (map res [0..<n]))" unfolding idx by (simp add: sorted_map sorted_wrt_upt)
    show "distinct (map mr_chunkIndex (map res [0..<n]))" unfolding idx by (simp add: distinct_map)
  qed
  note lenA = length_A [OF assms(1)]
  have out: "run_chunk ops (spec j) = gemm.tile ops b (nat K) (nat N) (nat M) a (off j) (off (Suc j)) \<and>
      length (run_chunk ops (spec j)) = (off (Suc j) - off j) * (nat N * 4)" if j: "j < n" for j
  proof -
    have cov: "ms_payload (spec j) =
        subarray a (off j * (nat K * 4)) (off (Suc j) * (nat K * 4)) @ b"
      using partition_payload [OF assms(1), of j] j by (simp add: specs off_def)
    have lt: "off j < off (Suc j)" unfolding off_def by (rule row_offset_strict [OF n(1,2)])
    have le: "off (Suc j) \<le> nat M" unfolding off_def using j by (intro row_offset_le [OF n(1)]) simp
    have run: "run_chunk ops (spec j) = gemm_kern ops b (nat K) (nat N) (off (Suc j) - off j)
        (subarray a (off j * (nat K * 4)) (off (Suc j) * (nat K * 4)))"
      using p(2,3) lt unfolding run_chunk_def gemm_kern_def cov
      by (simp add: spec_def matrix_spec_def Let_def of_nat_diff)
    have len: "length (run_chunk ops (spec j)) = (off (Suc j) - off j) * (nat N * 4)"
      unfolding run using p(2,3) lt length_subarray_rows [OF le lenA] by (intro gemm.kern_length) auto
    have "gemm.tile ops b (nat K) (nat N) (nat M) a (off j) (off (Suc j)) =
        subarray (run_chunk ops (spec j)) 0 ((off (Suc j) - off j) * (nat N * 4))"
      using le by (simp add: gemm.tile_def Let_def run min_absorb2)
    then show ?thesis using len by (metis subarray_full)
  qed
  have tiles: "tiles_rows wid M K N 0 0 (map res [0..<n])"
  proof -
    have "tiles_rows wid M K N (int 0) (int (off 0)) (map (\<lambda>j. matrix_result
        (matrix_spec wid M K N (min chunks M) a b (j, off j, off (Suc j)))
        (run_chunk ops (spec j)) (w (spec j)) (t (spec j))) [0..<n])"
    proof (rule tiles_rows_specs [OF p(3)])
      show "int (off n) = M" using p(1) row_offset_last [OF n(1), of "nat M"] by (simp add: off_def)
      show "off j \<le> off (Suc j)" for j unfolding off_def by (rule row_offset_mono) simp
      show "length (run_chunk ops (spec j)) = (off (Suc j) - off j) * (nat N * 4)" if "j < n" for j
        using out [OF that] by blast
    qed simp
    moreover have "off 0 = 0" by (simp add: off_def)
    ultimately show ?thesis by (simp add: res_def spec_def)
  qed
  have "concat (map mr_outputBuffer (map res [0..<n])) =
      concat (map (\<lambda>j. gemm.tile ops b (nat K) (nat N) (nat M) a (off j) (off (Suc j))) [0..<n])"
    using out by (intro arg_cong [where f = concat]) (simp add: res_def matrix_result_def Let_def)
  also have "\<dots> = gemm_kern ops b (nat K) (nat N) (nat M) a"
    unfolding off_def using p(2,3) n lenA by (intro gemm.tiles_concat) auto
  also have "\<dots> = computeMatrixMultiply ops (a @ b) M K N"
    using p(1-3) by (simp add: gemm_kern_def)
  finally have whole: "computeMatrixMultiply ops (a @ b) M K N = concat (map mr_outputBuffer (map res [0..<n]))" ..
  have size: "size (mset results) = n" using assms(2) by (simp add: specs)
  have ne: "results \<noteq> []" using size n(1) by auto
  have "hd results \<in> set (sort_key mr_chunkIndex results)" using ne by simp
  then have "mr_totalChunks (hd results) = int n"
    unfolding sorted by (auto simp: res_def spec_def matrix_result_def matrix_spec_def Let_def n(3))
  then show ?thesis
    using assemble_iff [OF p(3)] sorted tiles whole ne size by simp
qed

theorem distributed_gemm_witness:
  "\<exists>specs. partitionMatrixMultiply ''w'' 3 2 1 2 demo_a demo_b = Inr specs \<and>
     assembleMatrixChunks (\<lambda>_. 0) ''w'' 3 2 1
       (rev (map (\<lambda>s. matrix_result s (run_chunk demo_ops s) ''d'' 1) specs)) =
     Inr (computeMatrixMultiply demo_ops (demo_a @ demo_b) 3 2 1)"
proof -
  obtain specs where s: "partitionMatrixMultiply ''w'' 3 2 1 2 demo_a demo_b = Inr specs"
    by (cases "partitionMatrixMultiply ''w'' 3 2 1 2 demo_a demo_b") (code_simp, auto)
  have "mset (rev (map (\<lambda>s. matrix_result s (run_chunk demo_ops s) ''d'' 1) specs)) =
      mset (map (\<lambda>s. matrix_result s (run_chunk demo_ops s) ''d'' 1) specs)" by simp
  from distributed_gemm [OF s this] s show ?thesis by blast
qed

end
