(* ===== verification/Box_Blur.thy ===== *)
theory Box_Blur
  imports Chunking
begin

text \<open>
  The box blur \<open>computeBoxBlur\<close> of \<^verbatim>\<open>core/src/simulation_worker.ts\<close> (the worker thread runs the same
  loops): a horizontal and a vertical pass, each keeping a running window sum per line of pixels.  A
  line is given by its first index, its stride and its length, so both passes are \<open>blur_line\<close>.  The
  caller checks that the buffer holds \<open>width * height * channels\<close> bytes, so every read is in range.
\<close>

subsection \<open>The loops\<close>

text \<open>\<open>Math.max(0, Math.min(n - 1, i))\<close>.\<close>

definition clamp_idx :: "nat \<Rightarrow> int \<Rightarrow> nat" where
  "clamp_idx n i = nat (max 0 (min (int n - 1) i))"

definition px :: "buffer \<Rightarrow> nat \<Rightarrow> nat \<Rightarrow> nat \<Rightarrow> int \<Rightarrow> int" where
  "px src n stride base i = uint (src ! (base + clamp_idx n i * stride))"

definition blur_line :: "nat \<Rightarrow> nat \<Rightarrow> nat \<Rightarrow> nat \<Rightarrow> buffer \<Rightarrow> buffer \<Rightarrow> buffer" where
  "blur_line radius n stride base src dst =
     (let windowCount = 2 * int radius + 1;
          windowSum = fold (\<lambda>k s. s + px src n stride base k) [- int radius..int radius] 0;
          dst0 = dst[base := word_of_int (windowSum div windowCount)]
      in snd (fold (\<lambda>x (ws, d).
           let leftIdx = int x - int radius - 1; rightIdx = int x + int radius;
               ws' = ws + (px src n stride base rightIdx - px src n stride base leftIdx)
           in (ws', d[base + x * stride := word_of_int (ws' div windowCount)])) [1..<n] (windowSum, dst0)))"

definition computeBoxBlur :: "buffer \<Rightarrow> nat \<Rightarrow> nat \<Rightarrow> nat \<Rightarrow> nat \<Rightarrow> buffer" where
  "computeBoxBlur input width height channels radius =
     (let blank = replicate (width * height * channels) 0;
          temp = fold (\<lambda>y. fold (\<lambda>c. blur_line radius width channels (y * width * channels + c) input)
                   [0..<channels]) [0..<height] blank
      in fold (\<lambda>x. fold (\<lambda>c. blur_line radius height (width * channels) (x * channels + c) temp)
           [0..<channels]) [0..<width] blank)"

subsection \<open>The reference\<close>

text \<open>The mean of the window around position \<open>i\<close>, rounded down.\<close>

definition window_mean :: "nat \<Rightarrow> (int \<Rightarrow> int) \<Rightarrow> int \<Rightarrow> int" where
  "window_mean radius f i = (\<Sum>j\<in>{i - int radius..i + int radius}. f j) div (2 * int radius + 1)"

lemma window_slide:
  fixes f :: "int \<Rightarrow> int"
  shows "(\<Sum>j\<in>{i + 1 - int r..i + 1 + int r}. f j) =
    (\<Sum>j\<in>{i - int r..i + int r}. f j) + (f (i + 1 + int r) - f (i - int r))"
proof -
  have "{i - int r..i + 1 + int r} = insert (i - int r) {i + 1 - int r..i + 1 + int r}" by auto
  then have "(\<Sum>j\<in>{i - int r..i + 1 + int r}. f j) = f (i - int r) + (\<Sum>j\<in>{i + 1 - int r..i + 1 + int r}. f j)"
    by simp
  moreover have "{i - int r..i + 1 + int r} = insert (i + 1 + int r) {i - int r..i + int r}" by auto
  then have "(\<Sum>j\<in>{i - int r..i + 1 + int r}. f j) = f (i + 1 + int r) + (\<Sum>j\<in>{i - int r..i + int r}. f j)"
    by simp
  ultimately show ?thesis by linarith
qed

lemma fold_plus: "fold (\<lambda>k s. s + f k) ks z = z + sum_list (map f ks)" for z :: int
  by (induction ks arbitrary: z) auto

lemma window_init: "fold (\<lambda>k s. s + f k) [- int r..int r] 0 = (\<Sum>j\<in>{0 - int r..0 + int r}. f j)" for f :: "int \<Rightarrow> int"
  by (simp add: fold_plus sum_set_upto_conv_sum_list_int [symmetric])

subsection \<open>Overwriting a set of indices\<close>

definition overwrite :: "(nat \<Rightarrow> 'a) \<Rightarrow> nat set \<Rightarrow> 'a list \<Rightarrow> 'a list" where
  "overwrite V W xs = map (\<lambda>p. if p \<in> W then V p else xs ! p) [0..<length xs]"

lemma length_overwrite [simp]: "length (overwrite V W xs) = length xs"
  by (simp add: overwrite_def)

lemma nth_overwrite: "p < length xs \<Longrightarrow> overwrite V W xs ! p = (if p \<in> W then V p else xs ! p)"
  by (simp add: overwrite_def)

lemma overwrite_empty [simp]: "overwrite V {} xs = xs"
  by (simp add: overwrite_def map_nth)

lemma overwrite_update: "(overwrite V W xs)[p := V p] = overwrite V (insert p W) xs"
proof (rule nth_equalityI)
  fix i assume "i < length ((overwrite V W xs)[p := V p])"
  then show "(overwrite V W xs)[p := V p] ! i = overwrite V (insert p W) xs ! i"
    by (cases "i = p") (simp_all add: nth_overwrite)
qed simp

lemma overwrite_overwrite: "overwrite V W (overwrite V W' xs) = overwrite V (W \<union> W') xs"
  by (rule nth_equalityI) (auto simp: nth_overwrite)

lemma overwrite_all: "{..<length xs} \<subseteq> W \<Longrightarrow> overwrite V W xs = map V [0..<length xs]"
  by (rule nth_equalityI) (auto simp: nth_overwrite)

lemma overwrite_cong: "(\<And>p. p \<in> W \<Longrightarrow> V p = V' p) \<Longrightarrow> overwrite V W xs = overwrite V' W xs"
  by (rule nth_equalityI) (auto simp: nth_overwrite)

lemma fold_overwrite:
  assumes "\<And>i dst. i \<in> set ks \<Longrightarrow> length dst = n \<Longrightarrow> f i dst = overwrite V (W i) dst" and "length dst = n"
  shows "fold f ks dst = overwrite V (\<Union>i\<in>set ks. W i) dst"
  using assms
proof (induction ks arbitrary: dst)
  case (Cons i ks)
  have "fold f (i # ks) dst = fold f ks (overwrite V (W i) dst)" using Cons.prems by simp
  also have "\<dots> = overwrite V (\<Union>i\<in>set ks. W i) (overwrite V (W i) dst)"
    using Cons.prems by (intro Cons.IH) auto
  finally show ?case by (simp add: overwrite_overwrite Un_commute)
qed simp

subsection \<open>The loops compute the reference\<close>

abbreviation line :: "nat \<Rightarrow> nat \<Rightarrow> nat \<Rightarrow> nat set" where
  "line n stride base \<equiv> (\<lambda>i. base + i * stride) ` {..<n}"

text \<open>The running sum of one line is the window sum at every position.\<close>

lemma blur_line_eq:
  assumes "0 < n" and V: "\<And>i. i < n \<Longrightarrow>
    V (base + i * stride) = word_of_int (window_mean radius (px src n stride base) (int i))"
  shows "blur_line radius n stride base src dst = overwrite V (line n stride base) dst"
proof -
  let ?f = "px src n stride base"
  let ?S = "\<lambda>i. \<Sum>j\<in>{i - int radius..i + int radius}. ?f j"
  let ?step = "\<lambda>x (ws, d).
           let leftIdx = int x - int radius - 1; rightIdx = int x + int radius;
               ws' = ws + (?f rightIdx - ?f leftIdx)
           in (ws', d[base + x * stride := word_of_int (ws' div (2 * int radius + 1))])"
  have "fold ?step [1..<m] (?S 0, dst[base := word_of_int (?S 0 div (2 * int radius + 1))]) =
      (?S (int m - 1), overwrite V (line m stride base) dst)" if "0 < m" "m \<le> n" for m
    using that
  proof (induction m)
    case (Suc m)
    show ?case
    proof (cases m)
      case 0
      have "word_of_int (?S 0 div (2 * int radius + 1)) = V base"
        using V [of 0] assms(1) by (simp add: window_mean_def)
      then show ?thesis
        using overwrite_update [of V "{}" dst base] by (simp add: 0 lessThan_Suc)
    next
      case (Suc l)
      have S: "?S (int m) = ?S (int m - 1) + (?f (int m + int radius) - ?f (int m - int radius - 1))"
        using window_slide [where r = radius and i = "int m - 1" and f = ?f] by (simp add: algebra_simps)
      have Vm: "word_of_int (?S (int m) div (2 * int radius + 1)) = V (base + m * stride)"
        using V [of m] Suc.prems by (simp add: window_mean_def)
      have "fold ?step [1..<Suc m] (?S 0, dst[base := word_of_int (?S 0 div (2 * int radius + 1))]) =
          ?step m (?S (int m - 1), overwrite V (line m stride base) dst)"
        using Suc Suc.prems Suc.IH by simp
      also have "\<dots> = (?S (int m), (overwrite V (line m stride base) dst)[base + m * stride := V (base + m * stride)])"
        unfolding split Let_def S [symmetric] Vm ..
      also have "\<dots> = (?S (int (Suc m) - 1), overwrite V (line (Suc m) stride base) dst)"
        unfolding overwrite_update by (simp add: lessThan_Suc)
      finally show ?thesis .
    qed
  qed simp
  from this [of n] assms(1) show ?thesis
    unfolding blur_line_def Let_def window_init by simp
qed

lemma index_bound: "x < w \<Longrightarrow> c < ch \<Longrightarrow> x * ch + c < w * (ch::nat)"
proof -
  assume "x < w" and "c < ch"
  have "x * ch + c < Suc x * ch" using \<open>c < ch\<close> by simp
  also have "\<dots> \<le> w * ch" using \<open>x < w\<close> by (intro mult_le_mono1) simp
  finally show ?thesis .
qed

text \<open>The value of the byte at index \<open>p\<close> after each pass.\<close>

definition horizontal :: "nat \<Rightarrow> nat \<Rightarrow> nat \<Rightarrow> buffer \<Rightarrow> nat \<Rightarrow> byte" where
  "horizontal w ch r src p = word_of_int (window_mean r
     (px src w ch (p div (w * ch) * (w * ch) + p mod ch)) (int (p div ch mod w)))"

definition vertical :: "nat \<Rightarrow> nat \<Rightarrow> nat \<Rightarrow> nat \<Rightarrow> buffer \<Rightarrow> nat \<Rightarrow> byte" where
  "vertical w ch h r src p = word_of_int (window_mean r
     (px src h (w * ch) (p mod (w * ch))) (int (p div (w * ch))))"

lemma index_split:
  assumes "x < w" and "c < (ch::nat)"
  shows "(y * w * ch + c + x * ch) div (w * ch) = y" "(y * w * ch + c + x * ch) mod ch = c"
    "(y * w * ch + c + x * ch) div ch mod w = x" "(y * w * ch + c + x * ch) mod (w * ch) = x * ch + c"
proof -
  have xc: "x * ch + c < w * ch" using assms by (rule index_bound)
  have m: "w * ch \<noteq> 0" using xc by linarith
  have e: "y * w * ch + c + x * ch = (x * ch + c) + y * (w * ch)" by (simp add: algebra_simps)
  have e': "y * w * ch + c + x * ch = c + (y * w + x) * ch" by (simp add: algebra_simps)
  show "(y * w * ch + c + x * ch) div (w * ch) = y"
    unfolding e div_mult_self1 [OF m] div_less [OF xc] by simp
  show "(y * w * ch + c + x * ch) mod (w * ch) = x * ch + c"
    unfolding e mod_mult_self1 mod_less [OF xc] ..
  show "(y * w * ch + c + x * ch) mod ch = c" unfolding e' using assms by simp
  show "(y * w * ch + c + x * ch) div ch mod w = x" unfolding e' using assms by simp
qed

lemma all_indices:
  assumes "p < h * w * (ch::nat)"
  shows "\<exists>y x c. y < h \<and> x < w \<and> c < ch \<and> p = y * w * ch + c + x * ch"
proof -
  have ch: "0 < ch" and w: "0 < w" using assms by (auto intro: gr0I)
  have "p div ch < h * w" using assms by (simp add: less_mult_imp_div_less)
  then have "p div ch div w < h" by (simp add: less_mult_imp_div_less)
  moreover have "p = p div ch div w * w * ch + p mod ch + p div ch mod w * ch"
  proof -
    have "p div ch = p div ch div w * w + p div ch mod w" by simp
    then have "p div ch * ch = p div ch div w * w * ch + p div ch mod w * ch"
      by (metis add_mult_distrib)
    moreover have "p = p div ch * ch + p mod ch" by simp
    ultimately show ?thesis by linarith
  qed
  ultimately show ?thesis using ch w by (metis mod_less_divisor)
qed

lemma horizontal_pass:
  assumes "0 < w"
  shows "fold (\<lambda>y. fold (\<lambda>c. blur_line r w ch (y * w * ch + c) src) [0..<ch]) [0..<h]
      (replicate (w * h * ch) 0) = map (horizontal w ch r src) [0..<w * h * ch]"
proof -
  let ?W = "\<lambda>y c. line w ch (y * w * ch + c)"
  have one: "blur_line r w ch (y * w * ch + c) src dst = overwrite (horizontal w ch r src) (?W y c) dst"
    if "c < ch" for y c dst
  proof (rule blur_line_eq [OF assms])
    fix x assume x: "x < w"
    have e: "y * w * ch + c = y * (w * ch) + c" by (simp add: mult.assoc)
    show "horizontal w ch r src (y * w * ch + c + x * ch) =
        word_of_int (window_mean r (px src w ch (y * w * ch + c)) (int x))"
      unfolding horizontal_def index_split [OF x that] unfolding e ..
  qed
  have row: "fold (\<lambda>c. blur_line r w ch (y * w * ch + c) src) [0..<ch] dst =
      overwrite (horizontal w ch r src) (\<Union>c\<in>set [0..<ch]. ?W y c) dst" for y dst
    using one by (intro fold_overwrite [where n = "length dst"]) auto
  have "fold (\<lambda>y. fold (\<lambda>c. blur_line r w ch (y * w * ch + c) src) [0..<ch]) [0..<h]
      (replicate (w * h * ch) 0) = overwrite (horizontal w ch r src)
        (\<Union>y\<in>set [0..<h]. \<Union>c\<in>set [0..<ch]. ?W y c) (replicate (w * h * ch) 0)"
    by (rule fold_overwrite [where n = "w * h * ch", OF row]) simp
  also have "\<dots> = map (horizontal w ch r src) [0..<length (replicate (w * h * ch) (0::byte))]"
  proof (rule overwrite_all, rule subsetI)
    fix p assume "p \<in> {..<length (replicate (w * h * ch) (0::byte))}"
    then have "p < h * w * ch" by (simp add: mult.commute)
    from all_indices [OF this] show "p \<in> (\<Union>y\<in>set [0..<h]. \<Union>c\<in>set [0..<ch]. ?W y c)" by force
  qed
  finally show ?thesis by simp
qed

lemma vertical_pass:
  assumes "0 < h"
  shows "fold (\<lambda>x. fold (\<lambda>c. blur_line r h (w * ch) (x * ch + c) src) [0..<ch]) [0..<w]
      (replicate (w * h * ch) 0) = map (vertical w ch h r src) [0..<w * h * ch]"
proof -
  let ?W = "\<lambda>x c. line h (w * ch) (x * ch + c)"
  have one: "blur_line r h (w * ch) (x * ch + c) src dst = overwrite (vertical w ch h r src) (?W x c) dst"
    if "c < ch" "x < w" for x c dst
  proof (rule blur_line_eq [OF assms])
    fix y assume "y < h"
    have e: "x * ch + c + y * (w * ch) = y * w * ch + c + x * ch" by (simp add: algebra_simps)
    show "vertical w ch h r src (x * ch + c + y * (w * ch)) =
        word_of_int (window_mean r (px src h (w * ch) (x * ch + c)) (int y))"
      unfolding e vertical_def index_split [OF that(2,1)] ..
  qed
  have col: "fold (\<lambda>c. blur_line r h (w * ch) (x * ch + c) src) [0..<ch] dst =
      overwrite (vertical w ch h r src) (\<Union>c\<in>set [0..<ch]. ?W x c) dst" if "x < w" for x dst
    using one that by (intro fold_overwrite [where n = "length dst"]) auto
  have "fold (\<lambda>x. fold (\<lambda>c. blur_line r h (w * ch) (x * ch + c) src) [0..<ch]) [0..<w]
      (replicate (w * h * ch) 0) = overwrite (vertical w ch h r src)
        (\<Union>x\<in>set [0..<w]. \<Union>c\<in>set [0..<ch]. ?W x c) (replicate (w * h * ch) 0)"
  proof (rule fold_overwrite [where n = "w * h * ch"])
    fix x dst assume "x \<in> set [0..<w]"
    then have "x < w" by simp
    then show "fold (\<lambda>c. blur_line r h (w * ch) (x * ch + c) src) [0..<ch] dst =
      overwrite (vertical w ch h r src) (\<Union>c\<in>set [0..<ch]. ?W x c) dst" by (rule col)
  qed simp
  also have "\<dots> = map (vertical w ch h r src) [0..<length (replicate (w * h * ch) (0::byte))]"
  proof (rule overwrite_all, rule subsetI)
    fix p assume "p \<in> {..<length (replicate (w * h * ch) (0::byte))}"
    then have "p < h * w * ch" by (simp add: mult.commute)
    from all_indices [OF this] obtain y x c where i: "y < h" "x < w" "c < ch" "p = y * w * ch + c + x * ch" by blast
    have "p = x * ch + c + y * (w * ch)" using i(4) by (simp add: algebra_simps)
    with i show "p \<in> (\<Union>x\<in>set [0..<w]. \<Union>c\<in>set [0..<ch]. ?W x c)" by force
  qed
  finally show ?thesis by simp
qed

text \<open>The two passes together.\<close>

lemma computeBoxBlur_eq:
  assumes "0 < w" and "0 < h"
  shows "computeBoxBlur input w h ch r =
    map (vertical w ch h r (map (horizontal w ch r input) [0..<w * h * ch])) [0..<w * h * ch]"
  unfolding computeBoxBlur_def Let_def horizontal_pass [OF assms(1)] vertical_pass [OF assms(2)] ..

subsection \<open>The kernel works by rows with a halo of the radius\<close>

lemma window_mean_shift:
  assumes "\<And>j. i - int r \<le> j \<Longrightarrow> j \<le> i + int r \<Longrightarrow> f' j = f (j + d)"
  shows "window_mean r f' i = window_mean r f (i + d)"
proof -
  have "(\<Sum>j\<in>{i - int r..i + int r}. f' j) = (\<Sum>j\<in>{i + d - int r..i + d + int r}. f j)"
    using assms by (intro sum.reindex_bij_witness [of _ "\<lambda>j. j - d" "\<lambda>j. j + d"]) auto
  then show ?thesis by (simp add: window_mean_def)
qed

lemma clamp_idx_lt: "0 < n \<Longrightarrow> clamp_idx n i < n"
  by (auto simp: clamp_idx_def)

lemma clamp_idx_slice:
  assumes "lo = s - r" and "hi = min n (e + r)" and "s \<le> y" and "y < e" and "e \<le> n"
    and "int y - int lo - int r \<le> j" and "j \<le> int y - int lo + int r"
  shows "clamp_idx n (j + int lo) = clamp_idx (hi - lo) j + lo"
proof -
  have "int lo = max 0 (int s - int r)" and "int hi = min (int n) (int e + int r)" using assms(1,2) by auto
  moreover have "int (hi - lo) = int hi - int lo" using assms by simp
  ultimately have "max 0 (min (int n - 1) (j + int lo)) = max 0 (min (int (hi - lo) - 1) j) + int lo"
    using assms(3-7) by linarith
  then show ?thesis by (simp add: clamp_idx_def nat_add_distrib)
qed

lemma horizontal_slice:
  assumes "0 < w" and "c < ch" and "x < w" and "length xs = n * (w * ch)" and "i < hi - lo" and "hi \<le> n"
  shows "horizontal w ch r (subarray xs (lo * (w * ch)) (hi * (w * ch))) (i * w * ch + c + x * ch) =
    horizontal w ch r xs ((i + lo) * w * ch + c + x * ch)"
proof -
  have "px (subarray xs (lo * (w * ch)) (hi * (w * ch))) w ch (i * (w * ch) + c) j =
      px xs w ch ((i + lo) * (w * ch) + c) j" for j
  proof -
    let ?k = "clamp_idx w j"
    have k: "?k * ch + c < w * ch" using clamp_idx_lt [OF assms(1)] assms(2) by (rule index_bound)
    have "i * (w * ch) + c + ?k * ch < (hi - lo) * (w * ch)"
      using index_bound [OF assms(5) k] by (simp add: ac_simps)
    then have "lo * (w * ch) + (i * (w * ch) + c + ?k * ch) < hi * (w * ch)"
      by (simp add: diff_mult_distrib)
    moreover have "hi * (w * ch) \<le> length xs" unfolding assms(4) by (rule mult_le_mono1 [OF assms(6)])
    moreover have "(i + lo) * (w * ch) + c + ?k * ch = lo * (w * ch) + (i * (w * ch) + c + ?k * ch)"
      by (simp add: add_mult_distrib)
    ultimately show ?thesis
      by (simp only: px_def nth_subarray)
  qed
  then have "px (subarray xs (lo * (w * ch)) (hi * (w * ch))) w ch (i * (w * ch) + c) =
      px xs w ch ((i + lo) * (w * ch) + c)" by (rule ext)
  then show ?thesis
    unfolding horizontal_def index_split [OF assms(3,2)] by (simp only:)
qed

definition blur_kern :: "nat \<Rightarrow> nat \<Rightarrow> nat \<Rightarrow> nat \<Rightarrow> buffer \<Rightarrow> buffer" where
  "blur_kern w ch r n xs = computeBoxBlur xs w n ch r"

lemma length_computeBoxBlur: "0 < w \<Longrightarrow> 0 < h \<Longrightarrow> length (computeBoxBlur input w h ch r) = w * h * ch"
  by (simp add: computeBoxBlur_eq)

lemma blur_nth:
  assumes "y < h" and "x < w" and "c < ch"
  shows "computeBoxBlur input w h ch r ! (y * w * ch + c + x * ch) = word_of_int (window_mean r
    (px (map (horizontal w ch r input) [0..<w * h * ch]) h (w * ch) (x * ch + c)) (int y))"
proof -
  have "y * w * ch + c + x * ch < w * h * ch"
    using index_bound [OF assms(1) index_bound [OF assms(2,3)]] by (simp add: algebra_simps)
  moreover have "0 < w" "0 < h" using assms by auto
  ultimately show ?thesis
    by (simp add: computeBoxBlur_eq) (simp add: vertical_def index_split [OF assms(2,3)])
qed

lemma blur_slice:
  assumes "s \<le> y" and "y < e" and "e \<le> n" and "length xs = n * (w * ch)" and "lo = s - r"
    and "hi = min n (e + r)" and "x < w" and "c < ch"
  shows "computeBoxBlur (subarray xs (lo * (w * ch)) (hi * (w * ch))) w (hi - lo) ch r !
      ((y - lo) * w * ch + c + x * ch) = computeBoxBlur xs w n ch r ! (y * w * ch + c + x * ch)"
proof -
  let ?t' = "map (horizontal w ch r (subarray xs (lo * (w * ch)) (hi * (w * ch)))) [0..<w * (hi - lo) * ch]"
  let ?t = "map (horizontal w ch r xs) [0..<w * n * ch]"
  have w: "0 < w" using assms(7) by simp
  have y: "y - lo < hi - lo" "y < n" "lo \<le> y" using assms by auto
  have "px ?t' (hi - lo) (w * ch) (x * ch + c) j = px ?t n (w * ch) (x * ch + c) (j + int lo)"
    if "int (y - lo) - int r \<le> j" "j \<le> int (y - lo) + int r" for j
  proof -
    let ?i = "clamp_idx (hi - lo) j"
    have i: "?i < hi - lo" using y(1) by (intro clamp_idx_lt) simp
    have cl: "clamp_idx n (j + int lo) = ?i + lo"
      using that y(3) assms by (intro clamp_idx_slice [of lo s r hi n e y]) auto
    have e: "x * ch + c + k * (w * ch) = k * w * ch + c + x * ch" for k by (simp add: algebra_simps)
    have "?i * w * ch + c + x * ch < w * (hi - lo) * ch"
      using index_bound [OF i index_bound [OF assms(7,8)]] by (simp add: algebra_simps)
    moreover have "(?i + lo) * w * ch + c + x * ch < w * n * ch"
    proof -
      have "?i + lo < n" using i assms(6) by linarith
      from index_bound [OF this index_bound [OF assms(7,8)]] show ?thesis by (simp add: algebra_simps)
    qed
    ultimately show ?thesis
      using horizontal_slice [OF w assms(8,7,4) i, of r] assms(6)
      unfolding px_def cl e by simp
  qed
  then have "window_mean r (px ?t' (hi - lo) (w * ch) (x * ch + c)) (int (y - lo)) =
      window_mean r (px ?t n (w * ch) (x * ch + c)) (int (y - lo) + int lo)"
    by (rule window_mean_shift)
  then show ?thesis
    unfolding blur_nth [OF y(1) assms(7,8)] blur_nth [OF y(2) assms(7,8)] using y(3) by simp
qed

interpretation blur: row_local "0 < w \<and> 0 < ch" "blur_kern w ch r" "w * ch" "w * ch" r for w ch r
proof (unfold_locales, goal_cases)
  case (1 n xs)
  then show ?case by (simp add: blur_kern_def length_computeBoxBlur mult.commute)
next
  case (2 s e n xs lo hi)
  let ?m = "w * ch"
  have n: "0 < n" "0 < hi - lo" "lo \<le> s" "e \<le> hi" using 2 by auto
  have lens: "length (blur_kern w ch r n xs) = n * ?m" "length (blur_kern w ch r (hi - lo) zs) = (hi - lo) * ?m" for zs
    using 2(1) n(1,2) by (simp_all only: blur_kern_def length_computeBoxBlur) (simp_all add: ac_simps)
  have es: "e - lo \<le> hi - lo" "(s - lo) * ?m + (e - s) * ?m = (e - lo) * ?m"
    using 2 n by (simp_all flip: add_mult_distrib)
  show ?case unfolding es(2)
  proof (rule nth_equalityI)
    show "length (subarray (blur_kern w ch r (hi - lo) (subarray xs (lo * ?m) (hi * ?m))) ((s - lo) * ?m) ((e - lo) * ?m)) =
        length (subarray (blur_kern w ch r n xs) (s * ?m) (e * ?m))"
      unfolding length_subarray_rows [OF es(1) lens(2)] length_subarray_rows [OF 2(3) lens(1)]
      using n 2 by simp
    fix q assume "q < length (subarray (blur_kern w ch r (hi - lo) (subarray xs (lo * ?m) (hi * ?m))) ((s - lo) * ?m) ((e - lo) * ?m))"
    then have q: "q < (e - s) * w * ch"
      unfolding length_subarray_rows [OF es(1) lens(2)] using n 2 by (simp add: mult.assoc)
    from all_indices [OF q] obtain y x c where i: "y < e - s" "x < w" "c < ch" "q = y * w * ch + c + x * ch" by blast
    have l: "(s - lo) * ?m + q = (s + y - lo) * w * ch + c + x * ch"
      using n(3) by (simp add: i(4) diff_mult_distrib add_mult_distrib algebra_simps)
    have g: "s * ?m + q = (s + y) * w * ch + c + x * ch"
      by (simp add: i(4) algebra_simps)
    have ql: "(s - lo) * ?m + q < (e - lo) * ?m" "s * ?m + q < e * ?m"
      using q 2 n es(2) by (simp_all add: diff_mult_distrib mult.assoc)
    have fit: "(e - lo) * ?m \<le> (hi - lo) * ?m" "e * ?m \<le> n * ?m"
      using es(1) 2(3) by (auto intro: mult_le_mono1)
    have y: "s \<le> s + y" "s + y < e" using i(1) by auto
    show "subarray (blur_kern w ch r (hi - lo) (subarray xs (lo * ?m) (hi * ?m))) ((s - lo) * ?m) ((e - lo) * ?m) ! q =
        subarray (blur_kern w ch r n xs) (s * ?m) (e * ?m) ! q"
      using ql fit blur_slice [OF y 2(3) 2(4) 2(5) 2(6) i(2,3)]
      by (simp add: nth_subarray lens l g) (simp add: blur_kern_def)
  qed
qed

end
