(* ===== verification/Image_Chunks.thy ===== *)
theory Image_Chunks
  imports Box_Blur
begin

text \<open>
  \<open>ImageChunkEngine\<close> of \<^verbatim>\<open>core/src/chunk_engine.ts\<close>: horizontal slices of an image with halo rows
  above and below, and their reassembly without the halos.
\<close>

subsection \<open>Data\<close>

record image_chunk_metadata =
  im_parentWorkloadId :: string
  im_chunkIndex :: int
  im_totalChunks :: int
  im_outRowStart :: int
  im_outRowEnd :: int
  im_outRowCount :: int
  im_inRowStart :: int
  im_inRowEnd :: int
  im_inRowCount :: int
  im_topHalo :: int
  im_bottomHalo :: int
  im_width :: int
  im_height :: int
  im_channels :: int
  im_radius :: int
  im_mode :: string

record image_chunk_spec =
  is_metadata :: image_chunk_metadata
  is_payload :: buffer

record image_chunk_result =
  ir_parentWorkloadId :: string
  ir_chunkIndex :: int
  ir_totalChunks :: int
  ir_outRowStart :: int
  ir_outRowEnd :: int
  ir_outRowCount :: int
  ir_inRowStart :: int
  ir_inRowEnd :: int
  ir_inRowCount :: int
  ir_topHalo :: int
  ir_bottomHalo :: int
  ir_width :: int
  ir_height :: int
  ir_channels :: int
  ir_radius :: int
  ir_outputBuffer :: buffer
  ir_workerId :: "string option"
  ir_executionTimeMs :: "int option"

subsection \<open>Partition\<close>

definition image_spec ::
  "string \<Rightarrow> int \<Rightarrow> int \<Rightarrow> int \<Rightarrow> string \<Rightarrow> int \<Rightarrow> int \<Rightarrow> buffer \<Rightarrow> nat \<times> nat \<times> nat \<Rightarrow> image_chunk_spec" where
  "image_spec parentWorkloadId width height channels mode radius actualChunks imageBuffer r =
     (case r of (i, rs, re) \<Rightarrow>
        let outRowStart = int rs; outRowEnd = int re;
            bytesPerRow = width * channels;
            inRowStart = max 0 (outRowStart - radius);
            inRowEnd = min height (outRowEnd + radius)
        in \<lparr>is_metadata = \<lparr>im_parentWorkloadId = parentWorkloadId, im_chunkIndex = int i,
              im_totalChunks = actualChunks, im_outRowStart = outRowStart, im_outRowEnd = outRowEnd,
              im_outRowCount = outRowEnd - outRowStart, im_inRowStart = inRowStart,
              im_inRowEnd = inRowEnd, im_inRowCount = inRowEnd - inRowStart,
              im_topHalo = outRowStart - inRowStart, im_bottomHalo = inRowEnd - outRowEnd,
              im_width = width, im_height = height, im_channels = channels, im_radius = radius,
              im_mode = mode\<rparr>,
            is_payload = js_subarray imageBuffer (inRowStart * bytesPerRow) (inRowEnd * bytesPerRow)\<rparr>)"

definition partitionImageFilter ::
  "string \<Rightarrow> int \<Rightarrow> int \<Rightarrow> int \<Rightarrow> string \<Rightarrow> int \<Rightarrow> int \<Rightarrow> buffer \<Rightarrow> chunk_error + image_chunk_spec list" where
  "partitionImageFilter parentWorkloadId width height channels mode radius totalChunks imageBuffer =
     (if width \<le> 0 \<or> height \<le> 0 \<or> channels \<le> 0 then Inl InvalidDimensions
      else if int (length imageBuffer) \<noteq> width * height * channels then Inl InvalidBufferLength
      else
        (let actualChunks = min totalChunks height
         in Inr (map (image_spec parentWorkloadId width height channels mode radius actualChunks imageBuffer)
                   (row_ranges (nat height) (nat actualChunks)))))"

subsection \<open>Reassembly\<close>

fun assemble_image ::
  "string \<Rightarrow> int \<Rightarrow> int \<Rightarrow> int \<Rightarrow> buffer \<Rightarrow> image_chunk_result list \<Rightarrow> chunk_error + (int \<times> buffer)" where
  "assemble_image wid bytesPerRow i expectedNextRow finalBuffer [] = Inr (expectedNextRow, finalBuffer)"
| "assemble_image wid bytesPerRow i expectedNextRow finalBuffer (chunk # rest) =
     (if ir_parentWorkloadId chunk \<noteq> wid then Inl MismatchedWorkload
      else if ir_chunkIndex chunk \<noteq> i then Inl (MissingChunk i (ir_chunkIndex chunk))
      else if ir_outRowStart chunk \<noteq> expectedNextRow then Inl (RowGap (ir_chunkIndex chunk))
      else if int (length (ir_outputBuffer chunk)) \<noteq> ir_inRowCount chunk * bytesPerRow
      then Inl (WrongOutputBytes (ir_chunkIndex chunk))
      else
        (let validStartByte = ir_topHalo chunk * bytesPerRow;
             validByteLength = ir_outRowCount chunk * bytesPerRow;
             validRowsSlice = js_subarray (ir_outputBuffer chunk) validStartByte
               (validStartByte + validByteLength)
         in case js_copy finalBuffer validRowsSlice (ir_outRowStart chunk * bytesPerRow) of
              None \<Rightarrow> Inl RangeError
            | Some b \<Rightarrow> assemble_image wid bytesPerRow (i + 1) (ir_outRowEnd chunk) b rest))"

definition assembleImageChunks ::
  "(nat \<Rightarrow> byte) \<Rightarrow> string \<Rightarrow> int \<Rightarrow> int \<Rightarrow> int \<Rightarrow> image_chunk_result list \<Rightarrow> chunk_error + buffer" where
  "assembleImageChunks mem parentWorkloadId width height channels chunkResults =
     (if chunkResults = [] then Inl NoChunks
      else
        (case alloc_unsafe mem (width * height * channels) of
           None \<Rightarrow> Inl RangeError
         | Some finalBuffer \<Rightarrow>
             (case assemble_image parentWorkloadId (width * channels) 0 0 finalBuffer
                     (sort_key ir_chunkIndex chunkResults) of
                Inl e \<Rightarrow> Inl e
              | Inr (expectedNextRow, b) \<Rightarrow>
                  if expectedNextRow \<noteq> height then Inl IncompleteCoverage else Inr b)))"

text \<open>The result record built by \<open>dispatchImageChunkWithRetry\<close>.\<close>

definition image_result :: "string \<Rightarrow> image_chunk_spec \<Rightarrow> buffer \<Rightarrow> string \<Rightarrow> int \<Rightarrow> image_chunk_result" where
  "image_result parentWorkloadId spec outputBuf targetWorkerId executionTimeMs =
     (let m = is_metadata spec
      in \<lparr>ir_parentWorkloadId = parentWorkloadId, ir_chunkIndex = im_chunkIndex m,
          ir_totalChunks = im_totalChunks m, ir_outRowStart = im_outRowStart m,
          ir_outRowEnd = im_outRowEnd m, ir_outRowCount = im_outRowCount m,
          ir_inRowStart = im_inRowStart m, ir_inRowEnd = im_inRowEnd m,
          ir_inRowCount = im_inRowCount m, ir_topHalo = im_topHalo m,
          ir_bottomHalo = im_bottomHalo m, ir_width = im_width m, ir_height = im_height m,
          ir_channels = im_channels m, ir_radius = im_radius m, ir_outputBuffer = outputBuf,
          ir_workerId = Some targetWorkerId, ir_executionTimeMs = Some executionTimeMs\<rparr>)"

text \<open>What a worker computes for a chunk: \<open>computeInProcess\<close> on the parameters of the chunk's task.\<close>

definition blur_in_process :: "nat \<Rightarrow> nat \<Rightarrow> nat \<Rightarrow> nat \<Rightarrow> buffer \<Rightarrow> buffer" where
  "blur_in_process width height channels radius inputBuffer =
     (if 0 < width \<and> 0 < height \<and> width * height * channels \<le> length inputBuffer
      then computeBoxBlur inputBuffer width height channels radius else inputBuffer)"

definition run_image_chunk :: "image_chunk_spec \<Rightarrow> buffer" where
  "run_image_chunk spec = (let m = is_metadata spec in
     blur_in_process (nat (im_width m)) (nat (im_inRowCount m)) (mode_channels (im_mode m)) (nat (im_radius m))
       (is_payload spec))"

subsection \<open>Pasting the valid rows\<close>

definition valid_rows :: "int \<Rightarrow> image_chunk_result \<Rightarrow> buffer" where
  "valid_rows bpr c = js_subarray (ir_outputBuffer c) (ir_topHalo c * bpr)
     (ir_topHalo c * bpr + ir_outRowCount c * bpr)"

fun image_tiles :: "string \<Rightarrow> int \<Rightarrow> int \<Rightarrow> int \<Rightarrow> int \<Rightarrow> image_chunk_result list \<Rightarrow> bool" where
  "image_tiles wid bpr h i r [] \<longleftrightarrow> r = h"
| "image_tiles wid bpr h i r (c # cs) \<longleftrightarrow>
     ir_parentWorkloadId c = wid \<and> ir_chunkIndex c = i \<and> ir_outRowStart c = r \<and>
     int (length (ir_outputBuffer c)) = ir_inRowCount c * bpr \<and>
     int (length (valid_rows bpr c)) = (ir_outRowEnd c - r) * bpr \<and>
     image_tiles wid bpr h (i + 1) (ir_outRowEnd c) cs"

lemma assemble_image_paste:
  assumes "0 < bpr" and "0 \<le> r" and "image_tiles wid bpr h i r cs" and "off = nat (r * bpr)"
  shows "assemble_image wid bpr i r buf cs = Inr (h, paste buf off (map (valid_rows bpr) cs)) \<and>
    int (length (concat (map (valid_rows bpr) cs))) = (h - r) * bpr"
  using assms(2-)
proof (induction cs arbitrary: i r buf off)
  case Nil
  then show ?case by simp
next
  case (Cons c cs)
  then have c: "ir_parentWorkloadId c = wid" "ir_chunkIndex c = i" "ir_outRowStart c = r"
    "int (length (ir_outputBuffer c)) = ir_inRowCount c * bpr"
    "int (length (valid_rows bpr c)) = (ir_outRowEnd c - r) * bpr"
    and rest: "image_tiles wid bpr h (i + 1) (ir_outRowEnd c) cs" by auto
  have "0 \<le> (ir_outRowEnd c - r) * bpr" unfolding c(5) [symmetric] by simp
  then have "0 \<le> ir_outRowEnd c" using assms(1) Cons.prems(1) by (simp add: zero_le_mult_iff)
  have rb: "0 \<le> r * bpr" using Cons.prems(1) assms(1) by simp
  have off: "off + length (valid_rows bpr c) = nat (ir_outRowEnd c * bpr)"
  proof -
    have "int (off + length (valid_rows bpr c)) = ir_outRowEnd c * bpr"
      using c(5) rb Cons.prems(3) by (simp add: algebra_simps)
    then show ?thesis by simp
  qed
  have "js_copy buf (valid_rows bpr c) (r * bpr) = Some (copy_into buf (valid_rows bpr c) off)"
    using rb Cons.prems(3) by (simp add: js_copy_def)
  moreover note Cons.IH [OF \<open>0 \<le> ir_outRowEnd c\<close> rest off, of "copy_into buf (valid_rows bpr c) off"]
  ultimately show ?case using c by (simp add: Let_def valid_rows_def algebra_simps)
qed

lemma assemble_tiles:
  assumes "0 < width * channels" and "image_tiles wid (width * channels) h 0 0 (sort_key ir_chunkIndex cs)"
    and "cs \<noteq> []"
  shows "assembleImageChunks mem wid width h channels cs =
    Inr (concat (map (valid_rows (width * channels)) (sort_key ir_chunkIndex cs)))"
proof -
  let ?bpr = "width * channels"
  let ?s = "sort_key ir_chunkIndex cs"
  note a = assemble_image_paste [OF assms(1) order_refl assms(2), of 0, simplified]
  have size: "int (length (concat (map (valid_rows ?bpr) ?s))) = h * ?bpr" using a by simp
  have eq: "width * h * channels = h * ?bpr" by simp
  have "0 \<le> h * ?bpr" unfolding size [symmetric] by simp
  then obtain fb where fb: "alloc_unsafe mem (width * h * channels) = Some fb" "int (length fb) = h * ?bpr"
    unfolding eq by (simp add: alloc_unsafe_def)
  have "length (concat (map (valid_rows ?bpr) ?s)) = length fb" using size fb(2) by (metis of_nat_eq_iff)
  then have "assemble_image wid ?bpr 0 0 fb ?s = Inr (h, concat (map (valid_rows ?bpr) ?s))"
    using a paste_whole by metis
  then show ?thesis using assms(3) fb by (simp add: assembleImageChunks_def)
qed

end
