(* ===== verification/Image_Theorems.thy ===== *)
theory Image_Theorems
  imports Image_Chunks
begin

text \<open>
  The properties of the image pipeline: the sliding-window blur is the clamped window mean, and the
  blur of the chunks with halos, reassembled in any arrival order, is the blur of the whole image.
\<close>

text \<open>C30. The sliding-window blur is the reference blur: the byte of pixel \<open>(x, y)\<close> and channel \<open>c\<close> is
  the floor mean, over the rows of the window clamped at the border, of the floor means over the
  columns of the window.\<close>

theorem box_blur_is_window_mean:
  assumes "y < h" and "x < w" and "c < ch"
  shows "computeBoxBlur img w h ch r ! ((y * w + x) * ch + c) =
    word_of_int (window_mean r (\<lambda>i. uint (word_of_int (window_mean r
      (\<lambda>j. uint (img ! ((clamp_idx h i * w + clamp_idx w j) * ch + c))) (int x)) :: byte)) (int y))"
proof -
  have e: "(y * w + x) * ch + c = y * w * ch + c + x * ch" for y x by (simp add: algebra_simps)
  have "px (map (horizontal w ch r img) [0..<w * h * ch]) h (w * ch) (x * ch + c) i =
      uint (word_of_int (window_mean r
        (\<lambda>j. uint (img ! ((clamp_idx h i * w + clamp_idx w j) * ch + c))) (int x)) :: byte)" for i
  proof -
    let ?k = "clamp_idx h i"
    have k: "?k < h" using assms(1) by (intro clamp_idx_lt) simp
    have idx: "x * ch + c + ?k * (w * ch) = ?k * w * ch + c + x * ch" by (simp add: algebra_simps)
    have "?k * w * ch + c + x * ch < w * h * ch"
      using index_bound [OF k index_bound [OF assms(2,3)]] by (simp add: algebra_simps)
    moreover have "px img w ch (?k * (w * ch) + c) = (\<lambda>j. uint (img ! ((?k * w + clamp_idx w j) * ch + c)))"
      by (rule ext) (simp add: px_def algebra_simps)
    ultimately show ?thesis
      unfolding px_def [of "map _ _"] idx by (simp add: horizontal_def index_split [OF assms(2,3)] mod_less [OF assms(3)])
  qed
  then show ?thesis unfolding e blur_nth [OF assms] by presburger
qed

theorem box_blur_is_window_mean_witness:
  "computeBoxBlur [0, 90, 30, 60] 2 2 1 1 ! 3 = 53 \<and>
   computeBoxBlur [0, 90, 30, 60] 2 2 1 1 ! ((1 * 2 + 1) * 1 + 0) =
     word_of_int (window_mean 1 (\<lambda>i. uint (word_of_int (window_mean 1
       (\<lambda>j. uint ([0, 90, 30, 60] ! ((clamp_idx 2 i * 2 + clamp_idx 2 j) * 1 + 0) :: byte)) (int 1)) :: byte)) (int 1))"
proof
  show "computeBoxBlur [0, 90, 30, 60] 2 2 1 1 ! 3 = 53" by code_simp
qed (rule box_blur_is_window_mean, simp_all)

subsection \<open>Distributed and local blur agree\<close>

lemma image_tiles_specs:
  assumes "\<And>j. i \<le> j \<Longrightarrow> j < n \<Longrightarrow> res j = image_result wid (spec j) (out j) (wk j) (t j)"
    and "\<And>j. i \<le> j \<Longrightarrow> j < n \<Longrightarrow> spec j = image_spec wid w h ch mode r nc img (j, off j, off (Suc j))"
    and "\<And>j. i \<le> j \<Longrightarrow> j < n \<Longrightarrow> int (length (out j)) = im_inRowCount (is_metadata (spec j)) * (w * ch)"
    and "\<And>j. i \<le> j \<Longrightarrow> j < n \<Longrightarrow>
      int (length (valid_rows (w * ch) (res j))) = (int (off (Suc j)) - int (off j)) * (w * ch)"
    and "int (off n) = h" and "i \<le> n"
  shows "image_tiles wid (w * ch) h (int i) (int (off i)) (map res [i..<n])"
  using assms
proof (induction "n - i" arbitrary: i)
  case 0
  then show ?case by simp
next
  case (Suc d)
  then have lt: "i < n" by simp
  have "image_tiles wid (w * ch) h (int (Suc i)) (int (off (Suc i))) (map res [Suc i..<n])"
    using Suc.prems Suc.hyps(2) lt by (intro Suc.hyps(1)) auto
  then show ?case
    using lt Suc.prems(1-4) [of i]
    by (simp add: upt_conv_Cons [OF lt] image_result_def image_spec_def Let_def add.commute)
qed

lemma image_partition_specs:
  assumes "partitionImageFilter wid w h ch mode r chunks img = Inr specs"
  shows "0 < w" "0 < h" "0 < ch" "int (length img) = w * h * ch"
    "specs = map (image_spec wid w h ch mode r (min chunks h) img) (row_ranges (nat h) (nat (min chunks h)))"
  using assms by (auto simp: partitionImageFilter_def Let_def split: if_splits)

text \<open>One chunk: what the worker returns, and its valid rows, in terms of the kernel's tiles.\<close>

lemma image_chunk_run:
  assumes "0 < W" and "0 < CH" and "s < e" and "e \<le> H" and "length img = H * (W * CH)"
    and spec: "spec = image_spec wid (int W) (int H) (int CH) mode (int r) nc img (j, s, e)" and mode: "mode_channels mode = CH"
  shows "int (length (run_image_chunk spec)) = im_inRowCount (is_metadata spec) * (int W * int CH)"
    and "valid_rows (int W * int CH) (image_result wid spec (run_image_chunk spec) wk t) =
      blur.tile W CH r H img s e"
    and "length (blur.tile W CH r H img s e) = (e - s) * (W * CH)"
proof -
  define m where "m = W * CH"
  define lo where "lo = s - r"
  define hi where "hi = min H (e + r)"
  have lh: "lo \<le> s" "lo < hi" "e \<le> hi" "hi \<le> H" using assms(3,4) by (auto simp: lo_def hi_def)
  have lenI: "length img = H * m" using assms(5) by (simp add: m_def)
  have rows: "max 0 (int s - int r) = int lo" "min (int H) (int e + int r) = int hi"
    by (auto simp: lo_def hi_def)
  have pay: "is_payload spec = subarray img (lo * m) (hi * m)"
  proof -
    have "is_payload spec = js_subarray img (int (lo * m)) (int (hi * m))"
      by (simp add: spec image_spec_def Let_def rows m_def)
    also have "\<dots> = subarray img (lo * m) (hi * m)"
      by (rule js_subarray_nat) (use lh in \<open>simp_all add: lenI mult_le_mono1\<close>)
    finally show ?thesis .
  qed
  have lenP: "length (is_payload spec) = (hi - lo) * m"
    unfolding pay by (rule length_subarray_rows [OF lh(4) lenI])
  have meta: "im_inRowCount (is_metadata spec) = int (hi - lo)" "im_outRowStart (is_metadata spec) = int s"
    "im_outRowCount (is_metadata spec) = int (e - s)" "im_topHalo (is_metadata spec) = int (s - lo)"
    "nat (im_width (is_metadata spec)) = W" "mode_channels (im_mode (is_metadata spec)) = CH"
    "nat (im_radius (is_metadata spec)) = r"
    using assms(3) lh mode by (simp_all add: spec image_spec_def Let_def rows)
  have run: "run_image_chunk spec = blur_kern W CH r (hi - lo) (subarray img (lo * m) (hi * m))"
  proof -
    have "0 < W \<and> 0 < hi - lo \<and> W * (hi - lo) * CH \<le> (hi - lo) * m"
      using assms(1) lh(2) by (simp add: m_def ac_simps)
    then show ?thesis
      unfolding run_image_chunk_def Let_def meta nat_int blur_in_process_def lenP blur_kern_def
      by (simp only: simp_thms if_True pay)
  qed
  have lenR: "length (run_image_chunk spec) = (hi - lo) * m"
    unfolding run m_def using assms(1,2) lh(2) lenP pay by (intro blur.kern_length) (simp_all add: m_def)
  then show "int (length (run_image_chunk spec)) = im_inRowCount (is_metadata spec) * (int W * int CH)"
    by (simp add: meta m_def)
  have end_eq: "(s - lo) * m + (e - s) * m = (e - lo) * m"
    using lh(1) assms(3) by (simp flip: add_mult_distrib)
  have tile: "blur.tile W CH r H img s e = subarray (run_image_chunk spec) ((s - lo) * m) ((e - lo) * m)"
    unfolding blur.tile_def Let_def run end_eq [symmetric] unfolding lo_def hi_def m_def ..
  have "valid_rows (int W * int CH) (image_result wid spec (run_image_chunk spec) wk t) =
      js_subarray (run_image_chunk spec) (int ((s - lo) * m)) (int ((e - lo) * m))"
    unfolding end_eq [symmetric]
    by (simp add: valid_rows_def image_result_def Let_def meta m_def)
  also have "\<dots> = subarray (run_image_chunk spec) ((s - lo) * m) ((e - lo) * m)"
    using lh assms(3) by (intro js_subarray_nat) (auto simp: lenR intro: mult_le_mono1)
  also have "\<dots> = blur.tile W CH r H img s e"
    by (rule tile [symmetric])
  finally show v: "valid_rows (int W * int CH) (image_result wid spec (run_image_chunk spec) wk t) =
      blur.tile W CH r H img s e" .
  have "length (blur.tile W CH r H img s e) = (e - lo - (s - lo)) * m"
    using length_subarray_rows [OF _ lenR, of "e - lo" "s - lo"] lh(3) unfolding tile by simp
  then show "length (blur.tile W CH r H img s e) = (e - s) * (W * CH)"
    using lh(1) assms(3) by (simp add: m_def)
qed

text \<open>The distributed blur is the local one: cut the image into any number of chunks with halos of
  the filter's radius, let each worker blur its slice on its own, let the results arrive in any order;
  reassembly succeeds and returns the blur of the whole image, byte for byte, without seams.\<close>

theorem distributed_blur:
  assumes part: "partitionImageFilter wid w h ch mode (int r) chunks img = Inr specs" and "0 < chunks"
    and mode: "ch = int (mode_channels mode)"
    and res: "mset results = mset (map (\<lambda>s. image_result wid s (run_image_chunk s) (wk s) (t s)) specs)"
  shows "assembleImageChunks mem wid w h ch results =
    Inr (computeBoxBlur img (nat w) (nat h) (nat ch) r)"
proof -
  note p = image_partition_specs [OF part]
  define W H CH where "W = nat w" and "H = nat h" and "CH = nat ch"
  have ints: "w = int W" "h = int H" "ch = int CH" using p by (auto simp: W_def H_def CH_def)
  have pos: "0 < W" "0 < H" "0 < CH" using p by (auto simp: W_def H_def CH_def)
  define n where "n = nat (min chunks h)"
  define off where "off = row_offset H n"
  define spec where "spec = (\<lambda>j. image_spec wid w h ch mode (int r) (min chunks h) img (j, off j, off (Suc j)))"
  define res where "res = (\<lambda>j. image_result wid (spec j) (run_image_chunk (spec j)) (wk (spec j)) (t (spec j)))"
  have n: "0 < n" "n \<le> H" using p(2) assms(2) by (auto simp: n_def H_def)
  have specs: "specs = map spec [0..<n]"
    using p(5) by (simp add: row_ranges_eq n_def off_def spec_def H_def)
  have lenI: "length img = H * (W * CH)"
  proof -
    have "int (length img) = int (H * (W * CH))" using p(4) by (simp add: ints)
    then show ?thesis by (simp only: of_nat_eq_iff)
  qed
  have idx: "map ir_chunkIndex (map res [0..<n]) = map int [0..<n]"
    by (simp add: res_def spec_def image_result_def image_spec_def Let_def)
  have sorted: "sort_key ir_chunkIndex results = map res [0..<n]"
  proof (rule sort_key_permuted)
    show "mset results = mset (map res [0..<n])" using res by (simp add: specs res_def comp_def)
    show "sorted (map ir_chunkIndex (map res [0..<n]))" unfolding idx by (simp add: sorted_map sorted_wrt_upt)
    show "distinct (map ir_chunkIndex (map res [0..<n]))" unfolding idx by (simp add: distinct_map)
  qed
  have lt: "off j < off (Suc j)" for j unfolding off_def by (rule row_offset_strict [OF n])
  have le: "off (Suc j) \<le> H" if "j < n" for j
    unfolding off_def using that by (intro row_offset_le [OF n(1)]) simp
  have chm: "mode_channels mode = CH" using mode ints by simp
  note run = image_chunk_run [OF pos(1,3) lt le lenI spec_def [THEN fun_cong, unfolded ints] chm]
  have valid: "valid_rows (w * ch) (res j) = blur.tile W CH r H img (off j) (off (Suc j))" if "j < n" for j
    unfolding res_def ints by (rule run(2) [OF that])
  have "image_tiles wid (w * ch) h (int 0) (int (off 0)) (map res [0..<n])"
  proof (rule image_tiles_specs)
    fix j assume j: "j < n"
    show "int (length (run_image_chunk (spec j))) = im_inRowCount (is_metadata (spec j)) * (w * ch)"
      unfolding ints by (rule run(1) [OF j])
    show "int (length (valid_rows (w * ch) (res j))) = (int (off (Suc j)) - int (off j)) * (w * ch)"
      unfolding valid [OF j] run(3) [OF j] using less_imp_le [OF lt [of j]] by (simp add: ints of_nat_diff)
  qed (use row_offset_last [OF n(1), of H] ints in \<open>simp_all add: res_def spec_def off_def\<close>)
  then have tiles: "image_tiles wid (w * ch) h 0 0 (sort_key ir_chunkIndex results)"
    unfolding sorted by (simp add: off_def)
  have "size (mset results) = n" using res by (simp add: specs)
  then have ne: "results \<noteq> []" using n(1) by auto
  have "concat (map (valid_rows (w * ch)) (map res [0..<n])) =
      concat (map (\<lambda>j. blur.tile W CH r H img (off j) (off (Suc j))) [0..<n])"
    using valid by (intro arg_cong [where f = concat]) simp
  also have "\<dots> = blur_kern W CH r H img"
    unfolding off_def using pos n lenI by (intro blur.tiles_concat) auto
  finally have whole: "concat (map (valid_rows (w * ch)) (map res [0..<n])) = computeBoxBlur img W H CH r"
    by (simp add: blur_kern_def)
  have "0 < w * ch" using p by simp
  from assemble_tiles [OF this tiles ne, of mem] show ?thesis
    unfolding sorted whole by (simp add: W_def H_def CH_def)
qed

theorem distributed_blur_witness:
  "\<exists>specs. partitionImageFilter ''w'' 1 3 1 ''L'' 1 2 [10, 40, 100] = Inr specs \<and> length specs = 2 \<and>
     assembleImageChunks (\<lambda>_. 0) ''w'' 1 3 1
       (rev (map (\<lambda>s. image_result ''w'' s (run_image_chunk s) ''d'' 1) specs)) = Inr [20, 50, 80]"
proof -
  obtain specs where s: "partitionImageFilter ''w'' 1 3 1 ''L'' (int 1) 2 [10, 40, 100] = Inr specs"
    by (cases "partitionImageFilter ''w'' 1 3 1 ''L'' (int 1) 2 [10, 40, 100]") (code_simp, auto)
  have "length specs = 2" using image_partition_specs(5) [OF s] by simp
  moreover have "mset (rev (map (\<lambda>s. image_result ''w'' s (run_image_chunk s) ''d'' 1) specs)) =
      mset (map (\<lambda>s. image_result ''w'' s (run_image_chunk s) ''d'' 1) specs)" by simp
  from distributed_blur [OF s _ _ this, of "\<lambda>_. 0"]
  have "assembleImageChunks (\<lambda>_. 0) ''w'' 1 3 1
       (rev (map (\<lambda>s. image_result ''w'' s (run_image_chunk s) ''d'' 1) specs)) =
     Inr (computeBoxBlur [10, 40, 100] (nat 1) (nat 3) (nat 1) 1)" by (simp add: mode_channels_def)
  moreover have "computeBoxBlur [10, 40, 100] (nat 1) (nat 3) (nat 1) 1 = [20, 50, 80]" by code_simp
  ultimately show ?thesis using s by auto
qed

end
