(* ===== verification/Video_Chunks.thy ===== *)
theory Video_Chunks
  imports Chunking Json
begin

text \<open>
  \<open>VideoChunkEngine\<close> of \<^verbatim>\<open>core/src/chunk_engine.ts\<close> and the frame analysis that the worker thread of
  \<^verbatim>\<open>core/src/simulation_worker.ts\<close> runs on a chunk.  The analysis computes with exact ratios where the
  source has doubles; \<open>Math.sqrt\<close> is the parameter \<open>sqrtf\<close>.  \<open>JSON.parse\<close> and the base64 decoder are the
  parameters \<open>parse\<close> and \<open>unbase64\<close>; \<open>None\<close> is a call that throws.
\<close>

subsection \<open>Data\<close>

record video_chunk_metadata =
  vm_parentWorkloadId :: string
  vm_chunkIndex :: int
  vm_totalChunks :: int
  vm_startFrameIndex :: int
  vm_frameCount :: int
  vm_width :: int
  vm_height :: int
  vm_channels :: int
  vm_mode :: string

record video_chunk_spec =
  vs_metadata :: video_chunk_metadata
  vs_payload :: buffer

text \<open>The declared type of \<open>outputData\<close> is \<open>string | any[]\<close>; a worker that got its payload as a \<open>Buffer\<close> also
  returns a \<open>Buffer\<close>, which the dispatcher passes on as \<open>any\<close>.\<close>

datatype video_output = VText string | VArray "json list" | VBytes buffer

record video_chunk_result =
  vr_parentWorkloadId :: string
  vr_chunkIndex :: int
  vr_totalChunks :: int
  vr_startFrameIndex :: int
  vr_frameCount :: int
  vr_outputData :: video_output
  vr_workerId :: "string option"
  vr_executionTimeMs :: "int option"

subsection \<open>Partition\<close>

definition video_spec ::
  "string \<Rightarrow> int \<Rightarrow> int \<Rightarrow> int \<Rightarrow> string \<Rightarrow> int \<Rightarrow> int \<Rightarrow> int \<Rightarrow> buffer \<Rightarrow> nat \<Rightarrow> video_chunk_spec" where
  "video_spec parentWorkloadId width height channels mode totalFrames actualChunkSize totalChunks videoBuffer i =
     (let frameBytes = width * height * channels;
          startFrame = int i * actualChunkSize;
          framesInChunk = min actualChunkSize (totalFrames - startFrame);
          startByte = startFrame * frameBytes;
          endByte = startByte + framesInChunk * frameBytes
      in \<lparr>vs_metadata = \<lparr>vm_parentWorkloadId = parentWorkloadId, vm_chunkIndex = int i,
            vm_totalChunks = totalChunks, vm_startFrameIndex = startFrame,
            vm_frameCount = framesInChunk, vm_width = width, vm_height = height,
            vm_channels = channels, vm_mode = mode\<rparr>,
          vs_payload = js_subarray videoBuffer startByte endByte\<rparr>)"

text \<open>\<open>Math.ceil(a / b)\<close> for positive integers.\<close>

definition ceil_div :: "int \<Rightarrow> int \<Rightarrow> int" where
  "ceil_div a b = (a + b - 1) div b"

definition partitionVideoFrames ::
  "string \<Rightarrow> int \<Rightarrow> int \<Rightarrow> int \<Rightarrow> string \<Rightarrow> int \<Rightarrow> int \<Rightarrow> buffer \<Rightarrow> chunk_error + video_chunk_spec list" where
  "partitionVideoFrames parentWorkloadId width height channels mode totalFrames chunkSize videoBuffer =
     (if width \<le> 0 \<or> height \<le> 0 \<or> channels \<le> 0 \<or> totalFrames \<le> 0 then Inl InvalidDimensions
      else if int (length videoBuffer) < totalFrames * (width * height * channels) then Inl InvalidBufferLength
      else
        (let actualChunkSize = max 1 chunkSize;
             totalChunks = ceil_div totalFrames actualChunkSize
         in Inr (map (video_spec parentWorkloadId width height channels mode totalFrames actualChunkSize
                        totalChunks videoBuffer) [0..<nat totalChunks])))"

subsection \<open>Reassembly\<close>

text \<open>The metrics of one chunk: an array as it is, a string parsed as JSON or, failing that, as the
  base64 of JSON, and nothing if that fails too or the output is anything else.  A parsed value that is no array makes the spread over
  it throw (or, for a string, iterate over its characters), which is the error \<open>NotIterable\<close> here.\<close>

datatype video_error = VideoChunkError chunk_error | NotIterable

definition parsed_metrics :: "(string \<Rightarrow> json option) \<Rightarrow> (string \<Rightarrow> string) \<Rightarrow> video_output \<Rightarrow> json" where
  "parsed_metrics parse unbase64 out =
     (case out of
        VArray xs \<Rightarrow> JArr xs
      | VBytes b \<Rightarrow> JArr []
      | VText s \<Rightarrow>
          (case parse s of
             Some v \<Rightarrow> v
           | None \<Rightarrow> (case parse (unbase64 s) of Some v \<Rightarrow> v | None \<Rightarrow> JArr [])))"

fun aggregate ::
  "(string \<Rightarrow> json option) \<Rightarrow> (string \<Rightarrow> string) \<Rightarrow> string \<Rightarrow> int \<Rightarrow> json list \<Rightarrow>
   video_chunk_result list \<Rightarrow> video_error + json list" where
  "aggregate parse unbase64 wid i aggregated [] = Inr aggregated"
| "aggregate parse unbase64 wid i aggregated (chunk # rest) =
     (if vr_parentWorkloadId chunk \<noteq> wid then Inl (VideoChunkError MismatchedWorkload)
      else if vr_chunkIndex chunk \<noteq> i then Inl (VideoChunkError (MissingChunk i (vr_chunkIndex chunk)))
      else
        (case parsed_metrics parse unbase64 (vr_outputData chunk) of
           JArr ms \<Rightarrow> aggregate parse unbase64 wid (i + 1) (aggregated @ ms) rest
         | _ \<Rightarrow> Inl NotIterable))"

definition assembleVideoAnalysis ::
  "(string \<Rightarrow> json option) \<Rightarrow> (string \<Rightarrow> string) \<Rightarrow> string \<Rightarrow> video_chunk_result list \<Rightarrow>
   video_error + json list" where
  "assembleVideoAnalysis parse unbase64 parentWorkloadId chunkResults =
     (if chunkResults = [] then Inl (VideoChunkError NoChunks)
      else aggregate parse unbase64 parentWorkloadId 0 [] (sort_key vr_chunkIndex chunkResults))"

subsection \<open>Frame analysis\<close>

record frame_metrics =
  fm_frameIndex :: nat
  fm_luminance :: rat
  fm_edgeDensity :: rat
  fm_motionEnergy :: rat
  fm_blurScore :: rat

text \<open>The luminance of the pixel that starts at index \<open>p\<close>; with fewer channels the last one is reused.\<close>

definition pixel_lum :: "nat \<Rightarrow> (nat \<Rightarrow> byte) \<Rightarrow> nat \<Rightarrow> rat" where
  "pixel_lum channels input p =
     (let r = of_int (uint (input p)); g = of_int (uint (input (p + min 1 (channels - 1))));
          b = of_int (uint (input (p + min 2 (channels - 1))))
      in 299 / 1000 * r + 587 / 1000 * g + 114 / 1000 * b)"

type_synonym frame_sums = "rat \<times> rat \<times> rat \<times> rat"

definition analyze_pixel ::
  "nat \<Rightarrow> nat \<Rightarrow> nat \<Rightarrow> (nat \<Rightarrow> byte) \<Rightarrow> nat \<Rightarrow> nat option \<Rightarrow> nat \<Rightarrow> nat \<Rightarrow> frame_sums \<Rightarrow> frame_sums" where
  "analyze_pixel width height channels input frameOffset prevFrameOffset y x acc =
     (case acc of (sumLum, sumLumSq, sumEdgeEnergy, sumMotion) \<Rightarrow>
        let rowOffset = frameOffset + y * width * channels;
            nextRowOffset = frameOffset + min (height - 1) (y + 1) * width * channels;
            lum = pixel_lum channels input (rowOffset + x * channels);
            nextLum = pixel_lum channels input (rowOffset + min (width - 1) (x + 1) * channels);
            downLum = pixel_lum channels input (nextRowOffset + x * channels)
        in (sumLum + lum, sumLumSq + lum * lum,
            sumEdgeEnergy + (abs (nextLum - lum) + abs (downLum - lum)),
            (case prevFrameOffset of
               None \<Rightarrow> sumMotion
             | Some prev \<Rightarrow> sumMotion + abs (lum - pixel_lum channels input (prev + (y * width + x) * channels)))))"

text \<open>\<open>Math.round(v * 100) / 100\<close>.\<close>

definition round2 :: "rat \<Rightarrow> rat" where
  "round2 v = of_int (js_round (v * 100)) / 100"

definition frame_sums_of ::
  "nat \<Rightarrow> nat \<Rightarrow> nat \<Rightarrow> (nat \<Rightarrow> byte) \<Rightarrow> nat \<Rightarrow> nat option \<Rightarrow> frame_sums" where
  "frame_sums_of width height channels input frameOffset prevFrameOffset =
     fold (\<lambda>y. fold (\<lambda>x. analyze_pixel width height channels input frameOffset prevFrameOffset y x)
       [0..<width]) [0..<height] (0, 0, 0, 0)"

definition analyze_frame ::
  "(rat \<Rightarrow> rat) \<Rightarrow> nat \<Rightarrow> nat \<Rightarrow> nat \<Rightarrow> nat \<Rightarrow> (nat \<Rightarrow> byte) \<Rightarrow> nat \<Rightarrow> nat \<Rightarrow> nat option \<Rightarrow> frame_metrics" where
  "analyze_frame sqrtf width height channels startFrameIndex input f frameOffset prevFrameOffset =
     (case frame_sums_of width height channels input frameOffset prevFrameOffset of
        (sumLum, sumLumSq, sumEdgeEnergy, sumMotion) \<Rightarrow>
          let totalPixels = of_nat (width * height);
              meanLum = sumLum / totalPixels;
              varianceLum = max 0 (sumLumSq / totalPixels - meanLum * meanLum);
              edgeDensity = sumEdgeEnergy / totalPixels;
              motionEnergy = (if prevFrameOffset \<noteq> None then sumMotion / totalPixels else 0);
              blurScore = sqrtf varianceLum * (edgeDensity / 10)
          in \<lparr>fm_frameIndex = startFrameIndex + f, fm_luminance = round2 meanLum,
              fm_edgeDensity = round2 edgeDensity, fm_motionEnergy = round2 motionEnergy,
              fm_blurScore = round2 blurScore\<rparr>)"

definition video_frame_analysis ::
  "(rat \<Rightarrow> rat) \<Rightarrow> nat \<Rightarrow> nat \<Rightarrow> nat \<Rightarrow> nat \<Rightarrow> nat \<Rightarrow> buffer \<Rightarrow> frame_metrics list" where
  "video_frame_analysis sqrtf width height channels frameCount startFrameIndex input =
     (let frameBytes = width * height * channels;
          actualFrames = max 1 (min frameCount (length input div frameBytes))
      in fst (fold (\<lambda>f (results, prevFrameOffset).
            let frameOffset = f * frameBytes
            in (results @ [analyze_frame sqrtf width height channels startFrameIndex (\<lambda>i. input ! i) f
                             frameOffset prevFrameOffset], Some frameOffset))
          [0..<actualFrames] ([], None)))"

text \<open>The entries of the JSON array that the worker thread posts back.\<close>

definition metrics_json :: "frame_metrics \<Rightarrow> json" where
  "metrics_json m = JObj [(''frameIndex'', JNum (of_nat (fm_frameIndex m))), (''luminance'', JNum (fm_luminance m)),
     (''edgeDensity'', JNum (fm_edgeDensity m)), (''motionEnergy'', JNum (fm_motionEnergy m)),
     (''blurScore'', JNum (fm_blurScore m))]"

text \<open>What a worker computes for a chunk, from the parameters of the chunk's task, and the result that the
  dispatcher makes of it.\<close>

definition run_video_chunk :: "(rat \<Rightarrow> rat) \<Rightarrow> video_chunk_spec \<Rightarrow> frame_metrics list" where
  "run_video_chunk sqrtf spec =
     (let m = vs_metadata spec
      in video_frame_analysis sqrtf (nat (vm_width m)) (nat (vm_height m)) (mode_channels (vm_mode m))
           (nat (vm_frameCount m)) (nat (vm_startFrameIndex m)) (vs_payload spec))"

definition video_result ::
  "string \<Rightarrow> video_chunk_spec \<Rightarrow> video_output \<Rightarrow> string \<Rightarrow> int \<Rightarrow> video_chunk_result" where
  "video_result parentWorkloadId spec outputData targetWorkerId executionTimeMs =
     (let m = vs_metadata spec
      in \<lparr>vr_parentWorkloadId = parentWorkloadId, vr_chunkIndex = vm_chunkIndex m,
          vr_totalChunks = vm_totalChunks m, vr_startFrameIndex = vm_startFrameIndex m,
          vr_frameCount = vm_frameCount m, vr_outputData = outputData,
          vr_workerId = Some targetWorkerId, vr_executionTimeMs = Some executionTimeMs\<rparr>)"

subsection \<open>The loop over the frames\<close>

abbreviation prev_offset :: "nat \<Rightarrow> nat \<Rightarrow> nat option" where
  "prev_offset fb f \<equiv> (if f = 0 then None else Some ((f - 1) * fb))"

lemma frames_fold:
  "fold (\<lambda>f (results, prev). let off = f * fb in (results @ [A f off prev], Some off)) [0..<n] ([], None) =
     (map (\<lambda>f. A f (f * fb) (prev_offset fb f)) [0..<n], prev_offset fb n)"
  by (induction n) (auto simp: Let_def)

lemma video_frame_analysis_eq:
  "video_frame_analysis sqrtf w h ch n start input =
     map (\<lambda>f. analyze_frame sqrtf w h ch start (\<lambda>i. input ! i) f (f * (w * h * ch)) (prev_offset (w * h * ch) f))
       [0..<max 1 (min n (length input div (w * h * ch)))]"
  unfolding video_frame_analysis_def Let_def [of "w * h * ch"]
  by (simp add: Let_def [of "max _ _"] frames_fold [where A = "analyze_frame sqrtf w h ch start (\<lambda>i. input ! i)"])

subsection \<open>A frame only depends on itself and its predecessor\<close>

lemma pixel_in_frame:
  assumes "y < h" and "x < w" and "k < (ch::nat)"
  shows "y * w * ch + x * ch + k < w * h * ch"
proof -
  have "x * ch + k < Suc x * ch" using assms(3) by simp
  also have "\<dots> \<le> w * ch" using assms(2) by (intro mult_le_mono1) simp
  finally have "y * (w * ch) + (x * ch + k) < Suc y * (w * ch)" by simp
  also have "\<dots> \<le> h * (w * ch)" using assms(1) by (intro mult_le_mono1) simp
  finally show ?thesis by (simp add: ac_simps)
qed

lemma pixel_lum_shift:
  assumes same: "\<And>k. k < w * h * ch \<Longrightarrow> input' (off' + k) = input (off + k)"
    and "y < h" and "x < w" and "0 < ch"
  shows "pixel_lum ch input' (off' + y * w * ch + x * ch) = pixel_lum ch input (off + y * w * ch + x * ch)"
proof -
  have "input' (off' + y * w * ch + x * ch + k) = input (off + y * w * ch + x * ch + k)" if "k < ch" for k
    using same [OF pixel_in_frame [OF assms(2,3) that]] by (simp add: add.assoc)
  from this [of 0] this [of "min 1 (ch - 1)"] this [of "min 2 (ch - 1)"] assms(4)
  show ?thesis by (simp add: pixel_lum_def Let_def)
qed

lemma fold_cong_upt_all:
  "(\<And>k z. k < n \<Longrightarrow> f k z = g k z) \<Longrightarrow> fold f [0..<n] z = fold g [0..<n] z"
  by (intro fold_cong) (auto intro: ext)

lemma frame_sums_shift:
  assumes "0 < ch" and same: "\<And>k. k < w * h * ch \<Longrightarrow> input' (off' + k) = input (off + k)"
    and prev: "rel_option (\<lambda>p' p. \<forall>k<w * h * ch. input' (p' + k) = input (p + k)) prev' prev"
  shows "frame_sums_of w h ch input' off' prev' = frame_sums_of w h ch input off prev"
  unfolding frame_sums_of_def
proof (intro fold_cong_upt_all)
  fix y x z assume y: "y < h" and x: "x < w"
  note lum = pixel_lum_shift [of w h ch input' off' input off, OF same]
  have 1: "pixel_lum ch input' (off' + y * w * ch + x * ch) = pixel_lum ch input (off + y * w * ch + x * ch)"
    using y x assms(1) by (intro lum)
  have 2: "pixel_lum ch input' (off' + y * w * ch + min (w - 1) (x + 1) * ch) =
      pixel_lum ch input (off + y * w * ch + min (w - 1) (x + 1) * ch)"
    using y x assms(1) by (intro lum) auto
  have 3: "pixel_lum ch input' (off' + min (h - 1) (y + 1) * w * ch + x * ch) =
      pixel_lum ch input (off + min (h - 1) (y + 1) * w * ch + x * ch)"
    using y x assms(1) by (intro lum) auto
  have 4: "pixel_lum ch input' (p' + (y * w + x) * ch) = pixel_lum ch input (p + (y * w + x) * ch)"
    if "prev' = Some p'" "prev = Some p" for p' p
    using prev that y x assms(1) pixel_lum_shift [of w h ch input' p' input p y x]
    by (simp add: add_mult_distrib add.assoc)
  show "analyze_pixel w h ch input' off' prev' y x z = analyze_pixel w h ch input off prev y x z"
    using prev 4 by (cases z; cases prev'; cases prev) (simp_all add: analyze_pixel_def Let_def 1 2 [simplified] 3 [simplified])
qed

lemma analyze_frame_shift:
  assumes "0 < ch" and "\<And>k. k < w * h * ch \<Longrightarrow> input' (off' + k) = input (off + k)"
    and "rel_option (\<lambda>p' p. \<forall>k<w * h * ch. input' (p' + k) = input (p + k)) prev' prev"
    and "start' + f' = start + f"
  shows "analyze_frame sqrtf w h ch start' input' f' off' prev' = analyze_frame sqrtf w h ch start input f off prev"
proof -
  have "(prev' = None) = (prev = None)" using assms(3) by (cases prev'; cases prev) auto
  then show ?thesis
    by (simp add: analyze_frame_def frame_sums_shift [OF assms(1-3)] assms(4))
qed

text \<open>Without a predecessor only the motion energy changes, to 0.\<close>

lemma sums_no_prev:
  "frame_sums_of w h ch input off None =
     (case frame_sums_of w h ch input off prev of (a, b, c, m) \<Rightarrow> (a, b, c, 0))"
proof -
  let ?same = "\<lambda>s t. fst s = fst t \<and> fst (snd s) = fst (snd t) \<and>
     fst (snd (snd s)) = fst (snd (snd t)) \<and> snd (snd (snd s)) = (0::rat)"
  have pix: "?same (analyze_pixel w h ch input off None y x s) (analyze_pixel w h ch input off prev y x t)"
    if "?same s t" for y x s t
    using that by (cases s; cases t; cases prev) (auto simp: analyze_pixel_def Let_def)
  have row: "?same (fold (analyze_pixel w h ch input off None y) xs s) (fold (analyze_pixel w h ch input off prev y) xs t)"
    if "?same s t" for y xs s t
    using that
  proof (induction xs arbitrary: s t)
    case (Cons x xs)
    from Cons.IH [OF pix [OF Cons.prems, of y x]] show ?case by simp
  qed simp
  have "?same (fold (\<lambda>y. fold (analyze_pixel w h ch input off None y) [0..<w]) ys s)
      (fold (\<lambda>y. fold (analyze_pixel w h ch input off prev y) [0..<w]) ys t)" if "?same s t" for ys s t
    using that
  proof (induction ys arbitrary: s t)
    case (Cons y ys)
    from Cons.IH [OF row [OF Cons.prems, of y "[0..<w]"]] show ?case by simp
  qed simp
  from this [of "(0, 0, 0, 0)" "(0, 0, 0, 0)" "[0..<h]"] show ?thesis
    unfolding frame_sums_of_def by (auto split: prod.splits simp: prod_eq_iff)
qed

lemma analyze_frame_no_prev:
  "analyze_frame sqrtf w h ch start input f off None =
     (analyze_frame sqrtf w h ch start input f off prev)\<lparr>fm_motionEnergy := 0\<rparr>"
  by (simp add: analyze_frame_def sums_no_prev [of w h ch input off prev] Let_def round2_def
      split: prod.splits)

end
