(* ===== verification/Video_Theorems.thy ===== *)
theory Video_Theorems
  imports Video_Chunks
begin

text \<open>
  The properties of the video pipeline: when reassembly succeeds and with what, and how the analysis
  of the chunks relates to the analysis of the whole video.
\<close>

subsection \<open>Reassembly\<close>

abbreviation metrics_of :: "(string \<Rightarrow> json option) \<Rightarrow> (string \<Rightarrow> string) \<Rightarrow> video_chunk_result \<Rightarrow> json" where
  "metrics_of parse unbase64 c \<equiv> parsed_metrics parse unbase64 (vr_outputData c)"

lemma aggregate_exact:
  "aggregate parse unbase64 wid i acc cs = Inr ms \<longleftrightarrow>
     filter (\<lambda>c. vr_parentWorkloadId c \<noteq> wid) cs = [] \<and>
     map vr_chunkIndex cs = map (\<lambda>k. i + int k) [0..<length cs] \<and>
     (\<exists>parts. map (metrics_of parse unbase64) cs = map JArr parts \<and> ms = acc @ concat parts)"
proof (induction cs arbitrary: i acc)
  case Nil
  then show ?case by auto
next
  case (Cons c cs)
  have idx: "map (\<lambda>k. i + int k) [0..<length (c # cs)] = i # map (\<lambda>k. i + 1 + int k) [0..<length cs]"
    by (simp add: upt_rec [of 0] map_Suc_upt [symmetric] comp_def del: upt_Suc)
  show ?case
  proof (cases "metrics_of parse unbase64 c")
    case (JArr ps)
    have "(\<exists>parts. JArr ps # map (metrics_of parse unbase64) cs = map JArr parts \<and> ms = acc @ concat parts) \<longleftrightarrow>
        (\<exists>parts. map (metrics_of parse unbase64) cs = map JArr parts \<and> ms = (acc @ ps) @ concat parts)"
      by (auto simp: Cons_eq_map_conv)
    then show ?thesis unfolding idx using JArr Cons by (simp del: map_map)
  qed (auto simp: Cons_eq_map_conv)
qed

text \<open>Reassembly of a video analysis succeeds exactly on a non-empty set of results of this workload whose
  chunk indices are 0, 1, 2, ... without gap or duplicate and whose outputs all read as arrays, whatever
  order they arrive in; it then returns these arrays in chunk order.\<close>

theorem assembleVideoAnalysis_exact:
  "assembleVideoAnalysis parse unbase64 wid results = Inr ms \<longleftrightarrow>
     (let sorted = sort_key vr_chunkIndex results
      in results \<noteq> [] \<and> filter (\<lambda>c. vr_parentWorkloadId c \<noteq> wid) results = [] \<and>
         map vr_chunkIndex sorted = map int [0..<length results] \<and>
         (\<exists>parts. map (metrics_of parse unbase64) sorted = map JArr parts \<and> ms = concat parts))"
proof (cases "results = []")
  case True
  then show ?thesis by (simp add: assembleVideoAnalysis_def)
next
  case False
  have "filter P (sort_key vr_chunkIndex results) = [] \<longleftrightarrow> filter P results = []" for P
    by (simp add: filter_empty_conv)
  then show ?thesis
    using False by (simp add: assembleVideoAnalysis_def aggregate_exact Let_def)
qed

text \<open>A \<open>Buffer\<close> among the outputs counts as an empty list of metrics.\<close>

lemma aggregate_bytes:
  "aggregate parse unbase64 wid i acc (c # cs) = aggregate parse unbase64 wid (i + 1) acc cs"
  if "vr_outputData c = VBytes b" "vr_parentWorkloadId c = wid" "vr_chunkIndex c = i"
  using that by (simp add: parsed_metrics_def)

subsection \<open>The chunks of a partition\<close>

lemma video_partition_specs:
  assumes "partitionVideoFrames wid w h ch mode frames csize buf = Inr specs"
  shows "0 < w" "0 < h" "0 < ch" "0 < frames" "frames * (w * h * ch) \<le> int (length buf)"
    "specs = map (video_spec wid w h ch mode frames (max 1 csize) (ceil_div frames (max 1 csize)) buf)
       [0..<nat (ceil_div frames (max 1 csize))]"
  using assms by (auto simp: partitionVideoFrames_def Let_def split: if_splits)

lemma ceil_div_bounds:
  assumes "0 < T" and "1 \<le> S"
  shows "i < nat (ceil_div (int T) (int S)) \<longleftrightarrow> i * S < T" and "T \<le> nat (ceil_div (int T) (int S)) * S"
proof -
  have e: "ceil_div (int T) (int S) = int ((T + S - 1) div S)"
    using assms by (simp add: ceil_div_def zdiv_int of_nat_diff)
  show "i < nat (ceil_div (int T) (int S)) \<longleftrightarrow> i * S < T"
  proof -
    have "i < (T + S - 1) div S \<longleftrightarrow> Suc i * S \<le> T + S - 1"
      using assms(2) by (metis Suc_le_eq less_eq_div_iff_mult_less_eq less_le_trans zero_less_one)
    then show ?thesis unfolding e using assms by auto
  qed
  show "T \<le> nat (ceil_div (int T) (int S)) * S"
  proof -
    have "(T + S - 1) mod S < S" using assms(2) by simp
    moreover have "(T + S - 1) div S * S + (T + S - 1) mod S = T + S - 1" by simp
    ultimately show ?thesis unfolding e nat_int by linarith
  qed
qed

text \<open>The frames \<open>i * S \<dots> min (i * S + S) T\<close> of the chunks, one after the other, are all frames.\<close>

lemma frames_concat:
  assumes "0 < T" and "1 \<le> S"
  shows "concat (map (\<lambda>i. map g [i * S..<min (i * S + S) T]) [0..<nat (ceil_div (int T) (int S))]) = map g [0..<T]"
proof -
  let ?n = "nat (ceil_div (int T) (int S))" and ?off = "\<lambda>i. min (i * S) T"
  have sub: "subarray (map g [0..<T]) a b = map g [a..<b]" if "b \<le> T" for a b
    using that by (cases "a \<le> b") (simp_all add: subarray_def drop_map take_map)
  have "map (\<lambda>i. map g [i * S..<min (i * S + S) T]) [0..<?n] =
      map (\<lambda>i. subarray (map g [0..<T]) (?off i) (?off (Suc i))) [0..<?n]"
    using ceil_div_bounds(1) [OF assms] by (simp add: sub add.commute)
  also have "concat \<dots> = subarray (map g [0..<T]) (?off 0) (?off ?n)"
    by (rule concat_tiles) auto
  also have "\<dots> = map g [0..<T]"
    using ceil_div_bounds(2) [OF assms] by (simp add: sub min_absorb2)
  finally show ?thesis .
qed

subsection \<open>One chunk against the whole video\<close>

text \<open>The frame loses its motion energy when it is the first of its chunk.\<close>

definition chunk_metrics :: "nat \<Rightarrow> frame_metrics \<Rightarrow> frame_metrics" where
  "chunk_metrics S m = (if fm_frameIndex m mod S = 0 then m\<lparr>fm_motionEnergy := 0\<rparr> else m)"

lemma fm_frameIndex_analyze [simp]: "fm_frameIndex (analyze_frame sqrtf w h ch start inp f off prev) = start + f"
  by (simp add: analyze_frame_def Let_def split: prod.splits)

lemma chunk_frame:
  assumes "0 < ch" and "f < S" and fb: "fb = w * h * ch"
    and pay: "\<And>k. k < Suc f * fb \<Longrightarrow> payload ! k = buf ! (i * S * fb + k)"
  shows "analyze_frame sqrtf w h ch (i * S) (\<lambda>k. payload ! k) f (f * fb) (prev_offset fb f) =
    chunk_metrics S (analyze_frame sqrtf w h ch 0 (\<lambda>k. buf ! k) (i * S + f) ((i * S + f) * fb)
      (prev_offset fb (i * S + f)))"
proof -
  have same: "payload ! (g * fb + k) = buf ! ((i * S + g) * fb + k)" if "k < w * h * ch" "g \<le> f" for k g
  proof -
    have "g * fb + k < Suc g * fb" using that(1) fb by simp
    also have "\<dots> \<le> Suc f * fb" using that(2) by (intro mult_le_mono1) simp
    finally show ?thesis using pay [of "g * fb + k"] by (simp add: add_mult_distrib add.assoc)
  qed
  show ?thesis
  proof (cases "f = 0")
    case True
    have "analyze_frame sqrtf w h ch (i * S) (\<lambda>k. payload ! k) f (f * fb) None =
        analyze_frame sqrtf w h ch 0 (\<lambda>k. buf ! k) (i * S + f) ((i * S + f) * fb) None"
      using same by (intro analyze_frame_shift) (simp_all add: assms(1))
    also have "\<dots> = (analyze_frame sqrtf w h ch 0 (\<lambda>k. buf ! k) (i * S + f) ((i * S + f) * fb)
        (prev_offset fb (i * S + f)))\<lparr>fm_motionEnergy := 0\<rparr>"
      by (rule analyze_frame_no_prev)
    finally show ?thesis using True by (simp add: chunk_metrics_def)
  next
    case False
    then have "(i * S + f) mod S \<noteq> 0" using assms(2) by simp
    moreover have "prev_offset fb (i * S + f) = Some ((i * S + (f - 1)) * fb)" using False by simp
    moreover have "analyze_frame sqrtf w h ch (i * S) (\<lambda>k. payload ! k) f (f * fb) (Some ((f - 1) * fb)) =
        analyze_frame sqrtf w h ch 0 (\<lambda>k. buf ! k) (i * S + f) ((i * S + f) * fb) (Some ((i * S + (f - 1)) * fb))"
      using same by (intro analyze_frame_shift) (simp_all add: assms(1))
    ultimately show ?thesis using False by (simp add: chunk_metrics_def)
  qed
qed

lemma run_video_chunk_eq:
  assumes "0 < W" and "0 < H" and "1 \<le> S" and "T * (W * H * mode_channels mode) \<le> length buf" and "i * S < T"
  shows "run_video_chunk sqrtf (video_spec wid (int W) (int H) (int (mode_channels mode)) mode (int T) (int S) n buf i) =
    map (\<lambda>f. chunk_metrics S (analyze_frame sqrtf W H (mode_channels mode) 0 (\<lambda>k. buf ! k) f
      (f * (W * H * mode_channels mode)) (prev_offset (W * H * mode_channels mode) f)))
      [i * S..<min (i * S + S) T]"
proof -
  define ch where "ch = mode_channels mode"
  define fb where "fb = W * H * ch"
  define cnt where "cnt = min S (T - i * S)"
  have ch: "0 < ch" by (simp add: ch_def)
  have fb: "0 < fb" using assms(1,2) ch by (simp add: fb_def)
  have cnt: "0 < cnt" "i * S + cnt \<le> T" "cnt \<le> S" using assms(3,5) by (auto simp: cnt_def)
  have cnt_int: "min (int S) (int T - int i * int S) = int cnt"
    using assms(5) by (simp add: cnt_def of_nat_diff of_nat_min)
  have le: "(i * S + cnt) * fb \<le> length buf"
    by (rule le_trans [OF mult_le_mono1 [OF cnt(2)]]) (use assms(4) in \<open>simp add: fb_def ch_def\<close>)
  define payload where "payload = js_subarray buf (int (i * S * fb)) (int ((i * S + cnt) * fb))"
  have pay: "payload = subarray buf (i * S * fb) ((i * S + cnt) * fb)"
    unfolding payload_def by (rule js_subarray_nat) (use le in \<open>simp_all add: add_mult_distrib\<close>)
  have len: "length payload = cnt * fb"
    using le by (simp add: pay add_mult_distrib)
  have nth: "payload ! k = buf ! (i * S * fb + k)" if "k < cnt * fb" for k
    unfolding pay by (rule nth_subarray) (use that le in \<open>simp_all add: add_mult_distrib\<close>)
  have spec: "vs_payload (video_spec wid (int W) (int H) (int ch) mode (int T) (int S) n buf i) = payload"
    unfolding video_spec_def Let_def cnt_int payload_def fb_def by (simp add: algebra_simps)
  have "run_video_chunk sqrtf (video_spec wid (int W) (int H) (int ch) mode (int T) (int S) n buf i) =
      video_frame_analysis sqrtf W H ch cnt (i * S) payload"
    by (simp add: run_video_chunk_def spec) (simp add: video_spec_def Let_def cnt_int ch_def nat_mult_distrib)
  also have "\<dots> = map (\<lambda>f. analyze_frame sqrtf W H ch (i * S) (\<lambda>k. payload ! k) f (f * fb) (prev_offset fb f)) [0..<cnt]"
    using fb cnt(1) by (simp add: video_frame_analysis_eq len flip: fb_def)
  also have "\<dots> = map (\<lambda>f. chunk_metrics S (analyze_frame sqrtf W H ch 0 (\<lambda>k. buf ! k) (i * S + f) ((i * S + f) * fb)
      (prev_offset fb (i * S + f)))) [0..<cnt]"
  proof (rule map_cong [OF refl])
    fix f assume "f \<in> set [0..<cnt]"
    then have f: "f < S" "Suc f \<le> cnt" using cnt(3) by auto
    show "analyze_frame sqrtf W H ch (i * S) (\<lambda>k. payload ! k) f (f * fb) (prev_offset fb f) =
      chunk_metrics S (analyze_frame sqrtf W H ch 0 (\<lambda>k. buf ! k) (i * S + f) ((i * S + f) * fb)
        (prev_offset fb (i * S + f)))"
      by (rule chunk_frame [OF ch f(1) fb_def]) (rule nth, rule less_le_trans [OF _ mult_le_mono1 [OF f(2)]])
  qed
  also have "\<dots> = map (\<lambda>f. chunk_metrics S (analyze_frame sqrtf W H ch 0 (\<lambda>k. buf ! k) f (f * fb) (prev_offset fb f)))
      (map (\<lambda>f. i * S + f) [0..<cnt])" by (simp add: comp_def)
  also have "map (\<lambda>f. i * S + f) [0..<cnt] = [i * S..<min (i * S + S) T]"
  proof -
    have "min (i * S + S) T = cnt + i * S" using assms(5) by (simp add: cnt_def)
    then show ?thesis by (simp only: map_add_upt [symmetric] add.commute [of "i * S"])
  qed
  finally show ?thesis by (simp add: ch_def fb_def)
qed

text \<open>The distributed analysis of a video is the analysis of the whole video, frame for frame and in order,
  except for one field: the first frame of every chunk has no predecessor in its payload, so its motion
  energy is reported as 0.  This holds for any arrival order and for every encoding \<open>out\<close> of the
  workers' metrics that the engine reads back.\<close>

theorem distributed_video:
  assumes part: "partitionVideoFrames wid w h ch mode frames csize buf = Inr specs"
    and mode: "ch = int (mode_channels mode)"
    and out: "\<And>s. s \<in> set specs \<Longrightarrow> parsed_metrics parse unbase64 (out s) =
      JArr (map metrics_json (run_video_chunk sqrtf s))"
    and res: "mset results = mset (map (\<lambda>s. video_result wid s (out s) (wk s) (t s)) specs)"
  shows "assembleVideoAnalysis parse unbase64 wid results =
    Inr (map (\<lambda>m. metrics_json (chunk_metrics (nat (max 1 csize)) m))
      (video_frame_analysis sqrtf (nat w) (nat h) (nat ch) (nat frames) 0 buf))"
proof -
  note p = video_partition_specs [OF part]
  define W H T S where "W = nat w" and "H = nat h" and "T = nat frames" and "S = nat (max 1 csize)"
  have ints: "w = int W" "h = int H" "frames = int T" "max 1 csize = int S"
    using p(1-4) by (simp_all add: W_def H_def T_def S_def)
  have pos: "0 < W" "0 < H" "0 < T" "1 \<le> S" using p(1-4) by (simp_all add: W_def H_def T_def S_def)
  let ?ch = "mode_channels mode"
  have buf: "T * (W * H * ?ch) \<le> length buf"
  proof -
    have "int (T * (W * H * ?ch)) \<le> int (length buf)" using p(5) by (simp add: ints mode)
    then show ?thesis by (simp only: of_nat_le_iff)
  qed
  define n where "n = nat (ceil_div (int T) (int S))"
  define spec where "spec = video_spec wid (int W) (int H) (int ?ch) mode (int T) (int S) (ceil_div (int T) (int S)) buf"
  define res where "res = (\<lambda>s. video_result wid s (out s) (wk s) (t s))"
  note bounds = ceil_div_bounds [OF pos(3,4), folded n_def]
  have specs: "specs = map spec [0..<n]" using p(6) by (simp add: spec_def n_def ints mode)
  have idx: "map vr_chunkIndex (map res specs) = map int [0..<n]"
    by (simp add: specs res_def spec_def video_result_def video_spec_def Let_def)
  have sorted: "sort_key vr_chunkIndex results = map res specs"
  proof (rule sort_key_permuted)
    show "mset results = mset (map res specs)" using assms(4) by (simp add: res_def)
    show "sorted (map vr_chunkIndex (map res specs))" unfolding idx by (simp add: sorted_map sorted_wrt_upt)
    show "distinct (map vr_chunkIndex (map res specs))" unfolding idx by (simp add: distinct_map)
  qed
  have len: "length results = n" using arg_cong [OF assms(4), of size] by (simp add: specs)
  have "0 < n" using bounds(1) [of 0] pos(3) by simp
  then have ne: "results \<noteq> []" using len by auto
  have wid: "filter (\<lambda>c. vr_parentWorkloadId c \<noteq> wid) results = []"
  proof -
    have "filter (\<lambda>c. vr_parentWorkloadId c \<noteq> wid) (map res specs) = []"
      by (auto simp: filter_empty_conv res_def video_result_def Let_def)
    then show ?thesis unfolding sorted [symmetric] by (simp add: filter_empty_conv)
  qed
  let ?run = "\<lambda>s. map metrics_json (run_video_chunk sqrtf s)"
  have parts: "map (metrics_of parse unbase64) (map res specs) = map JArr (map ?run specs)"
    using out by (simp add: res_def video_result_def Let_def)
  let ?g = "\<lambda>f. analyze_frame sqrtf W H ?ch 0 (\<lambda>k. buf ! k) f (f * (W * H * ?ch)) (prev_offset (W * H * ?ch) f)"
  have "map ?run specs = map (\<lambda>i. map (\<lambda>f. metrics_json (chunk_metrics S (?g f)))
      [i * S..<min (i * S + S) T]) [0..<n]"
    unfolding specs spec_def map_map comp_def
  proof (rule map_cong [OF refl])
    fix i assume "i \<in> set [0..<n]"
    then have "i * S < T" using bounds(1) by simp
    from run_video_chunk_eq [OF pos(1,2,4) buf this]
    show "map metrics_json (run_video_chunk sqrtf (video_spec wid (int W) (int H) (int ?ch) mode (int T) (int S)
        (ceil_div (int T) (int S)) buf i)) =
      map (\<lambda>f. metrics_json (chunk_metrics S (?g f))) [i * S..<min (i * S + S) T]"
      by (simp only: map_map comp_def)
  qed
  then have "concat (map ?run specs) = concat (map (\<lambda>i. map (\<lambda>f. metrics_json (chunk_metrics S (?g f)))
      [i * S..<min (i * S + S) T]) [0..<n])" by (rule arg_cong)
  also have "\<dots> = map (\<lambda>f. metrics_json (chunk_metrics S (?g f))) [0..<T]"
    unfolding n_def by (rule frames_concat [OF pos(3,4)])
  also have "\<dots> = map (\<lambda>m. metrics_json (chunk_metrics S m)) (video_frame_analysis sqrtf W H ?ch T 0 buf)"
  proof -
    have "0 < W * H * ?ch" using pos by simp
    then have "T \<le> length buf div (W * H * ?ch)" using buf by (simp add: less_eq_div_iff_mult_less_eq)
    then have "max 1 (min T (length buf div (W * H * ?ch))) = T" using pos(3) by simp
    then show ?thesis by (simp add: video_frame_analysis_eq comp_def)
  qed
  finally have whole: "concat (map ?run specs) =
      map (\<lambda>m. metrics_json (chunk_metrics S m)) (video_frame_analysis sqrtf W H ?ch T 0 buf)" .
  have "map vr_chunkIndex (map res specs) = map int [0..<length results]" unfolding idx len ..
  moreover have "Inr (concat (map ?run specs)) = (Inr (map (\<lambda>m. metrics_json (chunk_metrics (nat (max 1 csize)) m))
      (video_frame_analysis sqrtf (nat w) (nat h) (nat ch) (nat frames) 0 buf)) :: video_error + json list)"
    unfolding whole by (simp add: W_def H_def T_def S_def mode)
  ultimately show ?thesis
    using assembleVideoAnalysis_exact [of parse unbase64 wid results "concat (map ?run specs)"] ne wid parts
    unfolding sorted Let_def by (simp only: simp_thms) blast
qed

lemma sample_metrics:
  "map (\<lambda>m. (fm_frameIndex m, fm_motionEnergy m)) (video_frame_analysis id 1 1 1 3 0 [10, 40, 100]) = [(0,0), (1,30), (2,60)]"
  unfolding video_frame_analysis_eq
  by (simp add: analyze_frame_def frame_sums_of_def analyze_pixel_def pixel_lum_def round2_def upt_conv_Cons Let_def js_round_def
    floor_eq_iff)

theorem distributed_video_witness:
  "\<exists>specs parse out. partitionVideoFrames ''v'' 1 1 1 ''L'' 3 2 [10, 40, 100] = Inr specs \<and> length specs = 2 \<and>
     assembleVideoAnalysis parse id ''v''
       (rev (map (\<lambda>s. video_result ''v'' s (VText (out s)) ''d'' 1) specs)) =
     Inr (map (\<lambda>m. metrics_json (chunk_metrics 2 m))
       (video_frame_analysis id 1 1 1 3 0 [10, 40, 100])) \<and>
     map fm_motionEnergy (video_frame_analysis id 1 1 1 3 0 [10, 40, 100]) = [0, 30, 60] \<and>
     map (fm_motionEnergy \<circ> chunk_metrics 2) (video_frame_analysis id 1 1 1 3 0 [10, 40, 100]) = [0, 30, 0]"
proof -
  define specs where "specs = map (video_spec ''v'' 1 1 1 ''L'' 3 2 2 [10, 40, 100]) [0, 1]"
  have s: "partitionVideoFrames ''v'' 1 1 1 ''L'' 3 2 [10, 40, 100] = Inr specs"
    by (simp add: partitionVideoFrames_def specs_def ceil_div_def upt_conv_Cons)
  define out where "out = (\<lambda>s :: video_chunk_spec. replicate (nat (vm_chunkIndex (vs_metadata s))) CHR ''x'')"
  define parse where "parse = map_of (map (\<lambda>s. (out s, JArr (map metrics_json (run_video_chunk id s)))) specs)"
  have out: "parsed_metrics parse id (VText (out s)) = JArr (map metrics_json (run_video_chunk id s))"
    if "s \<in> set specs" for s
    using that by (auto simp: parsed_metrics_def parse_def specs_def out_def video_spec_def Let_def)
  have "int (mode_channels ''L'') = 1" by (simp add: mode_channels_def)
  with distributed_video [OF s _ out, of "rev (map (\<lambda>s. video_result ''v'' s (VText (out s)) ''d'' 1) specs)" "\<lambda>_. ''d''" "\<lambda>_. 1"]
  have "assembleVideoAnalysis parse id ''v''
       (rev (map (\<lambda>s. video_result ''v'' s (VText (out s)) ''d'' 1) specs)) =
     Inr (map (\<lambda>m. metrics_json (chunk_metrics 2 m)) (video_frame_analysis id 1 1 1 3 0 [10, 40, 100]))"
    by simp
  moreover have "length specs = 2" by (simp add: specs_def)
  moreover have "map fm_motionEnergy (video_frame_analysis id 1 1 1 3 0 [10, 40, 100]) = [0, 30, 60]"
    using arg_cong [OF sample_metrics, of "map snd"] by (simp add: comp_def)
  moreover have "map (fm_motionEnergy \<circ> chunk_metrics 2) (video_frame_analysis id 1 1 1 3 0 [10, 40, 100]) = [0, 30, 0]"
    using arg_cong [OF sample_metrics, of "map (\<lambda>(i, e). if i mod 2 = 0 then 0 else e)"]
    by (simp add: comp_def chunk_metrics_def if_distrib [of fm_motionEnergy] cong: if_cong)
  ultimately show ?thesis using s by (intro exI [of _ specs] exI [of _ parse] exI [of _ out] conjI)
qed

end
