(* ===== verification/Worker_Manager.thy ===== *)
theory Worker_Manager
  imports Types
begin

text \<open>
  \<open>WorkerManager\<close> of \<^verbatim>\<open>core/src/worker_manager.ts\<close>: registration, telemetry with the eligibility gate, and
  the live execution stage of every worker.  The manager is its map from device ids to worker states;
  the live state of a worker is held by its entry only.  \<open>Date.now()\<close> is the argument \<open>now\<close>.
\<close>

record worker_state =
  ws_deviceId :: string
  ws_capabilityProfile :: capability_profile
  ws_latestTelemetry :: "worker_telemetry option"
  ws_isEligible :: bool
  ws_connectedAtMs :: ms
  ws_lastHeartbeatMs :: ms
  ws_liveState :: "worker_live_state option"

type_synonym worker_manager = "(string, worker_state) jsmap"

datatype manager_error = UnsupportedSchema int | WorkerNotRegistered string

definition idle_checklist :: pipeline_checklist where
  "idle_checklist = checklist False False False False False"

definition fresh_live :: "string \<Rightarrow> string \<Rightarrow> ms \<Rightarrow> bool \<Rightarrow> worker_live_state" where
  "fresh_live deviceId deviceName heartbeat eligible =
     \<lparr>ls_deviceId = deviceId, ls_deviceName = deviceName, ls_connectionState = CONNECTED,
      ls_stage = Stage_READY, ls_currentTaskId = None, ls_currentChunkIndex = None,
      ls_totalChunks = None, ls_startFrameIndex = None, ls_frameCount = None,
      ls_executionTimeMs = None, ls_stageStartTimeMs = None,
      ls_completedChunks = 0, ls_failedChunks = 0, ls_retryCount = 0,
      ls_pipelineStages = idle_checklist, ls_lastHeartbeatMs = heartbeat,
      ls_isEligible = eligible, ls_lastCompletedTaskId = None\<rparr>"

definition registerWorker ::
  "worker_manager \<Rightarrow> ms \<Rightarrow> capability_profile \<Rightarrow> manager_error + (worker_manager \<times> worker_state)" where
  "registerWorker m now profile =
     (if cp_capabilitySchemaVersion profile \<noteq> CAPABILITY_SCHEMA_VERSION
      then Inl (UnsupportedSchema (cp_capabilitySchemaVersion profile))
      else
        (let deviceId = cp_deviceId profile;
             existing = jget m deviceId;
             liveState = (case Option.bind existing ws_liveState of
                Some l \<Rightarrow> l
              | None \<Rightarrow> fresh_live deviceId (str_or (Some (cp_deviceName profile)) deviceId) now False);
             liveState = liveState\<lparr>ls_connectionState := CONNECTED, ls_stage := Stage_READY,
                           ls_lastHeartbeatMs := now\<rparr>;
             workerState = \<lparr>ws_deviceId = deviceId, ws_capabilityProfile = profile,
                ws_latestTelemetry = Option.bind existing ws_latestTelemetry,
                ws_isEligible = (case existing of None \<Rightarrow> False | Some w \<Rightarrow> ws_isEligible w),
                ws_connectedAtMs = (case existing of None \<Rightarrow> now | Some w \<Rightarrow> ws_connectedAtMs w),
                ws_lastHeartbeatMs = now, ws_liveState = Some liveState\<rparr>
         in Inr (jset m deviceId workerState, workerState)))"

text \<open>The hard gate; the telemetry is the one of a device, \<open>env\<close> the process environment.\<close>

definition evaluateEligibility :: "environment \<Rightarrow> worker_telemetry \<Rightarrow> bool" where
  "evaluateEligibility env t =
     (let batteryOk = (ignore_battery env \<or> 20 / 100 \<le> tm_batteryLevel t \<or> tm_isCharging t);
          thermalOk = tm_thermalState t < SERIOUS;
          cpuOk = tm_cpuUtilization t < 90 / 100
      in batteryOk \<and> thermalOk \<and> cpuOk)"

definition getOrCreateLiveState :: "ms \<Rightarrow> worker_state \<Rightarrow> worker_live_state" where
  "getOrCreateLiveState now w =
     (case ws_liveState w of
        Some l \<Rightarrow> l
      | None \<Rightarrow> fresh_live (ws_deviceId w)
          (str_or (Some (cp_deviceName (ws_capabilityProfile w))) (ws_deviceId w))
          (if ws_lastHeartbeatMs w = 0 then now else ws_lastHeartbeatMs w) (ws_isEligible w))"

definition updateTelemetry ::
  "environment \<Rightarrow> worker_manager \<Rightarrow> ms \<Rightarrow> worker_telemetry \<Rightarrow> manager_error + (worker_manager \<times> worker_state)" where
  "updateTelemetry env m now telemetry =
     (case jget m (tm_deviceId telemetry) of
        None \<Rightarrow> Inl (WorkerNotRegistered (tm_deviceId telemetry))
      | Some worker \<Rightarrow>
          let isEligible = evaluateEligibility env telemetry;
              live = getOrCreateLiveState now worker;
              w = worker\<lparr>ws_latestTelemetry := Some (telemetry\<lparr>tm_isEligible := Some isEligible\<rparr>),
                    ws_isEligible := isEligible, ws_lastHeartbeatMs := now,
                    ws_liveState := Some (live\<lparr>ls_isEligible := isEligible, ls_lastHeartbeatMs := now\<rparr>)\<rparr>
          in Inr (jset m (tm_deviceId telemetry) w, w))"

text \<open>The fields of \<open>Partial<WorkerLiveState>\<close> that \<open>updateWorkerStage\<close> reads.\<close>

record stage_details =
  sd_currentTaskId :: "string option"
  sd_currentChunkIndex :: "int option"
  sd_totalChunks :: "int option"
  sd_startFrameIndex :: "int option"
  sd_frameCount :: "int option"
  sd_executionTimeMs :: "int option"
  sd_lastCompletedTaskId :: "string option"
  sd_pipelineStages :: "pipeline_checklist option"

abbreviation set_if :: "'a option \<Rightarrow> 'a option \<Rightarrow> 'a option" where
  "set_if new old \<equiv> (if new \<noteq> None then new else old)"

definition apply_details :: "stage_details \<Rightarrow> worker_live_state \<Rightarrow> worker_live_state" where
  "apply_details d live =
     live\<lparr>ls_currentTaskId := set_if (sd_currentTaskId d) (ls_currentTaskId live),
          ls_currentChunkIndex := set_if (sd_currentChunkIndex d) (ls_currentChunkIndex live),
          ls_totalChunks := set_if (sd_totalChunks d) (ls_totalChunks live),
          ls_startFrameIndex := set_if (sd_startFrameIndex d) (ls_startFrameIndex live),
          ls_frameCount := set_if (sd_frameCount d) (ls_frameCount live),
          ls_executionTimeMs := set_if (sd_executionTimeMs d) (ls_executionTimeMs live),
          ls_lastCompletedTaskId := set_if (sd_lastCompletedTaskId d) (ls_lastCompletedTaskId live),
          ls_pipelineStages := (case sd_pipelineStages d of None \<Rightarrow> ls_pipelineStages live | Some p \<Rightarrow> p)\<rparr>"

text \<open>The checklist follows the stage; \<open>None\<close> is a stage that leaves it alone.\<close>

fun stage_checklist :: "execution_stage \<Rightarrow> pipeline_checklist option" where
  "stage_checklist Stage_FETCHING = Some (checklist True False False False False)"
| "stage_checklist Stage_DECRYPTING = Some (checklist True True False False False)"
| "stage_checklist Stage_DECODING = Some (checklist True True True False False)"
| "stage_checklist Stage_EXECUTING = Some (checklist True True True True False)"
| "stage_checklist Stage_TRANSMITTING = Some (checklist True True True True True)"
| "stage_checklist Stage_COMPLETED = Some idle_checklist"
| "stage_checklist Stage_READY = Some idle_checklist"
| "stage_checklist _ = None"

fun stage_effect :: "execution_stage \<Rightarrow> worker_live_state \<Rightarrow> worker_live_state" where
  "stage_effect Stage_COMPLETED l = l\<lparr>ls_completedChunks := ls_completedChunks l + 1, ls_currentTaskId := None,
     ls_currentChunkIndex := None, ls_startFrameIndex := None, ls_frameCount := None\<rparr>"
| "stage_effect Stage_READY l = l\<lparr>ls_currentTaskId := None, ls_currentChunkIndex := None,
     ls_startFrameIndex := None, ls_frameCount := None\<rparr>"
| "stage_effect Stage_FAILED l = l\<lparr>ls_failedChunks := ls_failedChunks l + 1\<rparr>"
| "stage_effect Stage_RETRYING l = l\<lparr>ls_retryCount := ls_retryCount l + 1\<rparr>"
| "stage_effect Stage_OFFLINE l = l\<lparr>ls_connectionState := OFFLINE\<rparr>"
| "stage_effect _ l = l"

definition staged_live ::
  "ms \<Rightarrow> execution_stage \<Rightarrow> stage_details option \<Rightarrow> worker_live_state \<Rightarrow> worker_live_state" where
  "staged_live now stage details live =
     (let live = live\<lparr>ls_stage := stage, ls_stageStartTimeMs := Some now\<rparr>;
          live = (case details of None \<Rightarrow> live | Some d \<Rightarrow> apply_details d live);
          live = (case stage_checklist stage of None \<Rightarrow> live | Some c \<Rightarrow> live\<lparr>ls_pipelineStages := c\<rparr>)
      in stage_effect stage live)"

definition updateWorkerStage ::
  "worker_manager \<Rightarrow> ms \<Rightarrow> string \<Rightarrow> execution_stage \<Rightarrow> stage_details option \<Rightarrow>
   worker_manager \<times> worker_live_state option" where
  "updateWorkerStage m now deviceId stage details =
     (case jget m deviceId of
        None \<Rightarrow> (m, None)
      | Some worker \<Rightarrow>
          let live = staged_live now stage details (getOrCreateLiveState now worker)
          in (jset m deviceId (worker\<lparr>ws_liveState := Some live\<rparr>), Some live))"

definition unregisterWorker :: "worker_manager \<Rightarrow> string \<Rightarrow> worker_manager \<times> bool" where
  "unregisterWorker m deviceId = (jdelete m deviceId, jhas m deviceId)"

definition getWorker :: "worker_manager \<Rightarrow> string \<Rightarrow> worker_state option" where
  "getWorker m deviceId = jget m deviceId"

definition listWorkers :: "worker_manager \<Rightarrow> worker_state list" where
  "listWorkers m = jvalues m"

definition listEligibleWorkers :: "worker_manager \<Rightarrow> worker_state list" where
  "listEligibleWorkers m = filter ws_isEligible (jvalues m)"

text \<open>Listing the live states creates the missing ones.\<close>

definition listLiveStates :: "worker_manager \<Rightarrow> ms \<Rightarrow> worker_manager \<times> worker_live_state list" where
  "listLiveStates m now =
     (map (\<lambda>(k, w). (k, w\<lparr>ws_liveState := Some (getOrCreateLiveState now w)\<rparr>)) m,
      map (getOrCreateLiveState now) (jvalues m))"

subsection \<open>Operations as steps\<close>

datatype manager_op =
    Register capability_profile
  | Telemetry worker_telemetry
  | Stage string execution_stage "stage_details option"
  | Unregister string
  | ListLive

fun manager_step :: "environment \<Rightarrow> ms \<times> manager_op \<Rightarrow> worker_manager \<Rightarrow> worker_manager" where
  "manager_step env (now, Register p) m = (case registerWorker m now p of Inl _ \<Rightarrow> m | Inr (m', _) \<Rightarrow> m')"
| "manager_step env (now, Telemetry t) m = (case updateTelemetry env m now t of Inl _ \<Rightarrow> m | Inr (m', _) \<Rightarrow> m')"
| "manager_step env (now, Stage d s ds) m = fst (updateWorkerStage m now d s ds)"
| "manager_step env (now, Unregister d) m = fst (unregisterWorker m d)"
| "manager_step env (now, ListLive) m = fst (listLiveStates m now)"

subsection \<open>The invariant\<close>

text \<open>Every entry is filed under its own id, a worker is eligible exactly when its last telemetry passes
  the gate, and its live state names the same device, says the same, and has the checklist of its stage
  (registration alone sets the stage READY and leaves the checklist alone).\<close>

definition worker_ok :: "environment \<Rightarrow> string \<Rightarrow> worker_state \<Rightarrow> bool" where
  "worker_ok env k w \<longleftrightarrow> ws_deviceId w = k \<and> cp_deviceId (ws_capabilityProfile w) = k \<and>
     cp_capabilitySchemaVersion (ws_capabilityProfile w) = CAPABILITY_SCHEMA_VERSION \<and>
     ws_isEligible w = (case ws_latestTelemetry w of None \<Rightarrow> False
       | Some t \<Rightarrow> tm_deviceId t = k \<and> evaluateEligibility env t) \<and>
     (case ws_liveState w of None \<Rightarrow> False
      | Some l \<Rightarrow> ls_deviceId l = k \<and> ls_isEligible l = ws_isEligible w \<and>
          (case stage_checklist (ls_stage l) of None \<Rightarrow> True | Some c \<Rightarrow> ls_stage l = Stage_READY \<or> ls_pipelineStages l = c))"

definition manager_ok :: "environment \<Rightarrow> worker_manager \<Rightarrow> bool" where
  "manager_ok env m \<longleftrightarrow> distinct (map fst m) \<and> (\<forall>k w. jget m k = Some w \<longrightarrow> worker_ok env k w)"

lemma manager_ok_jset:
  "manager_ok env m \<Longrightarrow> worker_ok env k w \<Longrightarrow> manager_ok env (jset m k w)"
  by (auto simp: manager_ok_def js_simps distinct_update split: if_splits)

lemma evaluateEligibility_flag [simp]:
  "evaluateEligibility env (t\<lparr>tm_isEligible := x\<rparr>) = evaluateEligibility env t"
  by (simp add: evaluateEligibility_def)

lemma live_ok:
  assumes "worker_ok env k w"
  shows "ls_deviceId (getOrCreateLiveState now w) = k"
    "ls_isEligible (getOrCreateLiveState now w) = ws_isEligible w"
  using assms by (auto simp: worker_ok_def getOrCreateLiveState_def fresh_live_def split: option.splits)

lemma live_state_ok:
  "worker_ok env k w \<Longrightarrow> worker_ok env k (w\<lparr>ws_liveState := Some (getOrCreateLiveState now w)\<rparr>)"
  by (auto simp: worker_ok_def getOrCreateLiveState_def fresh_live_def split: option.splits)

lemma stage_effect_sel [simp]:
  "ls_deviceId (stage_effect s l) = ls_deviceId l" "ls_isEligible (stage_effect s l) = ls_isEligible l"
  "ls_stage (stage_effect s l) = ls_stage l" "ls_pipelineStages (stage_effect s l) = ls_pipelineStages l"
  by (cases s; simp)+

lemma staged_live_sel [simp]:
  "ls_deviceId (staged_live now s d l) = ls_deviceId l" "ls_isEligible (staged_live now s d l) = ls_isEligible l"
  "ls_stage (staged_live now s d l) = s"
  by (simp_all add: staged_live_def apply_details_def Let_def split: option.splits)

lemma staged_live_checklist: "stage_checklist s = Some c \<Longrightarrow> ls_pipelineStages (staged_live now s d l) = c"
  by (simp add: staged_live_def Let_def)

lemma worker_ok_staged:
  assumes "worker_ok env k w"
  shows "worker_ok env k (w\<lparr>ws_liveState := Some (staged_live now s d (getOrCreateLiveState now w))\<rparr>)"
  using assms live_ok [OF assms, of now]
  by (auto simp: worker_ok_def staged_live_checklist split: option.splits)

lemma registerWorker_entry:
  assumes "registerWorker m now p = Inr (m', w)"
  shows "m' = jset m (cp_deviceId p) w" and "cp_capabilitySchemaVersion p = CAPABILITY_SCHEMA_VERSION"
    and "ws_deviceId w = cp_deviceId p" and "ws_capabilityProfile w = p"
    and "ws_latestTelemetry w = Option.bind (jget m (cp_deviceId p)) ws_latestTelemetry"
    and "ws_isEligible w = (case jget m (cp_deviceId p) of None \<Rightarrow> False | Some w0 \<Rightarrow> ws_isEligible w0)"
    and "\<exists>l. ws_liveState w = Some l \<and> ls_stage l = Stage_READY \<and> ls_connectionState l = CONNECTED \<and>
      (case Option.bind (jget m (cp_deviceId p)) ws_liveState of
         None \<Rightarrow> ls_deviceId l = cp_deviceId p \<and> \<not> ls_isEligible l
       | Some l0 \<Rightarrow> ls_deviceId l = ls_deviceId l0 \<and> ls_isEligible l = ls_isEligible l0)"
  using assms by (cases "Option.bind (jget m (cp_deviceId p)) ws_liveState";
    auto simp: registerWorker_def Let_def fresh_live_def split: if_splits)+

lemma registerWorker_ok:
  assumes "manager_ok env m" and "registerWorker m now p = Inr (m', w)"
  shows "manager_ok env m'"
proof -
  note e = registerWorker_entry [OF assms(2)]
  have "worker_ok env (cp_deviceId p) w"
  proof (cases "jget m (cp_deviceId p)")
    case None
    then show ?thesis using e by (auto simp: worker_ok_def)
  next
    case (Some w0)
    then have "worker_ok env (cp_deviceId p) w0" using assms(1) by (simp add: manager_ok_def)
    then show ?thesis using e Some by (cases "ws_liveState w0") (auto simp: worker_ok_def)
  qed
  then show ?thesis using manager_ok_jset [OF assms(1)] e(1) by simp
qed

lemma updateTelemetry_entry:
  assumes "updateTelemetry env m now t = Inr (m', w)"
  shows "\<exists>w0. jget m (tm_deviceId t) = Some w0 \<and> m' = jset m (tm_deviceId t) w \<and>
    w = w0\<lparr>ws_latestTelemetry := Some (t\<lparr>tm_isEligible := Some (evaluateEligibility env t)\<rparr>),
      ws_isEligible := evaluateEligibility env t, ws_lastHeartbeatMs := now,
      ws_liveState := Some ((getOrCreateLiveState now w0)
        \<lparr>ls_isEligible := evaluateEligibility env t, ls_lastHeartbeatMs := now\<rparr>)\<rparr>"
  using assms unfolding updateTelemetry_def Let_def by (cases "jget m (tm_deviceId t)") auto

lemma updateTelemetry_ok:
  assumes "manager_ok env m" and "updateTelemetry env m now t = Inr (m', w)"
  shows "manager_ok env m'"
proof -
  obtain w0 where e: "jget m (tm_deviceId t) = Some w0" "m' = jset m (tm_deviceId t) w"
    "w = w0\<lparr>ws_latestTelemetry := Some (t\<lparr>tm_isEligible := Some (evaluateEligibility env t)\<rparr>),
      ws_isEligible := evaluateEligibility env t, ws_lastHeartbeatMs := now,
      ws_liveState := Some ((getOrCreateLiveState now w0)
        \<lparr>ls_isEligible := evaluateEligibility env t, ls_lastHeartbeatMs := now\<rparr>)\<rparr>"
    using updateTelemetry_entry [OF assms(2)] by blast
  then have ok: "worker_ok env (tm_deviceId t) w0" using assms(1) by (simp add: manager_ok_def)
  have "worker_ok env (tm_deviceId t) w"
    using live_state_ok [OF ok, of now] by (cases "stage_checklist (ls_stage (getOrCreateLiveState now w0))") (simp_all add: e(3) worker_ok_def)
  then show ?thesis using manager_ok_jset [OF assms(1)] e(2) by simp
qed

interpretation wm: machine "manager_step env" "manager_ok env" for env
proof
  fix m :: worker_manager and op :: "ms \<times> manager_op"
  assume ok: "manager_ok env m"
  obtain now o' where op: "op = (now, o')" by (cases op)
  show "manager_ok env (manager_step env op m)"
  proof (cases o')
    case (Stage d s ds)
    show ?thesis
    proof (cases "jget m d")
      case (Some w)
      then have "worker_ok env d w" using ok by (simp add: manager_ok_def)
      from manager_ok_jset [OF ok worker_ok_staged [OF this]] Stage Some show ?thesis
        by (simp add: op updateWorkerStage_def Let_def)
    qed (use ok Stage in \<open>simp add: op updateWorkerStage_def\<close>)
  next
    case (Unregister d)
    then show ?thesis using ok by (auto simp: op unregisterWorker_def manager_ok_def js_simps distinct_delete split: if_splits)
  next
    case ListLive
    have "map_of (map (\<lambda>(k, w). (k, f w)) m) k = map_option f (map_of m k)" for f :: "worker_state \<Rightarrow> worker_state" and k
      by (induction m) auto
    then show ?thesis using ok ListLive
      by (auto simp: op listLiveStates_def manager_ok_def comp_def case_prod_beta live_state_ok)
  next
    case (Register p)
    show ?thesis
    proof (cases "registerWorker m now p")
      case (Inr r)
      then show ?thesis using registerWorker_ok [OF ok, of now p "fst r" "snd r"] Register
        by (cases r) (simp add: op)
    qed (use ok Register in \<open>simp add: op\<close>)
  next
    case (Telemetry t)
    show ?thesis
    proof (cases "updateTelemetry env m now t")
      case (Inr r)
      then show ?thesis using updateTelemetry_ok [OF ok, of now t "fst r" "snd r"] Telemetry
        by (cases r) (simp add: op)
    qed (use ok Telemetry in \<open>simp add: op\<close>)
  qed
qed

subsection \<open>Properties\<close>


text \<open>After any sequence of operations the list of eligible workers holds exactly the registered workers
  whose last telemetry passes the hard gate - battery at 20 per cent or charging (unless the
  environment says to ignore it), thermal state below SERIOUS, CPU below 90 per cent - and none twice; a
  worker that never sent telemetry is not eligible.\<close>

theorem eligible_by_gate:
  "let m = fold (manager_step env) ops []
   in distinct (listEligibleWorkers m) \<and>
      (w \<in> set (listEligibleWorkers m) \<longleftrightarrow>
        getWorker m (ws_deviceId w) = Some w \<and>
        (\<exists>t. ws_latestTelemetry w = Some t \<and> tm_deviceId t = ws_deviceId w \<and>
          (ignore_battery env \<or> 1 / 5 \<le> tm_batteryLevel t \<or> tm_isCharging t) \<and>
          (tm_thermalState t = NOMINAL \<or> tm_thermalState t = FAIR) \<and> tm_cpuUtilization t < 9 / 10))"
proof -
  define m where "m = fold (manager_step env) ops []"
  have "manager_ok env m" unfolding m_def by (rule wm.run_inv) (simp add: manager_ok_def)
  then have d: "distinct (map fst m)" and ok: "\<And>k w. jget m k = Some w \<Longrightarrow> worker_ok env k w"
    by (auto simp: manager_ok_def)
  have id: "ws_deviceId (snd e) = fst e" if "e \<in> set m" for e
    using ok [of "fst e" "snd e"] that d by (auto simp: worker_ok_def map_of_eq_Some_iff)
  have "inj_on snd (set m)" using id by (intro inj_onI) (metis prod_eq_iff)
  then have "distinct (jvalues m)" using d by (simp add: distinct_map)
  then have dist: "distinct (listEligibleWorkers m)" by (simp add: listEligibleWorkers_def)
  have mem: "w \<in> set (jvalues m) \<longleftrightarrow> jget m (ws_deviceId w) = Some w"
  proof
    assume "w \<in> set (jvalues m)"
    then obtain k where "(k, w) \<in> set m" by auto
    then show "jget m (ws_deviceId w) = Some w" using id [of "(k, w)"] d by (simp add: map_of_eq_Some_iff)
  qed (rule jget_in_jvalues)
  have gate: "ws_isEligible w \<longleftrightarrow> (\<exists>t. ws_latestTelemetry w = Some t \<and> tm_deviceId t = ws_deviceId w \<and>
      (ignore_battery env \<or> 1 / 5 \<le> tm_batteryLevel t \<or> tm_isCharging t) \<and>
      (tm_thermalState t = NOMINAL \<or> tm_thermalState t = FAIR) \<and> tm_cpuUtilization t < 9 / 10)"
    if "jget m (ws_deviceId w) = Some w"
    using ok [OF that] by (auto simp: worker_ok_def evaluateEligibility_def Let_def split: option.splits)
  show ?thesis
    unfolding m_def [symmetric] Let_def using dist mem gate by (auto simp: listEligibleWorkers_def getWorker_def)
qed

end
