(* ===== verification/Scheduler.thy ===== *)
theory Scheduler
  imports Worker_Manager Task_Store
begin

text \<open>
  \<^verbatim>\<open>core/src/scheduler.ts\<close>: the scored scheduler and the FIFO scheduler.  Scores are exact ratios where the
  source has doubles.  \<open>JSON.parse\<close> of a computation descriptor is the parameter \<open>parse\<close> (\<open>None\<close> when it
  throws), the process environment is \<open>env\<close>.  A profile with 0 MB of memory makes the memory headroom
  \<open>Infinity\<close> or \<open>NaN\<close> in the source and 0 here; the model covers profiles with some memory.
\<close>

subsection \<open>Data\<close>

record scheduler_weights =
  w1_throughput :: rat
  w2_capacity :: rat
  w3_transferCost :: rat
  w4_instability :: rat

definition DEFAULT_SCHEDULER_WEIGHTS :: scheduler_weights where
  "DEFAULT_SCHEDULER_WEIGHTS = \<lparr>w1_throughput = 40 / 100, w2_capacity = 30 / 100,
     w3_transferCost = 15 / 100, w4_instability = 15 / 100\<rparr>"

record score_components =
  throughputScore :: rat
  capacityScore :: rat
  transferCostScore :: rat
  instabilityPenalty :: rat

record candidate_score =
  cs_workerId :: string
  cs_eligible :: bool
  cs_finalScore :: rat
  cs_components :: score_components
  cs_isExcludedForTask :: bool

datatype scheduling_status = DECIDED_ASSIGNED | WAITING_FOR_ELIGIBLE_WORKER | NO_ELIGIBLE_WORKER_REMAINING

datatype decision_reason = SelectedHighest string rat | AllExcluded nat | NoEligibleWorkers

record scheduling_decision =
  de_taskId :: string
  de_selectedWorker :: "worker_state option"
  de_status :: scheduling_status
  de_weights :: scheduler_weights
  de_candidateScores :: "candidate_score list"
  de_reason :: "decision_reason option"

record scored_scheduler =
  sc_weights :: scheduler_weights
  sc_throughput :: "(string, rat) jsmap"
  sc_failures :: "(string, nat) jsmap"

definition new_scheduler :: "scheduler_weights \<Rightarrow> scored_scheduler" where
  "new_scheduler weights = \<lparr>sc_weights = weights, sc_throughput = [], sc_failures = []\<rparr>"

subsection \<open>Throughput and failure history\<close>

definition setWorkerThroughput :: "scored_scheduler \<Rightarrow> string \<Rightarrow> rat \<Rightarrow> scored_scheduler" where
  "setWorkerThroughput s workerId itemsPerSecond =
     s\<lparr>sc_throughput := jset (sc_throughput s) workerId itemsPerSecond\<rparr>"

definition updateWorkerThroughputEma :: "scored_scheduler \<Rightarrow> string \<Rightarrow> rat \<Rightarrow> rat \<Rightarrow> scored_scheduler" where
  "updateWorkerThroughputEma s workerId measured alpha =
     (case jget (sc_throughput s) workerId of
        None \<Rightarrow> s\<lparr>sc_throughput := jset (sc_throughput s) workerId measured\<rparr>
      | Some prev \<Rightarrow> s\<lparr>sc_throughput := jset (sc_throughput s) workerId (alpha * measured + (1 - alpha) * prev)\<rparr>)"

definition failure_count :: "scored_scheduler \<Rightarrow> string \<Rightarrow> nat" where
  "failure_count s workerId = (case jget (sc_failures s) workerId of None \<Rightarrow> 0 | Some n \<Rightarrow> n)"

definition recordWorkerFailure :: "scored_scheduler \<Rightarrow> string \<Rightarrow> scored_scheduler" where
  "recordWorkerFailure s workerId =
     s\<lparr>sc_failures := jset (sc_failures s) workerId (failure_count s workerId + 1)\<rparr>"

definition resetWorkerFailures :: "scored_scheduler \<Rightarrow> string \<Rightarrow> scored_scheduler" where
  "resetWorkerFailures s workerId = s\<lparr>sc_failures := jdelete (sc_failures s) workerId\<rparr>"

subsection \<open>Proportional allocation\<close>

fun allocate_loop ::
  "int \<Rightarrow> rat \<Rightarrow> int \<Rightarrow> candidate_score list \<Rightarrow> (string, int) jsmap \<Rightarrow> (string, int) jsmap" where
  "allocate_loop totalItems totalScore assignedTotal [] allocation = allocation"
| "allocate_loop totalItems totalScore assignedTotal [c] allocation =
     jset allocation (cs_workerId c) (totalItems - assignedTotal)"
| "allocate_loop totalItems totalScore assignedTotal (c # cs) allocation =
     (let count = js_round (cs_finalScore c / totalScore * of_int totalItems)
      in allocate_loop totalItems totalScore (assignedTotal + count) cs (jset allocation (cs_workerId c) count))"

definition allocatable :: "candidate_score list \<Rightarrow> candidate_score list" where
  "allocatable cs = filter (\<lambda>c. cs_eligible c \<and> \<not> cs_isExcludedForTask c \<and> 0 < cs_finalScore c) cs"

definition allocateMultiChunkWorkload :: "int \<Rightarrow> candidate_score list \<Rightarrow> (string, int) jsmap" where
  "allocateMultiChunkWorkload totalItems candidateScores =
     (let eligible = allocatable candidateScores
      in if eligible = [] \<or> totalItems \<le> 0 then []
         else allocate_loop totalItems (sum_list (map cs_finalScore eligible)) 0 eligible [])"

subsection \<open>The hard filter\<close>

definition telemetry_gate :: "environment \<Rightarrow> worker_telemetry option \<Rightarrow> bool" where
  "telemetry_gate env telemetry =
     (case telemetry of
        None \<Rightarrow> True
      | Some t \<Rightarrow>
          if 2 \<le> thermal_code (tm_thermalState t) then False
          else if 90 / 100 \<le> tm_cpuUtilization t then False
          else if \<not> ignore_battery env \<and> \<not> tm_isCharging t \<and> tm_batteryLevel t < 20 / 100 then False
          else True)"

definition minCores :: "task \<Rightarrow> int" where
  "minCores task = (case num_or_undef (minCpuCores (t_requiredResources task)) of None \<Rightarrow> 1 | Some n \<Rightarrow> n)"

definition minRam :: "task \<Rightarrow> int" where
  "minRam task = (case minRamMb (t_requiredResources task) of None \<Rightarrow> 0 | Some n \<Rightarrow> n)"

definition needsGpu :: "task \<Rightarrow> bool" where
  "needsGpu task = (requiresGpu (t_requiredResources task) = Some True)"

definition resource_gate :: "task \<Rightarrow> capability_profile \<Rightarrow> bool" where
  "resource_gate task profile =
     (if cp_cpuCores profile < minCores task then False
      else if cp_totalRamMb profile < minRam task then False
      else if needsGpu task \<and> \<not> cp_hasGpu profile then False
      else True)"

definition kernel_of :: "(string \<Rightarrow> json option) \<Rightarrow> string \<Rightarrow> string" where
  "kernel_of parse descriptor =
     (case truthy_str (json_field (parse descriptor) ''kernelId'') of None \<Rightarrow> descriptor | Some k \<Rightarrow> k)"

definition kernel_gate :: "(string \<Rightarrow> json option) \<Rightarrow> task \<Rightarrow> capability_profile \<Rightarrow> bool" where
  "kernel_gate parse task profile =
     (case cp_supportedKernels profile of
        None \<Rightarrow> True
      | Some ks \<Rightarrow> ks = [] \<or> kernel_of parse (t_computationDescriptor task) \<in> set ks \<or>
          t_computationDescriptor task \<in> set ks)"

definition fits :: "environment \<Rightarrow> (string \<Rightarrow> json option) \<Rightarrow> task \<Rightarrow> worker_state \<Rightarrow> bool" where
  "fits env parse task worker \<longleftrightarrow> ws_isEligible worker \<and> telemetry_gate env (ws_latestTelemetry worker) \<and>
     resource_gate task (ws_capabilityProfile worker) \<and> kernel_gate parse task (ws_capabilityProfile worker)"

subsection \<open>Scores\<close>

definition round4 :: "rat \<Rightarrow> rat" where
  "round4 x = of_int (js_round (x * 10000)) / 10000"

definition throughput_score :: "scored_scheduler \<Rightarrow> worker_state \<Rightarrow> rat" where
  "throughput_score s worker =
     (let profile = ws_capabilityProfile worker;
          nominal = of_int (cp_cpuCores profile * 100 + (if cp_hasGpu profile then 500 else 0))
      in min 1 ((case jget (sc_throughput s) (ws_deviceId worker) of None \<Rightarrow> nominal | Some x \<Rightarrow> x) / 2000))"

definition in_flight_count :: "task_store option \<Rightarrow> worker_state \<Rightarrow> nat" where
  "in_flight_count taskStore worker =
     (case taskStore of None \<Rightarrow> 0 | Some ts \<Rightarrow> getActiveTaskCountForWorker ts (ws_deviceId worker))"

definition capacity_score :: "task_store option \<Rightarrow> worker_state \<Rightarrow> rat" where
  "capacity_score taskStore worker =
     (let inFlightLoad = min (9 / 10) (of_nat (in_flight_count taskStore worker) * (45 / 100));
          cpu = (case ws_latestTelemetry worker of None \<Rightarrow> 3 / 10 | Some t \<Rightarrow> tm_cpuUtilization t);
          ram = (case ws_latestTelemetry worker of None \<Rightarrow> 4096 | Some t \<Rightarrow> of_int (tm_availableRamMb t));
          cpuHeadroom = max (1 / 100) (1 - cpu - inFlightLoad);
          ramHeadroom = min 1 (ram / of_int (cp_totalRamMb (ws_capabilityProfile worker)))
      in max 0 (min 1 (5 / 10 * cpuHeadroom + 5 / 10 * ramHeadroom)))"

definition instability_penalty :: "scored_scheduler \<Rightarrow> worker_state \<Rightarrow> rat" where
  "instability_penalty s worker = min 1 (of_nat (failure_count s (ws_deviceId worker)) * (30 / 100))"

definition final_score :: "scored_scheduler \<Rightarrow> task_store option \<Rightarrow> worker_state \<Rightarrow> rat" where
  "final_score s taskStore worker =
     (let transferCostScore = 10 / 100;
          inFlightPenalty = of_nat (in_flight_count taskStore worker) * (50 / 100);
          finalScore = max 0 (w1_throughput (sc_weights s) * throughput_score s worker
             + w2_capacity (sc_weights s) * capacity_score taskStore worker
             - w3_transferCost (sc_weights s) * transferCostScore
             - w4_instability (sc_weights s) * instability_penalty s worker - inFlightPenalty)
      in round4 finalScore)"

definition candidate ::
  "scored_scheduler \<Rightarrow> environment \<Rightarrow> (string \<Rightarrow> json option) \<Rightarrow> task \<Rightarrow> task_store option \<Rightarrow> string list \<Rightarrow>
   worker_state \<Rightarrow> candidate_score option" where
  "candidate s env parse task taskStore excluded worker =
     (if \<not> fits env parse task worker then None
      else Some \<lparr>cs_workerId = ws_deviceId worker, cs_eligible = True,
        cs_finalScore = final_score s taskStore worker,
        cs_components = \<lparr>throughputScore = round4 (throughput_score s worker),
          capacityScore = round4 (capacity_score taskStore worker), transferCostScore = round4 (10 / 100),
          instabilityPenalty = round4 (instability_penalty s worker)\<rparr>,
        cs_isExcludedForTask = (ws_deviceId worker \<in> set excluded)\<rparr>)"

subsection \<open>Scheduling a task\<close>

definition excluded_workers :: "task_store option \<Rightarrow> task \<Rightarrow> string list" where
  "excluded_workers taskStore task =
     (case taskStore of None \<Rightarrow> [] | Some ts \<Rightarrow> getExcludedWorkerIds ts (t_id task))"

definition scheduleTask ::
  "scored_scheduler \<Rightarrow> environment \<Rightarrow> (string \<Rightarrow> json option) \<Rightarrow> task \<Rightarrow> worker_state list \<Rightarrow>
   task_store option \<Rightarrow> scheduling_decision" where
  "scheduleTask s env parse task allWorkers taskStore =
     (let excludedWorkerIds = excluded_workers taskStore task;
          candidateScores = List.map_filter (candidate s env parse task taskStore excludedWorkerIds) allWorkers;
          assignableCandidates = sort_key (\<lambda>c. - cs_finalScore c)
            (filter (\<lambda>c. cs_eligible c \<and> \<not> cs_isExcludedForTask c) candidateScores);
          eligibleCount = length (filter cs_eligible candidateScores)
      in case assignableCandidates of
           topCandidate # _ \<Rightarrow>
             \<lparr>de_taskId = t_id task,
              de_selectedWorker = find (\<lambda>w. ws_deviceId w = cs_workerId topCandidate) allWorkers,
              de_status = DECIDED_ASSIGNED, de_weights = sc_weights s, de_candidateScores = candidateScores,
              de_reason = Some (SelectedHighest (cs_workerId topCandidate) (cs_finalScore topCandidate))\<rparr>
         | [] \<Rightarrow>
             if 0 < eligibleCount \<and> list_all cs_isExcludedForTask (filter cs_eligible candidateScores)
             then \<lparr>de_taskId = t_id task, de_selectedWorker = None, de_status = NO_ELIGIBLE_WORKER_REMAINING,
                   de_weights = sc_weights s, de_candidateScores = candidateScores,
                   de_reason = Some (AllExcluded eligibleCount)\<rparr>
             else \<lparr>de_taskId = t_id task, de_selectedWorker = None, de_status = WAITING_FOR_ELIGIBLE_WORKER,
                   de_weights = sc_weights s, de_candidateScores = candidateScores,
                   de_reason = Some NoEligibleWorkers\<rparr>)"

definition selectWorker ::
  "scored_scheduler \<Rightarrow> environment \<Rightarrow> (string \<Rightarrow> json option) \<Rightarrow> task \<Rightarrow> worker_state list \<Rightarrow> worker_state option" where
  "selectWorker s env parse task eligibleWorkers =
     de_selectedWorker (scheduleTask s env parse task eligibleWorkers None)"

subsection \<open>The FIFO scheduler\<close>

fun fifo_selectWorker :: "task \<Rightarrow> worker_state list \<Rightarrow> worker_state option" where
  "fifo_selectWorker task [] = None"
| "fifo_selectWorker task (worker # rest) =
     (if \<not> ws_isEligible worker then fifo_selectWorker task rest
      else if minCores task \<le> cp_cpuCores (ws_capabilityProfile worker) \<and>
              minRam task \<le> cp_totalRamMb (ws_capabilityProfile worker) \<and>
              (\<not> needsGpu task \<or> cp_hasGpu (ws_capabilityProfile worker))
      then Some worker
      else fifo_selectWorker task rest)"

definition fifo_scheduleTask :: "task \<Rightarrow> worker_state list \<Rightarrow> scheduling_decision" where
  "fifo_scheduleTask task allWorkers =
     (let selectedWorker = fifo_selectWorker task allWorkers
      in \<lparr>de_taskId = t_id task, de_selectedWorker = selectedWorker,
          de_status = (if selectedWorker \<noteq> None then DECIDED_ASSIGNED else WAITING_FOR_ELIGIBLE_WORKER),
          de_weights = DEFAULT_SCHEDULER_WEIGHTS, de_candidateScores = [], de_reason = None\<rparr>)"

end
