(* ===== verification/Scheduler_Props.thy ===== *)
theory Scheduler_Props
  imports Scheduler
begin

text \<open>
  The interface of a scheduler (\<open>IScheduler\<close>) with its two implementations, and the properties of the
  scored scheduler: whom it picks, when it picks nobody, and how it splits items.
\<close>

subsection \<open>The interface\<close>

text \<open>What the dispatchers rely on: an assigned task has a worker out of the list that is eligible and has
  the resources, and every other outcome has none.\<close>

locale placement =
  fixes place :: "task \<Rightarrow> worker_state list \<Rightarrow> scheduling_decision"
  assumes place_assigned: "distinct (map ws_deviceId ws) \<Longrightarrow> de_status (place task ws) = DECIDED_ASSIGNED \<Longrightarrow>
      \<exists>w. de_selectedWorker (place task ws) = Some w \<and> w \<in> set ws \<and> ws_isEligible w \<and>
        resource_gate task (ws_capabilityProfile w)"
    and place_other: "de_status (place task ws) \<noteq> DECIDED_ASSIGNED \<Longrightarrow> de_selectedWorker (place task ws) = None"
    and place_task: "de_taskId (place task ws) = t_id task"
begin

lemma place_selected:
  assumes "distinct (map ws_deviceId ws)" and "de_selectedWorker (place task ws) = Some w"
  shows "w \<in> set ws \<and> ws_isEligible w \<and> minCores task \<le> cp_cpuCores (ws_capabilityProfile w) \<and>
    minRam task \<le> cp_totalRamMb (ws_capabilityProfile w) \<and>
    (needsGpu task \<longrightarrow> cp_hasGpu (ws_capabilityProfile w))"
  using place_assigned [OF assms(1), of task] place_other [of task ws] assms(2)
  by (cases "de_status (place task ws) = DECIDED_ASSIGNED")
    (auto simp: resource_gate_def split: if_splits)

end

subsection \<open>Picking the first best candidate\<close>

lemma hd_stable:
  assumes "sort_key f xs = h # t"
  shows "\<exists>us vs. xs = us @ h # vs \<and> (\<forall>u\<in>set us. f h < f u) \<and> (\<forall>v\<in>set vs. f h \<le> f v)"
proof -
  have min: "f h \<le> f x" if "x \<in> set xs" for x
    using assms that sorted_sort_key [of f xs] set_sort [of f xs] by auto
  have "h # filter (\<lambda>y. f y = f h) t = filter (\<lambda>y. f y = f h) (sort_key f xs)" by (simp add: assms)
  also have "\<dots> = filter (\<lambda>y. f y = f h) xs"
    using sort_key_stable [of f "f h" xs] by (simp add: eq_commute)
  finally have "filter (\<lambda>y. f y = f h) xs = h # filter (\<lambda>y. f y = f h) t" ..
  then obtain us vs where us: "xs = us @ h # vs" "\<forall>u\<in>set us. f u \<noteq> f h"
    by (auto simp: filter_eq_Cons_iff)
  then have "\<forall>u\<in>set us. f h < f u" using min by (auto simp: less_le)
  then show ?thesis using us(1) min by auto
qed

lemma filter_eq_split:
  "filter P xs = us @ w # vs \<Longrightarrow>
     \<exists>before after. xs = before @ w # after \<and> filter P before = us \<and> filter P after = vs \<and> P w"
proof (induction xs arbitrary: us)
  case (Cons x xs)
  show ?case
  proof (cases "P x")
    case True
    show ?thesis
    proof (cases us)
      case Nil
      then show ?thesis using Cons.prems True by (intro exI [of _ "[]"] exI [of _ xs]) auto
    next
      case (Cons u us')
      then have "filter P xs = us' @ w # vs" "x = u" using Cons.prems True by auto
      from Cons.IH [OF this(1)] obtain before after where
        "xs = before @ w # after" "filter P before = us'" "filter P after = vs" "P w" by blast
      then show ?thesis using True \<open>us = u # us'\<close> \<open>x = u\<close> by (intro exI [of _ "x # before"] exI [of _ after]) auto
    qed
  next
    case False
    then have "filter P xs = us @ w # vs" using Cons.prems by simp
    from Cons.IH [OF this] obtain before after where
      "xs = before @ w # after" "filter P before = us" "filter P after = vs" "P w" by blast
    then show ?thesis using False by (intro exI [of _ "x # before"] exI [of _ after]) auto
  qed
qed simp

lemma find_by_id:
  "distinct (map ws_deviceId ws) \<Longrightarrow> w \<in> set ws \<Longrightarrow> find (\<lambda>v. ws_deviceId v = ws_deviceId w) ws = Some w"
  by (induction ws) (auto simp: image_iff)

lemma candidate_simps:
  "candidate s env parse task ts ex w = None \<longleftrightarrow> \<not> fits env parse task w"
  "candidate s env parse task ts ex w = Some c \<Longrightarrow> cs_workerId c = ws_deviceId w \<and> cs_eligible c \<and>
     cs_finalScore c = final_score s ts w \<and> cs_isExcludedForTask c = (ws_deviceId w \<in> set ex)"
  by (auto simp: candidate_def split: if_splits)

abbreviation the_candidate where
  "the_candidate s env parse task ts ex w \<equiv> the (candidate s env parse task ts ex w)"

text \<open>The candidates are those of the workers that fit, in the order of the workers.\<close>

lemma candidates_eq:
  "List.map_filter (candidate s env parse task ts ex) ws =
     map (the_candidate s env parse task ts ex) (filter (fits env parse task) ws)"
  by (simp add: List.map_filter_def candidate_simps comp_def)

lemma the_candidate_sel:
  assumes "fits env parse task w"
  shows "cs_workerId (the_candidate s env parse task ts ex w) = ws_deviceId w"
    "cs_eligible (the_candidate s env parse task ts ex w)"
    "cs_finalScore (the_candidate s env parse task ts ex w) = final_score s ts w"
    "cs_isExcludedForTask (the_candidate s env parse task ts ex w) \<longleftrightarrow> ws_deviceId w \<in> set ex"
  using assms by (simp_all add: candidate_def)

definition acceptable ::
  "environment \<Rightarrow> (string \<Rightarrow> json option) \<Rightarrow> task \<Rightarrow> task_store option \<Rightarrow> worker_state \<Rightarrow> bool" where
  "acceptable env parse task ts w \<longleftrightarrow> fits env parse task w \<and> ws_deviceId w \<notin> set (excluded_workers ts task)"

lemma assignable_eq:
  "filter (\<lambda>c. cs_eligible c \<and> \<not> cs_isExcludedForTask c)
     (List.map_filter (candidate s env parse task ts (excluded_workers ts task)) ws) =
   map (the_candidate s env parse task ts (excluded_workers ts task)) (filter (acceptable env parse task ts) ws)"
  unfolding candidates_eq filter_map filter_filter
  by (intro arg_cong2 [where f = map] refl filter_cong) (auto simp: acceptable_def the_candidate_sel)

lemma scheduleTask_none:
  assumes "filter (acceptable env parse task ts) ws = []"
  shows "de_selectedWorker (scheduleTask s env parse task ws ts) = None"
    "de_status (scheduleTask s env parse task ws ts) =
       (if filter (fits env parse task) ws = [] then WAITING_FOR_ELIGIBLE_WORKER else NO_ELIGIBLE_WORKER_REMAINING)"
proof -
  let ?cs = "List.map_filter (candidate s env parse task ts (excluded_workers ts task)) ws"
  have a: "filter (\<lambda>c. cs_eligible c \<and> \<not> cs_isExcludedForTask c) ?cs = []"
    by (simp only: assignable_eq assms list.map)
  then have "list_all cs_isExcludedForTask (filter cs_eligible ?cs)"
    by (auto simp: list_all_iff filter_empty_conv)
  moreover have "filter cs_eligible ?cs = ?cs"
    by (auto simp: candidates_eq the_candidate_sel filter_id_conv)
  moreover have "?cs = [] \<longleftrightarrow> filter (fits env parse task) ws = []" by (simp add: candidates_eq)
  ultimately show "de_selectedWorker (scheduleTask s env parse task ws ts) = None"
    "de_status (scheduleTask s env parse task ws ts) =
       (if filter (fits env parse task) ws = [] then WAITING_FOR_ELIGIBLE_WORKER else NO_ELIGIBLE_WORKER_REMAINING)"
    unfolding scheduleTask_def Let_def a by simp_all
qed

lemma scheduleTask_some:
  assumes "distinct (map ws_deviceId ws)" and "filter (acceptable env parse task ts) ws \<noteq> []"
  shows "\<exists>w before after. scheduleTask s env parse task ws ts =
      (scheduleTask s env parse task ws ts)\<lparr>de_status := DECIDED_ASSIGNED, de_selectedWorker := Some w\<rparr> \<and>
    ws = before @ w # after \<and> acceptable env parse task ts w \<and>
    (\<forall>v\<in>set before. acceptable env parse task ts v \<longrightarrow> final_score s ts v < final_score s ts w) \<and>
    (\<forall>v\<in>set after. acceptable env parse task ts v \<longrightarrow> final_score s ts v \<le> final_score s ts w)"
proof -
  let ?ok = "acceptable env parse task ts" and ?ex = "excluded_workers ts task"
  let ?c = "the_candidate s env parse task ts ?ex"
  obtain h t where h: "sort_key (\<lambda>c. - cs_finalScore c) (map ?c (filter ?ok ws)) = h # t"
    using assms(2) by (cases "sort_key (\<lambda>c. - cs_finalScore c) (map ?c (filter ?ok ws))")
      (auto dest: arg_cong [where f = length])
  obtain us vs where split: "map ?c (filter ?ok ws) = us @ h # vs"
    "\<forall>u\<in>set us. - cs_finalScore h < - cs_finalScore u" "\<forall>v\<in>set vs. - cs_finalScore h \<le> - cs_finalScore v"
    using hd_stable [OF h] by blast
  then obtain us' vs' w where w: "filter ?ok ws = us' @ w # vs'" "us = map ?c us'" "h = ?c w" "vs = map ?c vs'"
    by (auto simp: map_eq_append_conv map_eq_Cons_conv)
  obtain before after where ws: "ws = before @ w # after" "filter ?ok before = us'" "filter ?ok after = vs'"
    and okw: "?ok w"
    using filter_eq_split [OF w(1)] by blast
  have score: "cs_finalScore (?c v) = final_score s ts v" "cs_workerId (?c v) = ws_deviceId v" if "?ok v" for v
    using that by (simp_all add: acceptable_def the_candidate_sel)
  have "find (\<lambda>v. ws_deviceId v = cs_workerId h) ws = Some w"
    using find_by_id [OF assms(1), of w] ws(1) score(2) [OF okw] w(3) by simp
  then have "scheduleTask s env parse task ws ts =
      (scheduleTask s env parse task ws ts)\<lparr>de_status := DECIDED_ASSIGNED, de_selectedWorker := Some w\<rparr>"
    unfolding scheduleTask_def Let_def assignable_eq h by simp
  moreover have "final_score s ts v < final_score s ts w" if "v \<in> set before" "?ok v" for v
  proof -
    have "?c v \<in> set us" using that ws(2) w(2) by auto
    then show ?thesis using split(2) score(1) [OF okw] score(1) [OF that(2)] w(3) by force
  qed
  moreover have "final_score s ts v \<le> final_score s ts w" if "v \<in> set after" "?ok v" for v
  proof -
    have "?c v \<in> set vs" using that ws(3) w(4) by auto
    then show ?thesis using split(3) score(1) [OF okw] score(1) [OF that(2)] w(3) by force
  qed
  ultimately show ?thesis using ws(1) okw by blast
qed

subsection \<open>Both schedulers are placements\<close>

lemma scheduleTask_assigned_iff:
  assumes "distinct (map ws_deviceId ws)"
  shows "de_status (scheduleTask s env parse task ws ts) = DECIDED_ASSIGNED \<longleftrightarrow>
    filter (acceptable env parse task ts) ws \<noteq> []"
proof
  assume a: "filter (acceptable env parse task ts) ws \<noteq> []"
  obtain w where "scheduleTask s env parse task ws ts =
      (scheduleTask s env parse task ws ts)\<lparr>de_status := DECIDED_ASSIGNED, de_selectedWorker := Some w\<rparr>"
    using scheduleTask_some [OF assms a] by blast
  from arg_cong [OF this, of de_status] show "de_status (scheduleTask s env parse task ws ts) = DECIDED_ASSIGNED"
    by simp
qed (auto simp: scheduleTask_none split: if_splits)

lemma scheduleTask_assigned_nonempty:
  "de_status (scheduleTask s env parse task ws ts) = DECIDED_ASSIGNED \<Longrightarrow> filter (acceptable env parse task ts) ws \<noteq> []"
  by (auto simp: scheduleTask_none split: if_splits)

lemma scheduleTask_waiting:
  assumes "de_status (scheduleTask s env parse task ws ts) \<noteq> DECIDED_ASSIGNED"
  shows "filter (acceptable env parse task ts) ws = []"
proof (rule ccontr)
  assume "\<not> ?thesis"
  then obtain h t where "sort_key (\<lambda>c. - cs_finalScore c) (map (the_candidate s env parse task ts (excluded_workers ts task))
      (filter (acceptable env parse task ts) ws)) = h # t"
    by (cases "sort_key (\<lambda>c. - cs_finalScore c) (map (the_candidate s env parse task ts (excluded_workers ts task))
      (filter (acceptable env parse task ts) ws))") (auto dest: arg_cong [where f = length])
  then have "de_status (scheduleTask s env parse task ws ts) = DECIDED_ASSIGNED"
    unfolding scheduleTask_def Let_def assignable_eq by simp
  with assms show False ..
qed

lemma scheduleTask_taskId [simp]: "de_taskId (scheduleTask s env parse task ws ts) = t_id task"
  by (simp add: scheduleTask_def Let_def split: list.splits)

interpretation scored: placement "\<lambda>task ws. scheduleTask s env parse task ws ts" for s env parse ts
proof
  fix ws :: "worker_state list" and task
  assume d: "distinct (map ws_deviceId ws)"
    and a: "de_status (scheduleTask s env parse task ws ts) = DECIDED_ASSIGNED"
  obtain w before after where w: "scheduleTask s env parse task ws ts =
      (scheduleTask s env parse task ws ts)\<lparr>de_status := DECIDED_ASSIGNED, de_selectedWorker := Some w\<rparr>"
    "ws = before @ w # after" "acceptable env parse task ts w"
    using scheduleTask_some [OF d scheduleTask_assigned_nonempty [OF a]] by blast
  from arg_cong [OF w(1), of de_selectedWorker] w(2,3)
  show "\<exists>w. de_selectedWorker (scheduleTask s env parse task ws ts) = Some w \<and> w \<in> set ws \<and> ws_isEligible w \<and>
      resource_gate task (ws_capabilityProfile w)"
    by (auto simp: acceptable_def fits_def)
next
  fix ws :: "worker_state list" and task
  assume "de_status (scheduleTask s env parse task ws ts) \<noteq> DECIDED_ASSIGNED"
  from scheduleTask_none(1) [OF scheduleTask_waiting [OF this]]
  show "de_selectedWorker (scheduleTask s env parse task ws ts) = None" .
qed simp

lemma fifo_selects:
  "fifo_selectWorker task ws = Some w \<Longrightarrow> w \<in> set ws \<and> ws_isEligible w \<and> resource_gate task (ws_capabilityProfile w)"
  by (induction task ws rule: fifo_selectWorker.induct) (auto simp: resource_gate_def split: if_splits)

interpretation fifo: placement fifo_scheduleTask
  by unfold_locales (auto simp: fifo_scheduleTask_def Let_def dest: fifo_selects split: if_splits)

subsection \<open>Properties\<close>

text \<open>C18. The scheduler assigns whenever it can, to the best worker: with one entry per device, the decision is
  ASSIGNED exactly when some worker is acceptable (eligible, passing the telemetry, resource and kernel
  gates, not excluded for this task); the selected worker is the first acceptable one of the highest score.
  With no acceptable worker the status says whether some worker fits but is excluded.\<close>

theorem scheduleTask_exact:
  assumes "distinct (map ws_deviceId ws)"
  shows "(case de_selectedWorker (scheduleTask s env parse task ws ts) of
      None \<Rightarrow> filter (acceptable env parse task ts) ws = [] \<and>
        de_status (scheduleTask s env parse task ws ts) =
          (if filter (fits env parse task) ws = [] then WAITING_FOR_ELIGIBLE_WORKER else NO_ELIGIBLE_WORKER_REMAINING)
    | Some w \<Rightarrow> de_status (scheduleTask s env parse task ws ts) = DECIDED_ASSIGNED \<and>
        acceptable env parse task ts w \<and>
        (\<exists>before after. ws = before @ w # after \<and>
          (\<forall>v\<in>set before. acceptable env parse task ts v \<longrightarrow> final_score s ts v < final_score s ts w) \<and>
          (\<forall>v\<in>set after. acceptable env parse task ts v \<longrightarrow> final_score s ts v \<le> final_score s ts w)))"
proof (cases "filter (acceptable env parse task ts) ws = []")
  case True
  from scheduleTask_none [OF this] True show ?thesis by simp
next
  case False
  then obtain w before after where w: "scheduleTask s env parse task ws ts =
      (scheduleTask s env parse task ws ts)\<lparr>de_status := DECIDED_ASSIGNED, de_selectedWorker := Some w\<rparr>"
    and rest: "ws = before @ w # after" "acceptable env parse task ts w"
    "\<forall>v\<in>set before. acceptable env parse task ts v \<longrightarrow> final_score s ts v < final_score s ts w"
    "\<forall>v\<in>set after. acceptable env parse task ts v \<longrightarrow> final_score s ts v \<le> final_score s ts w"
    using scheduleTask_some [OF assms] by blast
  from arg_cong [OF w, of de_selectedWorker] arg_cong [OF w, of de_status] rest show ?thesis by auto
qed

definition demo_profile :: "string \<Rightarrow> int \<Rightarrow> capability_profile" where
  "demo_profile i cores = \<lparr>cp_capabilitySchemaVersion = 1, cp_deviceId = i, cp_deviceName = i,
     cp_osType = Darwin, cp_osVersion = [], cp_cpuArch = [], cp_cpuCores = cores, cp_totalRamMb = 8192,
     cp_hasGpu = False, cp_gpuModel = None, cp_gpuAccelerationType = None, cp_supportedKernels = None,
     cp_transferBandwidthBytesPerSec = None\<rparr>"

definition demo_worker :: "string \<Rightarrow> int \<Rightarrow> worker_state" where
  "demo_worker i cores = \<lparr>ws_deviceId = i, ws_capabilityProfile = demo_profile i cores,
     ws_latestTelemetry = None, ws_isEligible = True, ws_connectedAtMs = 0, ws_lastHeartbeatMs = 0,
     ws_liveState = None\<rparr>"

definition demo_task :: task where
  "demo_task = full_task 0 \<lparr>nt_id = ''t'', nt_inputRef = [], nt_computationDescriptor = ''k'',
     nt_requiredResources = None, nt_dependencies = None, nt_executionConstraints = None,
     nt_resultDestination = None, nt_assignedWorkerId = None, nt_status = None\<rparr>"

theorem scheduleTask_exact_witness:
  "\<exists>w. de_selectedWorker (scheduleTask (new_scheduler DEFAULT_SCHEDULER_WEIGHTS) (\<lambda>_. None) (\<lambda>_. None) demo_task
      [demo_worker ''a'' 4, demo_worker ''b'' 8, demo_worker ''c'' 8] None) = Some w \<and>
    ws_deviceId w = ''b'' \<and> acceptable (\<lambda>_. None) (\<lambda>_. None) demo_task None w"
proof -
  let ?ws = "[demo_worker ''a'' 4, demo_worker ''b'' 8, demo_worker ''c'' 8]"
  have "distinct (map ws_deviceId ?ws)" by (simp add: demo_worker_def)
  note exact = scheduleTask_exact [OF this, where s = "new_scheduler DEFAULT_SCHEDULER_WEIGHTS" and env = "\<lambda>_. None" and parse = "\<lambda>_. None" and
    task = demo_task and ts = None]
  have "de_selectedWorker (scheduleTask (new_scheduler DEFAULT_SCHEDULER_WEIGHTS) (\<lambda>_. None) (\<lambda>_. None) demo_task
      ?ws None) = Some (demo_worker ''b'' 8)" by code_simp
  moreover have "ws_deviceId (demo_worker ''b'' 8) = ''b''" by (simp add: demo_worker_def)
  ultimately show ?thesis using exact by auto
qed

subsection \<open>Allocation\<close>

text \<open>The last worker gets what is left, the others their rounded share.\<close>

definition shares :: "int \<Rightarrow> rat \<Rightarrow> candidate_score list \<Rightarrow> int list" where
  "shares n tot cs = map (\<lambda>c. js_round (cs_finalScore c / tot * of_int n)) (butlast cs)"

lemma allocate_loop_values:
  assumes "cs \<noteq> []" and "distinct (map cs_workerId cs)" and "set (map cs_workerId cs) \<inter> set (map fst alloc) = {}"
  shows "allocate_loop n tot a cs alloc =
    alloc @ zip (map cs_workerId cs) (shares n tot cs @ [n - a - sum_list (shares n tot cs)])"
  using assms
proof (induction n tot a cs alloc rule: allocate_loop.induct)
  case (2 n tot a c alloc)
  then show ?case by (simp add: jset_fresh shares_def)
next
  case (3 n tot a c c' cs alloc)
  define k where "k = js_round (cs_finalScore c / tot * of_int n)"
  have "jset alloc (cs_workerId c) k = alloc @ [(cs_workerId c, k)]"
    using "3.prems" by (intro jset_fresh) auto
  moreover have "allocate_loop n tot (a + k) (c' # cs) (jset alloc (cs_workerId c) k) = jset alloc (cs_workerId c) k @
      zip (map cs_workerId (c' # cs)) (shares n tot (c' # cs) @ [n - (a + k) - sum_list (shares n tot (c' # cs))])"
    unfolding k_def using "3.prems" by (intro "3.IH" [OF refl]) (auto simp: jset_fresh)
  moreover have "shares n tot (c # c' # cs) = k # shares n tot (c' # cs)" by (simp add: shares_def k_def)
  ultimately show ?case
    by (simp only: allocate_loop.simps Let_def k_def [symmetric]) (simp add: diff_diff_eq add.assoc)
qed simp

lemma sum_rounded_close:
  "\<bar>of_int (sum_list (map (\<lambda>x. js_round (f x)) xs)) - sum_list (map f xs)\<bar> \<le> of_nat (length xs) / (2::rat)"
proof (induction xs)
  case (Cons x xs)
  define a b c d where "a = (of_int (js_round (f x)) :: rat)" and "b = f x"
    and "c = (of_int (sum_list (map (\<lambda>x. js_round (f x)) xs)) :: rat)" and "d = sum_list (map f xs)"
  have "\<bar>a - b\<bar> \<le> 1 / 2" using js_round_close [of "f x"] by (simp add: a_def b_def)
  moreover have "\<bar>c - d\<bar> \<le> of_nat (length xs) / 2" using Cons by (simp add: c_def d_def)
  ultimately have "\<bar>(a + c) - (b + d)\<bar> \<le> 1 / 2 + of_nat (length xs) / 2" by linarith
  then show ?case by (simp add: a_def b_def c_def d_def add_divide_distrib)
qed simp

lemma sum_list_positive: "xs \<noteq> [] \<Longrightarrow> (\<And>x. x \<in> set xs \<Longrightarrow> 0 < f x) \<Longrightarrow> 0 < sum_list (map f xs :: rat list)"
proof (induction xs)
  case (Cons x xs)
  then show ?case by (cases "xs = []") (auto intro!: add_pos_pos)
qed simp

text \<open>C32. Splitting items over the workers is exact and proportional: for a positive number of items and
  candidates of distinct ids, precisely the usable ones (eligible, not excluded, positive score) get an
  entry, the counts add up to the number of items, every worker but the last is within half an item of
  its share of the total score, and the last one within half an item per other worker.\<close>

theorem allocation_proportional:
  assumes "0 < totalItems" and "allocatable cs \<noteq> []" and "distinct (map cs_workerId (allocatable cs))"
  shows "let us = allocatable cs; alloc = allocateMultiChunkWorkload totalItems cs;
      share = (\<lambda>c. cs_finalScore c / sum_list (map cs_finalScore us) * of_int totalItems)
    in map fst alloc = map cs_workerId us \<and> sum_list (map snd alloc) = totalItems \<and>
      list_all2 (\<lambda>c n. \<bar>of_int n - share c\<bar> \<le> 1 / 2) (butlast us) (butlast (map snd alloc)) \<and>
      \<bar>of_int (last (map snd alloc)) - share (last us)\<bar> \<le> of_nat (length us - 1) / 2"
proof -
  define us where "us = allocatable cs"
  define tot where "tot = sum_list (map cs_finalScore us)"
  define share where "share = (\<lambda>c :: candidate_score. cs_finalScore c / tot * of_int totalItems)"
  define ks where "ks = shares totalItems tot us"
  have us: "us \<noteq> []" "distinct (map cs_workerId us)" using assms by (simp_all add: us_def)
  have "0 < tot"
    unfolding tot_def using us(1) by (intro sum_list_positive) (auto simp: us_def allocatable_def)
  have len: "length (ks @ [totalItems - sum_list ks]) = length (map cs_workerId us)"
    using us(1) by (simp add: ks_def shares_def)
  have alloc: "allocateMultiChunkWorkload totalItems cs = zip (map cs_workerId us) (ks @ [totalItems - sum_list ks])"
    using assms(1) us allocate_loop_values [OF us, of "[]" totalItems tot 0]
    by (simp add: allocateMultiChunkWorkload_def us_def tot_def ks_def Let_def)
  have ids: "map fst (allocateMultiChunkWorkload totalItems cs) = map cs_workerId us"
    and vals: "map snd (allocateMultiChunkWorkload totalItems cs) = ks @ [totalItems - sum_list ks]"
    unfolding alloc using len by (simp_all only: map_fst_zip map_snd_zip)
  have close: "list_all2 (\<lambda>c n. \<bar>of_int n - share c\<bar> \<le> 1 / 2) (butlast us) ks"
    unfolding ks_def shares_def share_def list_all2_map2 list_all2_same by (intro ballI js_round_close)
  have "sum_list (map share us) = of_int totalItems"
  proof -
    have "sum_list (map share us) = sum_list (map (\<lambda>c. cs_finalScore c * (of_int totalItems / tot)) us)"
      by (simp add: share_def)
    also have "\<dots> = tot * (of_int totalItems / tot)" by (simp only: sum_list_mult_const tot_def)
    finally show ?thesis using \<open>0 < tot\<close> by simp
  qed
  moreover have "map share us = map share (butlast us) @ [share (last us)]"
    using arg_cong [OF append_butlast_last_id [OF us(1)], of "map share"] by (simp only: map_append list.map)
  ultimately have "share (last us) = of_int totalItems - sum_list (map share (butlast us))" by simp
  then have last: "\<bar>of_int (totalItems - sum_list ks) - share (last us)\<bar> \<le> of_nat (length us - 1) / 2"
    using sum_rounded_close [of share "butlast us"] by (simp add: ks_def shares_def share_def abs_minus_commute)
  have "sum_list (map snd (allocateMultiChunkWorkload totalItems cs)) = totalItems"
    "butlast (map snd (allocateMultiChunkWorkload totalItems cs)) = ks"
    "last (map snd (allocateMultiChunkWorkload totalItems cs)) = totalItems - sum_list ks"
    unfolding vals by simp_all
  then show ?thesis
    unfolding Let_def us_def [symmetric] tot_def [symmetric]
    using ids close last unfolding share_def by (simp only: simp_thms)
qed

text \<open>Four workers of equal score and two items: each of the first three gets one, the last one minus one.\<close>

definition demo_candidate :: "string \<Rightarrow> candidate_score" where
  "demo_candidate i = \<lparr>cs_workerId = i, cs_eligible = True, cs_finalScore = 1 / 2,
     cs_components = \<lparr>throughputScore = 0, capacityScore = 0, transferCostScore = 0, instabilityPenalty = 0\<rparr>,
     cs_isExcludedForTask = False\<rparr>"

theorem allocation_proportional_witness:
  "let cs = map demo_candidate [''a'', ''b'', ''c'', ''d''] in
     sum_list (map snd (allocateMultiChunkWorkload 2 cs)) = 2 \<and>
     allocateMultiChunkWorkload 2 cs = [(''a'', 1), (''b'', 1), (''c'', 1), (''d'', -1)]"
proof -
  let ?cs = "map demo_candidate [''a'', ''b'', ''c'', ''d'']"
  have cs: "allocatable ?cs = ?cs" by (simp add: allocatable_def demo_candidate_def)
  have "allocatable ?cs \<noteq> []" "distinct (map cs_workerId (allocatable ?cs))"
    unfolding cs by (simp_all add: demo_candidate_def)
  from allocation_proportional [of 2, OF _ this]
  have "sum_list (map snd (allocateMultiChunkWorkload 2 ?cs)) = 2" by (simp only: Let_def)
  moreover have "allocateMultiChunkWorkload 2 ?cs = [(''a'', 1), (''b'', 1), (''c'', 1), (''d'', -1)]" by code_simp
  ultimately show ?thesis by (simp only: Let_def)
qed

end
