(* ===== verification/Work_Stealer.thy ===== *)
theory Work_Stealer
  imports Task_Store_Props
begin

text \<open>
  \<open>WorkStealer\<close> of \<^verbatim>\<open>core/src/work_stealer.ts\<close>: running averages of task durations, the straggler test and
  the theft of a straggling task through the task store.  Durations and factors are exact ratios,
  \<open>Date.now()\<close> is the argument \<open>now\<close>.
\<close>

subsection \<open>Data\<close>

record straggler_config =
  detectionThresholdMultiplier :: rat
  minObservationsBeforeDeclaration :: nat
  minDurationMsThreshold :: rat
  stragglerEmaAlpha :: rat
  enableWorkStealing :: bool

definition DEFAULT_STRAGGLER_CONFIG :: straggler_config where
  "DEFAULT_STRAGGLER_CONFIG = \<lparr>detectionThresholdMultiplier = 25 / 10, minObservationsBeforeDeclaration = 3,
     minDurationMsThreshold = 50, stragglerEmaAlpha = 20 / 100, enableWorkStealing = True\<rparr>"

text \<open>\<open>Partial<StragglerDetectorConfig>\<close>, merged by object spread.\<close>

record config_update =
  cu_detectionThresholdMultiplier :: "rat option"
  cu_minObservationsBeforeDeclaration :: "nat option"
  cu_minDurationMsThreshold :: "rat option"
  cu_stragglerEmaAlpha :: "rat option"
  cu_enableWorkStealing :: "bool option"

abbreviation given :: "'a option \<Rightarrow> 'a \<Rightarrow> 'a" where
  "given x old \<equiv> (case x of None \<Rightarrow> old | Some v \<Rightarrow> v)"

definition merge_config :: "straggler_config \<Rightarrow> config_update \<Rightarrow> straggler_config" where
  "merge_config c u =
     \<lparr>detectionThresholdMultiplier = given (cu_detectionThresholdMultiplier u) (detectionThresholdMultiplier c),
      minObservationsBeforeDeclaration =
        given (cu_minObservationsBeforeDeclaration u) (minObservationsBeforeDeclaration c),
      minDurationMsThreshold = given (cu_minDurationMsThreshold u) (minDurationMsThreshold c),
      stragglerEmaAlpha = given (cu_stragglerEmaAlpha u) (stragglerEmaAlpha c),
      enableWorkStealing = given (cu_enableWorkStealing u) (enableWorkStealing c)\<rparr>"

record in_flight_tracking =
  tr_taskId :: string
  tr_workerId :: string
  tr_startTimeMs :: ms
  tr_expectedDurationMs :: rat

datatype steal_outcome =
    StealDisabled
  | NoStraggler
  | Stolen string string string task
  | StealFailed string steal_reason

record work_stealer =
  wk_config :: straggler_config
  wk_avgDurationMs :: "(string, rat) jsmap"
  wk_observationCount :: "(string, nat) jsmap"
  wk_inFlightTasks :: "(string, in_flight_tracking) jsmap"
  wk_totalStealsCount :: nat

definition new_stealer :: "config_update \<Rightarrow> work_stealer" where
  "new_stealer config = \<lparr>wk_config = merge_config DEFAULT_STRAGGLER_CONFIG config, wk_avgDurationMs = [],
     wk_observationCount = [], wk_inFlightTasks = [], wk_totalStealsCount = 0\<rparr>"

definition updateConfig :: "work_stealer \<Rightarrow> config_update \<Rightarrow> work_stealer" where
  "updateConfig s newConfig = s\<lparr>wk_config := merge_config (wk_config s) newConfig\<rparr>"

subsection \<open>Tracking\<close>

definition recordTaskStart :: "work_stealer \<Rightarrow> ms \<Rightarrow> string \<Rightarrow> string \<Rightarrow> rat \<Rightarrow> work_stealer" where
  "recordTaskStart s now taskId workerId expectedDurationMs =
     s\<lparr>wk_inFlightTasks := jset (wk_inFlightTasks s) taskId
         \<lparr>tr_taskId = taskId, tr_workerId = workerId, tr_startTimeMs = now,
          tr_expectedDurationMs = expectedDurationMs\<rparr>\<rparr>"

definition observation_count :: "work_stealer \<Rightarrow> string \<Rightarrow> nat" where
  "observation_count s workerId = (case jget (wk_observationCount s) workerId of None \<Rightarrow> 0 | Some n \<Rightarrow> n)"

definition recordTaskCompletion :: "work_stealer \<Rightarrow> string \<Rightarrow> string \<Rightarrow> rat \<Rightarrow> work_stealer" where
  "recordTaskCompletion s taskId workerId durationMs =
     (let alpha = stragglerEmaAlpha (wk_config s);
          newAvg = (case jget (wk_avgDurationMs s) workerId of
             None \<Rightarrow> durationMs
           | Some prevAvg \<Rightarrow> alpha * durationMs + (1 - alpha) * prevAvg)
      in s\<lparr>wk_inFlightTasks := jdelete (wk_inFlightTasks s) taskId,
           wk_observationCount := jset (wk_observationCount s) workerId (observation_count s workerId + 1),
           wk_avgDurationMs := jset (wk_avgDurationMs s) workerId newAvg\<rparr>)"

definition stealer_recordTaskFailure :: "work_stealer \<Rightarrow> string \<Rightarrow> work_stealer" where
  "stealer_recordTaskFailure s taskId = s\<lparr>wk_inFlightTasks := jdelete (wk_inFlightTasks s) taskId\<rparr>"

subsection \<open>The straggler test\<close>

definition getClusterMedianDurationMs :: "work_stealer \<Rightarrow> rat" where
  "getClusterMedianDurationMs s =
     (let values' = sort (filter (\<lambda>v. 0 < v) (jvalues (wk_avgDurationMs s)));
          mid = length values' div 2
      in if values' = [] then minDurationMsThreshold (wk_config s)
         else if length values' mod 2 \<noteq> 0 then values' ! mid
         else (values' ! (mid - 1) + values' ! mid) / 2)"

text \<open>\<open>Map.get(w) || expected\<close>: an average of 0 counts as none.\<close>

definition worker_average :: "work_stealer \<Rightarrow> in_flight_tracking \<Rightarrow> rat" where
  "worker_average s tracking =
     (case jget (wk_avgDurationMs s) (tr_workerId tracking) of
        None \<Rightarrow> tr_expectedDurationMs tracking
      | Some v \<Rightarrow> if v = 0 then tr_expectedDurationMs tracking else v)"

definition threshold :: "work_stealer \<Rightarrow> in_flight_tracking \<Rightarrow> rat" where
  "threshold s tracking =
     (let baseline = max (minDurationMsThreshold (wk_config s))
            (min (worker_average s tracking) (getClusterMedianDurationMs s))
      in baseline * detectionThresholdMultiplier (wk_config s))"

definition isTaskStraggling :: "work_stealer \<Rightarrow> string \<Rightarrow> ms \<Rightarrow> bool \<times> ms" where
  "isTaskStraggling s taskId now =
     (case jget (wk_inFlightTasks s) taskId of
        None \<Rightarrow> (False, 0)
      | Some tracking \<Rightarrow>
          let elapsedMs = now - tr_startTimeMs tracking
          in if of_int elapsedMs < minDurationMsThreshold (wk_config s) then (False, elapsedMs)
             else if threshold s tracking \<le> of_int elapsedMs then (True, elapsedMs)
             else (False, elapsedMs))"

subsection \<open>Stealing\<close>

definition straggler_candidates ::
  "work_stealer \<Rightarrow> string \<Rightarrow> ms \<Rightarrow> (string \<times> in_flight_tracking \<times> ms) list" where
  "straggler_candidates s thiefWorkerId now =
     List.map_filter (\<lambda>(taskId, tracking).
       if tr_workerId tracking = thiefWorkerId then None
       else (case isTaskStraggling s taskId now of
               (isStraggler, elapsedMs) \<Rightarrow> if isStraggler then Some (taskId, tracking, elapsedMs) else None))
       (wk_inFlightTasks s)"

definition attemptSteal ::
  "work_stealer \<Rightarrow> task_store \<Rightarrow> string \<Rightarrow> ms \<Rightarrow> ms \<Rightarrow> work_stealer \<times> task_store \<times> steal_outcome" where
  "attemptSteal s store thiefWorkerId now storeNow =
     (if \<not> enableWorkStealing (wk_config s) then (s, store, StealDisabled)
      else
        (case sort_key (\<lambda>(_, _, elapsedMs). - elapsedMs) (straggler_candidates s thiefWorkerId now) of
           [] \<Rightarrow> (s, store, NoStraggler)
         | (taskId, tracking, _) # _ \<Rightarrow>
             (case stealTask store storeNow taskId thiefWorkerId DEFAULT_LEASE_DURATION_MS of
                (store', StealSuccess t) \<Rightarrow>
                  (s\<lparr>wk_totalStealsCount := wk_totalStealsCount s + 1,
                     wk_inFlightTasks := jset (wk_inFlightTasks s) taskId
                       \<lparr>tr_taskId = taskId, tr_workerId = thiefWorkerId, tr_startTimeMs = now,
                        tr_expectedDurationMs = tr_expectedDurationMs tracking\<rparr>\<rparr>,
                   store', Stolen taskId (tr_workerId tracking) thiefWorkerId t)
              | (store', StealFailure reason) \<Rightarrow> (s, store', StealFailed taskId reason))))"

definition getWorkerAvgDurationMs :: "work_stealer \<Rightarrow> string \<Rightarrow> rat option" where
  "getWorkerAvgDurationMs s workerId = jget (wk_avgDurationMs s) workerId"

subsection \<open>Operations as steps\<close>

datatype stealer_op =
    ConfigUpdate config_update
  | TaskStart ms string string rat
  | TaskDone string string rat
  | TaskFailed string
  | Attempt string ms ms

text \<open>The stealer together with the store it steals in.\<close>

fun stealer_step :: "stealer_op \<Rightarrow> work_stealer \<times> task_store \<Rightarrow> work_stealer \<times> task_store" where
  "stealer_step (ConfigUpdate u) (s, st) = (updateConfig s u, st)"
| "stealer_step (TaskStart now i w d) (s, st) = (recordTaskStart s now i w d, st)"
| "stealer_step (TaskDone i w d) (s, st) = (recordTaskCompletion s i w d, st)"
| "stealer_step (TaskFailed i) (s, st) = (stealer_recordTaskFailure s i, st)"
| "stealer_step (Attempt thief now storeNow) (s, st) = (case attemptSteal s st thief now storeNow of (s', st', _) \<Rightarrow> (s', st'))"

text \<open>Tasks are tracked under their own ids, and a worker has an average exactly when it was observed.\<close>

definition stealer_ok :: "work_stealer \<Rightarrow> bool" where
  "stealer_ok s \<longleftrightarrow> distinct (map fst (wk_inFlightTasks s)) \<and>
     (\<forall>i tr. jget (wk_inFlightTasks s) i = Some tr \<longrightarrow> tr_taskId tr = i) \<and>
     dom (map_of (wk_avgDurationMs s)) = dom (map_of (wk_observationCount s)) \<and>
     0 \<notin> ran (map_of (wk_observationCount s))"

lemma attemptSteal_state:
  assumes "attemptSteal s st thief now storeNow = (s', st', out)"
  shows "s' = s \<or> (\<exists>i d. s' = s\<lparr>wk_totalStealsCount := wk_totalStealsCount s + 1,
     wk_inFlightTasks := jset (wk_inFlightTasks s) i
       \<lparr>tr_taskId = i, tr_workerId = thief, tr_startTimeMs = now, tr_expectedDurationMs = d\<rparr>\<rparr>)"
  using assms
  by (auto simp: attemptSteal_def split: if_splits list.splits prod.splits steal_reply.splits)

lemma stealer_ok_tracking:
  assumes "stealer_ok s"
  shows "stealer_ok (s\<lparr>wk_inFlightTasks := jset (wk_inFlightTasks s) i
      \<lparr>tr_taskId = i, tr_workerId = w, tr_startTimeMs = t, tr_expectedDurationMs = d\<rparr>\<rparr>)"
    "stealer_ok (s\<lparr>wk_inFlightTasks := jdelete (wk_inFlightTasks s) i\<rparr>)"
  using assms by (auto simp: stealer_ok_def js_simps distinct_update distinct_delete split: if_splits)

lemma stealer_ok_count: "stealer_ok (s\<lparr>wk_totalStealsCount := n, wk_inFlightTasks := m\<rparr>) = stealer_ok (s\<lparr>wk_inFlightTasks := m\<rparr>)"
  by (simp add: stealer_ok_def)

lemma stealer_ok_completion:
  assumes "stealer_ok s"
  shows "stealer_ok (recordTaskCompletion s i w d)"
proof -
  have ran: "0 \<notin> ran (\<lambda>k. if k = w then Some (Suc (observation_count s w)) else map_of (wk_observationCount s) k)"
    using assms by (auto simp: ran_def stealer_ok_def split: if_splits)
  have upd: "map_of (jset (wk_observationCount s) w v) = (\<lambda>k. if k = w then Some v else map_of (wk_observationCount s) k)" for v
    by (rule ext) (simp add: js_simps)
  show ?thesis
    using stealer_ok_tracking(2) [OF assms, of i] assms ran
    by (simp add: recordTaskCompletion_def stealer_ok_def Let_def upd) (auto simp: js_simps update_conv' dom_def)
qed

interpretation stealer: machine stealer_step "\<lambda>(s, st). stealer_ok s"
proof
  fix z :: "work_stealer \<times> task_store" and op
  obtain s st where z: "z = (s, st)" by (cases z)
  assume "case z of (s, st) \<Rightarrow> stealer_ok s"
  then have ok: "stealer_ok s" by (simp add: z)
  show "case stealer_step op z of (s, st) \<Rightarrow> stealer_ok s"
  proof (cases op)
    case (ConfigUpdate u)
    then show ?thesis using ok by (simp add: z updateConfig_def stealer_ok_def)
  next
    case (Attempt thief now storeNow)
    obtain s' st' out where a: "attemptSteal s st thief now storeNow = (s', st', out)"
      by (cases "attemptSteal s st thief now storeNow") auto
    from attemptSteal_state [OF this] have "stealer_ok s'"
      using ok stealer_ok_tracking(1) [OF ok] by (auto simp: stealer_ok_count)
    then show ?thesis by (simp add: Attempt z a)
  qed (use ok stealer_ok_tracking [OF ok] stealer_ok_completion [OF ok] in
    \<open>simp_all add: z recordTaskStart_def stealer_recordTaskFailure_def\<close>)
qed

subsection \<open>Properties\<close>

lemma straggling_elapsed:
  assumes "jget (wk_inFlightTasks s) i = Some tr"
  shows "snd (isTaskStraggling s i now) = now - tr_startTimeMs tr"
    "fst (isTaskStraggling s i now) \<longleftrightarrow> minDurationMsThreshold (wk_config s) \<le> of_int (now - tr_startTimeMs tr) \<and>
      threshold s tr \<le> of_int (now - tr_startTimeMs tr)"
  using assms by (auto simp: isTaskStraggling_def Let_def)

text \<open>The straggler test is a threshold on the elapsed time: a tracked task straggles exactly from the time on
  that has passed both the minimum duration and the multiple of the baseline; so once a straggler, always
  one while nothing is recorded, and with a multiplier of at least 1 never before that multiple of the
  minimum duration.  An untracked task never straggles.\<close>

theorem straggler_threshold:
  "(case jget (wk_inFlightTasks s) i of
      None \<Rightarrow> isTaskStraggling s i now = (False, 0)
    | Some tr \<Rightarrow>
        (fst (isTaskStraggling s i now) \<longleftrightarrow>
          max (minDurationMsThreshold (wk_config s)) (threshold s tr) \<le> of_int (now - tr_startTimeMs tr)) \<and>
        (fst (isTaskStraggling s i now) \<and> now \<le> now' \<longrightarrow> fst (isTaskStraggling s i now')) \<and>
        (1 \<le> detectionThresholdMultiplier (wk_config s) \<and> fst (isTaskStraggling s i now) \<longrightarrow>
          minDurationMsThreshold (wk_config s) * detectionThresholdMultiplier (wk_config s) \<le>
            of_int (now - tr_startTimeMs tr)))"
proof (cases "jget (wk_inFlightTasks s) i")
  case None
  then show ?thesis by (simp add: isTaskStraggling_def)
next
  case (Some tr)
  have mono: "of_int (now - tr_startTimeMs tr) \<le> (of_int (now' - tr_startTimeMs tr) :: rat)" if "now \<le> now'"
    using that by simp
  have "minDurationMsThreshold (wk_config s) * detectionThresholdMultiplier (wk_config s) \<le> threshold s tr"
    if "1 \<le> detectionThresholdMultiplier (wk_config s)"
    unfolding threshold_def Let_def using that by (intro mult_right_mono) simp_all
  then show ?thesis
    using Some mono by (auto simp: straggling_elapsed(2) [OF Some] intro: order_trans simp del: of_int_diff)
qed

theorem straggler_threshold_witness:
  "let s = recordTaskStart (recordTaskCompletion (new_stealer
        \<lparr>cu_detectionThresholdMultiplier = None, cu_minObservationsBeforeDeclaration = None,
         cu_minDurationMsThreshold = None, cu_stragglerEmaAlpha = None, cu_enableWorkStealing = None\<rparr>)
      ''t0'' ''w'' 100) 0 ''t1'' ''w'' 100
   in isTaskStraggling s ''t1'' 249 = (False, 249) \<and> isTaskStraggling s ''t1'' 250 = (True, 250) \<and>
      fst (isTaskStraggling s ''t1'' 300)"
proof -
  define s where "s = recordTaskStart (recordTaskCompletion (new_stealer
        \<lparr>cu_detectionThresholdMultiplier = None, cu_minObservationsBeforeDeclaration = None,
         cu_minDurationMsThreshold = None, cu_stragglerEmaAlpha = None, cu_enableWorkStealing = None\<rparr>)
      ''t0'' ''w'' 100) 0 ''t1'' ''w'' 100"
  have 1: "isTaskStraggling s ''t1'' 249 = (False, 249)" unfolding s_def by code_simp
  have 2: "isTaskStraggling s ''t1'' 250 = (True, 250)" unfolding s_def by code_simp
  have "jget (wk_inFlightTasks s) ''t1'' = Some \<lparr>tr_taskId = ''t1'', tr_workerId = ''w'', tr_startTimeMs = 0,
      tr_expectedDurationMs = 100\<rparr>" unfolding s_def by code_simp
  with straggler_threshold [of s "''t1''" 250 300] 2 have "fst (isTaskStraggling s ''t1'' 300)" by simp
  then show ?thesis unfolding s_def [symmetric] Let_def using 1 2 by simp
qed

lemma straggler_candidates_iff:
  assumes "distinct (map fst (wk_inFlightTasks s))"
  shows "(i, tr, e) \<in> set (straggler_candidates s thief now) \<longleftrightarrow>
    jget (wk_inFlightTasks s) i = Some tr \<and> tr_workerId tr \<noteq> thief \<and> isTaskStraggling s i now = (True, e)"
proof -
  have pick: "(if tr_workerId b = thief then None
      else (case isTaskStraggling s a now of (st, e) \<Rightarrow> if st then Some (a, b, e) else None)) = Some (i, tr, e) \<longleftrightarrow>
    a = i \<and> b = tr \<and> tr_workerId tr \<noteq> thief \<and> isTaskStraggling s i now = (True, e)" for a b
    by (cases "isTaskStraggling s a now") auto
  show ?thesis
    unfolding straggler_candidates_def map_filter_mem Bex_def split_paired_Ex case_prod_conv pick
    using map_of_eq_Some_iff [OF assms, of i tr] by blast
qed

lemma stealTask_success:
  assumes "stealTask s now i w d = (s', StealSuccess t)"
  shows "\<exists>v. getTask s i = Some v \<and> in_flight (t_status v) \<and> getTask s' i = Some t \<and> t_status t = ASSIGNED \<and>
    t_assignedWorkerId t = or_undef (Some w) \<and> t_retryCount t = t_retryCount v + 1"
    and "j \<noteq> i \<Longrightarrow> getTask s' j = getTask s j"
proof -
  obtain v where v: "getTask s i = Some v" "in_flight (t_status v)"
    using assms by (auto simp: stealTask_def split: option.splits if_splits)
  obtain r where r: "find_row (ts_rows s) i = Some r" "v = mapRowToTask r"
    using getTask_SomeD [OF v(1)] by blast
  have c: "t_status r = ASSIGNED \<or> t_status r = RUNNING" using v(2) r(2) by (simp add: mapRowToTask_def)
  obtain f where f: "update_task s i (\<lambda>r. t_status r = ASSIGNED \<or> t_status r = RUNNING) f = Inr (s', t)"
    "\<And>r. t_id (f r) = t_id r" "t_status (f r) = ASSIGNED" "t_assignedWorkerId (f r) = Some w"
    "t_retryCount (f r) = t_retryCount v + 1"
    using assms v by (auto simp: stealTask_def Let_def split: sum.splits prod.splits)
  note u = update_task_rows [OF f(1,2) r(1) c]
  show "j \<noteq> i \<Longrightarrow> getTask s' j = getTask s j" by (rule u(3))
  show "\<exists>v. getTask s i = Some v \<and> in_flight (t_status v) \<and> getTask s' i = Some t \<and> t_status t = ASSIGNED \<and>
    t_assignedWorkerId t = or_undef (Some w) \<and> t_retryCount t = t_retryCount v + 1"
    using v u(1) f(3-5) by (intro exI [of _ v]) (simp add: u(2) mapRowToTask_def)
qed

lemma stealTask_failure: "stealTask s now i w d = (s', StealFailure r) \<Longrightarrow> s' = s"
  by (auto simp: stealTask_def Let_def split: option.splits if_splits sum.splits)

definition by_elapsed :: "work_stealer \<Rightarrow> string \<Rightarrow> ms \<Rightarrow> (string \<times> in_flight_tracking \<times> ms) list" where
  "by_elapsed s thief now = sort_key (\<lambda>(_, _, elapsedMs). - elapsedMs) (straggler_candidates s thief now)"

lemma attemptSteal_cases:
  assumes "attemptSteal s store thief now storeNow = (s', store', out)"
  shows "(s' = s \<and> store' = store \<and> (\<forall>i v w t. out \<noteq> Stolen i v w t)) \<or>
    (\<exists>i tr e rest t. by_elapsed s thief now = (i, tr, e) # rest \<and>
      stealTask store storeNow i thief DEFAULT_LEASE_DURATION_MS = (store', StealSuccess t) \<and>
      s' = s\<lparr>wk_totalStealsCount := wk_totalStealsCount s + 1,
        wk_inFlightTasks := jset (wk_inFlightTasks s) i \<lparr>tr_taskId = i, tr_workerId = thief, tr_startTimeMs = now,
          tr_expectedDurationMs = tr_expectedDurationMs tr\<rparr>\<rparr> \<and>
      out = Stolen i (tr_workerId tr) thief t)"
proof (cases "enableWorkStealing (wk_config s)")
  case False
  then show ?thesis using assms by (simp add: attemptSteal_def)
next
  case enabled: True
  show ?thesis
  proof (cases "by_elapsed s thief now")
    case Nil
    then show ?thesis using assms enabled by (simp add: attemptSteal_def by_elapsed_def)
  next
    case (Cons c rest)
    obtain i tr e where c: "c = (i, tr, e)" by (cases c)
    obtain st' reply where steal: "stealTask store storeNow i thief DEFAULT_LEASE_DURATION_MS = (st', reply)"
      by (cases "stealTask store storeNow i thief DEFAULT_LEASE_DURATION_MS")
    show ?thesis
    proof (cases reply)
      case (StealSuccess t)
      then show ?thesis using assms enabled Cons c steal by (simp add: attemptSteal_def by_elapsed_def)
    next
      case (StealFailure r)
      then have "st' = store" using steal stealTask_failure by blast
      then show ?thesis using assms enabled Cons c steal StealFailure by (auto simp: attemptSteal_def by_elapsed_def)
    qed
  qed
qed

text \<open>C33. A steal takes the longest-running straggler of another worker, atomically: on success the task was
  tracked under the victim, straggling, and no other stealable task has run longer; in the store it was in
  flight and is now assigned to the thief with one more attempt, every other task untouched; it is tracked
  under the thief from now on and cannot be stolen again before the minimum duration has passed.  In every
  other outcome neither the stealer nor the store has changed.\<close>

theorem steal_takes_longest_straggler:
  assumes "stealer_ok s" and "attemptSteal s store thief now storeNow = (s', store', out)"
  shows "(case out of
      Stolen i victim thief' t \<Rightarrow> thief' = thief \<and> victim \<noteq> thief \<and>
        (\<exists>tr e. jget (wk_inFlightTasks s) i = Some tr \<and> tr_workerId tr = victim \<and>
          isTaskStraggling s i now = (True, e) \<and>
          filter (\<lambda>(j, tr', e'). e < e') (straggler_candidates s thief now) = []) \<and>
        (\<exists>v. getTask store i = Some v \<and> in_flight (t_status v) \<and> getTask store' i = Some t \<and>
          t_status t = ASSIGNED \<and> t_assignedWorkerId t = or_undef (Some thief) \<and>
          t_retryCount t = t_retryCount v + 1) \<and>
        (\<forall>j. j = i \<or> getTask store' j = getTask store j) \<and>
        map_option tr_workerId (jget (wk_inFlightTasks s') i) = Some thief \<and>
        (\<forall>later. minDurationMsThreshold (wk_config s) \<le> of_int (later - now) \<or>
          \<not> fst (isTaskStraggling s' i later)) \<and>
        wk_totalStealsCount s' = wk_totalStealsCount s + 1
    | _ \<Rightarrow> s' = s \<and> store' = store)"
proof (cases out)
  case (Stolen i victim thief' t)
  from attemptSteal_cases [OF assms(2)] obtain tr e rest where top: "by_elapsed s thief now = (i, tr, e) # rest"
    and steal: "stealTask store storeNow i thief DEFAULT_LEASE_DURATION_MS = (store', StealSuccess t)"
    and s': "s' = s\<lparr>wk_totalStealsCount := wk_totalStealsCount s + 1,
      wk_inFlightTasks := jset (wk_inFlightTasks s) i \<lparr>tr_taskId = i, tr_workerId = thief, tr_startTimeMs = now,
        tr_expectedDurationMs = tr_expectedDurationMs tr\<rparr>\<rparr>"
    and names: "thief' = thief" "victim = tr_workerId tr"
    unfolding Stolen by blast
  have set: "set (straggler_candidates s thief now) = set ((i, tr, e) # rest)"
    unfolding top [symmetric] by (simp add: by_elapsed_def)
  then have "(i, tr, e) \<in> set (straggler_candidates s thief now)" by simp
  with straggler_candidates_iff assms(1)
  have cand: "jget (wk_inFlightTasks s) i = Some tr" "tr_workerId tr \<noteq> thief" "isTaskStraggling s i now = (True, e)"
    unfolding stealer_ok_def by blast+
  have "e' \<le> e" if "(j, tr', e') \<in> set (straggler_candidates s thief now)" for j tr' e'
    using sorted_sort_key [of "\<lambda>(_, _, elapsedMs). - elapsedMs" "straggler_candidates s thief now"] that
    unfolding set by_elapsed_def [symmetric] top by auto
  then have none: "filter (\<lambda>(j, tr', e'). e < e') (straggler_candidates s thief now) = []"
    unfolding filter_empty_conv by (force simp: not_less)
  have new: "jget (wk_inFlightTasks s') i = Some \<lparr>tr_taskId = i, tr_workerId = thief, tr_startTimeMs = now,
        tr_expectedDurationMs = tr_expectedDurationMs tr\<rparr>" by (simp add: s' js_simps)
  have later: "minDurationMsThreshold (wk_config s) \<le> of_int (later - now) \<or> \<not> fst (isTaskStraggling s' i later)" for later
    using straggling_elapsed(2) [OF new, of later] by (auto simp: s')
  note su = stealTask_success [OF steal]
  have others: "j = i \<or> getTask store' j = getTask store j" for j using su(2) by blast
  have top_exists: "\<exists>tr e. jget (wk_inFlightTasks s) i = Some tr \<and> tr_workerId tr = victim \<and>
      isTaskStraggling s i now = (True, e) \<and> filter (\<lambda>(j, tr', e'). e < e') (straggler_candidates s thief now) = []"
    using cand none names(2) by blast
  have "victim \<noteq> thief" using cand(2) names(2) by simp
  moreover have "map_option tr_workerId (jget (wk_inFlightTasks s') i) = Some thief" by (simp add: new)
  moreover have "wk_totalStealsCount s' = wk_totalStealsCount s + 1" by (simp add: s')
  ultimately show ?thesis
    unfolding Stolen steal_outcome.case using names(1) top_exists su(1) others later by (intro conjI allI)
qed (use attemptSteal_cases [OF assms(2)] in auto)

definition steal_demo_store :: task_store where
  "steal_demo_store = \<lparr>ts_open = True, ts_rows = [(full_task 0 \<lparr>nt_id = ''t'', nt_inputRef = [],
     nt_computationDescriptor = ''k'', nt_requiredResources = None, nt_dependencies = None,
     nt_executionConstraints = None, nt_resultDestination = None, nt_assignedWorkerId = None,
     nt_status = None\<rparr>)\<lparr>t_status := RUNNING, t_assignedWorkerId := Some ''slow''\<rparr>]\<rparr>"

definition steal_demo_stealer :: work_stealer where
  "steal_demo_stealer = recordTaskStart (new_stealer
     \<lparr>cu_detectionThresholdMultiplier = None, cu_minObservationsBeforeDeclaration = None,
      cu_minDurationMsThreshold = None, cu_stragglerEmaAlpha = None, cu_enableWorkStealing = None\<rparr>)
     0 ''t'' ''slow'' 100"

theorem steal_takes_longest_straggler_witness:
  "\<exists>s' store' t. attemptSteal steal_demo_stealer steal_demo_store ''fast'' 1000 1000 =
      (s', store', Stolen ''t'' ''slow'' ''fast'' t) \<and>
    t_status t = ASSIGNED \<and> t_assignedWorkerId t = Some ''fast'' \<and> t_retryCount t = 1 \<and>
    wk_totalStealsCount s' = 1"
proof -
  obtain s' store' out where a: "attemptSteal steal_demo_stealer steal_demo_store ''fast'' 1000 1000 = (s', store', out)"
    by (cases "attemptSteal steal_demo_stealer steal_demo_store ''fast'' 1000 1000") auto
  have "(case snd (snd (attemptSteal steal_demo_stealer steal_demo_store ''fast'' 1000 1000)) of
      Stolen i v w t \<Rightarrow> i = ''t'' \<and> v = ''slow'' \<and> w = ''fast'' \<and> t_retryCount t = 1 | _ \<Rightarrow> False)" by code_simp
  then obtain t where out: "out = Stolen ''t'' ''slow'' ''fast'' t" "t_retryCount t = 1"
    by (auto simp: a split: steal_outcome.splits)
  have "stealer_ok steal_demo_stealer"
    by (simp add: steal_demo_stealer_def recordTaskStart_def new_stealer_def stealer_ok_def)
  from steal_takes_longest_straggler [OF this a]
  have "t_status t = ASSIGNED \<and> t_assignedWorkerId t = or_undef (Some ''fast'') \<and>
      wk_totalStealsCount s' = wk_totalStealsCount steal_demo_stealer + 1"
    unfolding out(1) steal_outcome.case by blast
  then show ?thesis
    using a out by (intro exI [of _ s'] exI [of _ store'] exI [of _ t])
      (simp add: steal_demo_stealer_def recordTaskStart_def new_stealer_def)
qed

text \<open>Averages stay within what was observed: after any number of completions of a worker, all between \<open>lo\<close>
  and \<open>hi\<close>, its average is between \<open>lo\<close> and \<open>hi\<close> and every completion was counted, for every smoothing factor
  between 0 and 1.\<close>

theorem average_within_observations:
  assumes "0 \<le> stragglerEmaAlpha (wk_config s)" and "stragglerEmaAlpha (wk_config s) \<le> 1"
    and "filter (\<lambda>(i, d). d < lo \<or> hi < d) runs = []" and "runs \<noteq> []"
    and "jget (wk_avgDurationMs s) w = None" and "jget (wk_observationCount s) w = None"
  shows "(let s' = fold (\<lambda>(i, d) s. recordTaskCompletion s i w d) runs s
    in (\<exists>avg. getWorkerAvgDurationMs s' w = Some avg \<and> lo \<le> avg \<and> avg \<le> hi) \<and>
       observation_count s' w = length runs)"
proof -
  let ?run = "fold (\<lambda>(i, d) s. recordTaskCompletion s i w d)"
  have step: "(\<exists>avg. jget (wk_avgDurationMs (?run rs z)) w = Some avg \<and> lo \<le> avg \<and> avg \<le> hi) \<and>
      observation_count (?run rs z) w = observation_count z w + length rs"
    if "\<exists>avg. jget (wk_avgDurationMs z) w = Some avg \<and> lo \<le> avg \<and> avg \<le> hi"
      and "wk_config z = wk_config s" and "\<forall>(i, d)\<in>set rs. lo \<le> d \<and> d \<le> hi" for rs z
    using that
  proof (induction rs arbitrary: z)
    case Nil
    then show ?case by simp
  next
    case (Cons r rs)
    obtain i d where r: "r = (i, d)" by (cases r)
    obtain avg where avg: "jget (wk_avgDurationMs z) w = Some avg" "lo \<le> avg" "avg \<le> hi" using Cons.prems(1) by blast
    let ?a = "stragglerEmaAlpha (wk_config s)"
    let ?new = "?a * d + (1 - ?a) * avg"
    have "?a * lo + (1 - ?a) * lo \<le> ?new" "?new \<le> ?a * hi + (1 - ?a) * hi"
      using assms(1,2) avg(2,3) Cons.prems(3) by (intro add_mono mult_left_mono; simp add: r)+
    then have new: "lo \<le> ?new" "?new \<le> hi" by (simp_all add: algebra_simps)
    have z': "jget (wk_avgDurationMs (recordTaskCompletion z i w d)) w = Some ?new"
      "wk_config (recordTaskCompletion z i w d) = wk_config s"
      "observation_count (recordTaskCompletion z i w d) w = observation_count z w + 1"
      using avg(1) Cons.prems(2) by (simp_all add: recordTaskCompletion_def Let_def js_simps observation_count_def)
    have "(\<exists>avg. jget (wk_avgDurationMs (?run rs (recordTaskCompletion z i w d))) w = Some avg \<and> lo \<le> avg \<and> avg \<le> hi) \<and>
      observation_count (?run rs (recordTaskCompletion z i w d)) w =
      observation_count (recordTaskCompletion z i w d) w + length rs"
      using z' new Cons.prems(3) by (intro Cons.IH) auto
    then show ?case by (simp add: r z'(3))
  qed
  obtain i d rs where runs: "runs = (i, d) # rs" using assms(4) by (cases runs) auto
  have within: "\<forall>(i, d)\<in>set runs. lo \<le> d \<and> d \<le> hi" using assms(3) by (auto simp: filter_empty_conv)
  let ?z = "recordTaskCompletion s i w d"
  have z: "jget (wk_avgDurationMs ?z) w = Some d" "wk_config ?z = wk_config s" "observation_count ?z w = 1"
    using assms(5,6) by (simp_all add: recordTaskCompletion_def Let_def js_simps observation_count_def)
  from step [of ?z rs] z within show ?thesis
    by (auto simp: runs Let_def getWorkerAvgDurationMs_def)
qed

theorem average_within_observations_witness:
  "\<exists>avg. getWorkerAvgDurationMs (fold (\<lambda>(i, d) s. recordTaskCompletion s i ''w'' d)
     [(''a'', 100), (''b'', 200), (''c'', 100)] steal_demo_stealer) ''w'' = Some avg \<and> 100 \<le> avg \<and> avg \<le> 200"
  using average_within_observations [of steal_demo_stealer 100 200 "[(''a'', 100), (''b'', 200), (''c'', 100)]" "''w''"]
  by (simp add: steal_demo_stealer_def recordTaskStart_def new_stealer_def merge_config_def DEFAULT_STRAGGLER_CONFIG_def Let_def)

end
