(* ===== verification/Result_Validator.thy ===== *)
theory Result_Validator
  imports Types
begin

text \<open>
  The validators of \<^verbatim>\<open>core/src/result_validator.ts\<close>.  What they call outside the sources is a parameter, held
  in a record: \<open>JSON.parse\<close>, the base64 and UTF-8 decoders, SHA-256 and the conversion of a JSON value to
  a number (\<open>None\<close> is \<open>NaN\<close>).  A \<open>Float32Array\<close> view is modelled by the IEEE 754 decoding of its bytes.
  Differences are exact where the source has doubles; \<open>toFixed\<close> in messages is not modelled, and the
  dimensions \<open>M\<close> and \<open>N\<close> of a descriptor count when they are JSON numbers.
\<close>

subsection \<open>Data\<close>

datatype validation_reason =
    HashMismatch string string
  | OutputMismatch
  | NumericLength nat nat
  | NumericTolerance nat rat rat
  | NumericParse
  | ImageSize nat nat
  | ImageDelta int rat
  | NotFloat32 nat
  | MatrixSize rat nat
  | NonFinite nat
  | ElementCount nat nat
  | MatrixTolerance nat rat rat rat

datatype validation_details =
    NoDetails
  | HashDetails string string
  | NumericDetails rat rat
  | NumericFailure nat rat rat rat rat
  | ImageSizes nat nat
  | ImageDetails int rat rat rat nat nat
  | ImageAccepted int rat nat
  | MatrixSizes rat nat
  | MatrixFailure nat rat rat rat rat
  | MatrixErrors rat rat nat
  | MatrixFinite nat

record validation_result =
  vl_isValid :: bool
  vl_reason :: "validation_reason option"
  vl_details :: validation_details

text \<open>\<open>ve_message\<close> words a verdict: the entries \<open>reason\<close> and \<open>details\<close> of a failure record.\<close>

record validator_env =
  ve_parse :: "string \<Rightarrow> json option"
  ve_unbase64 :: "string \<Rightarrow> buffer"
  ve_utf8 :: "buffer \<Rightarrow> string"
  ve_sha256hex :: "payload \<Rightarrow> string"
  ve_number :: "json \<Rightarrow> rat option"
  ve_message :: "validation_result \<Rightarrow> (string \<times> json) list"

abbreviation accept :: "validation_details \<Rightarrow> validation_result" where
  "accept d \<equiv> \<lparr>vl_isValid = True, vl_reason = None, vl_details = d\<rparr>"

abbreviation reject :: "validation_reason \<Rightarrow> validation_details \<Rightarrow> validation_result" where
  "reject r d \<equiv> \<lparr>vl_isValid = False, vl_reason = Some r, vl_details = d\<rparr>"

text \<open>The classes with their constructor arguments.\<close>

datatype validator =
    PassThroughValidator
  | ExactMatchValidator string bool
  | ToleranceAwareNumericValidator "rat list" rat
  | ToleranceAwareImageValidator buffer rat rat
  | ToleranceAwareMatrixValidator "buffer option" rat rat

subsection \<open>Exact match\<close>

fun to_text :: "validator_env \<Rightarrow> payload \<Rightarrow> string" where
  "to_text ve (Bytes b) = ve_utf8 ve b"
| "to_text ve (Text s) = s"

text \<open>\<open>toLowerCase\<close> on the ASCII letters.\<close>

definition lower_char :: "char \<Rightarrow> char" where
  "lower_char c = (let n = of_char c :: nat in if 65 \<le> n \<and> n \<le> 90 then char_of (n + 32) else c)"

definition validate_exact :: "validator_env \<Rightarrow> string \<Rightarrow> bool \<Rightarrow> payload \<Rightarrow> validation_result" where
  "validate_exact ve expected isHash resultData =
     (if isHash
      then
        (let computedHash = ve_sha256hex ve resultData;
             matches = (map lower_char computedHash = map lower_char expected)
         in \<lparr>vl_isValid = matches,
             vl_reason = (if matches then None else Some (HashMismatch expected computedHash)),
             vl_details = HashDetails expected computedHash\<rparr>)
      else
        (let matches = (to_text ve resultData = expected)
         in \<lparr>vl_isValid = matches, vl_reason = (if matches then None else Some OutputMismatch),
             vl_details = NoDetails\<rparr>))"

subsection \<open>Numeric tolerance\<close>

text \<open>\<open>Array.isArray(parsed) ? parsed : (parsed.values || [])\<close>; reading a field of \<open>null\<close> throws (\<open>None\<close>).
  A string counts as the list of its characters, and a value without \<open>length\<close> as one of no length.\<close>

datatype value_list = Values "json list" | NoLength

definition falsy :: "json \<Rightarrow> bool" where
  "falsy v \<longleftrightarrow> v = JNull \<or> v = JBool False \<or> v = JNum 0 \<or> v = JStr []"

definition actual_values :: "json \<Rightarrow> value_list option" where
  "actual_values parsed =
     (case parsed of
        JArr xs \<Rightarrow> Some (Values xs)
      | JNull \<Rightarrow> None
      | _ \<Rightarrow>
          (case json_field (Some parsed) ''values'' of
             None \<Rightarrow> Some (Values [])
           | Some v \<Rightarrow>
               if falsy v then Some (Values [])
               else (case v of
                       JArr xs \<Rightarrow> Some (Values xs)
                     | JStr s \<Rightarrow> Some (Values (map (\<lambda>c. JStr [c]) s))
                     | _ \<Rightarrow> Some NoLength)))"

text \<open>The loop; a difference that is \<open>NaN\<close> is neither larger than the maximum nor than \<open>epsilon\<close>.\<close>

fun numeric_loop ::
  "(json \<Rightarrow> rat option) \<Rightarrow> rat \<Rightarrow> nat \<Rightarrow> rat \<Rightarrow> json list \<Rightarrow> rat list \<Rightarrow> validation_result" where
  "numeric_loop num epsilon i maxDiff (a # as) (r # rs) =
     (case num a of
        None \<Rightarrow> numeric_loop num epsilon (i + 1) maxDiff as rs
      | Some x \<Rightarrow>
          let diff = abs (x - r); maxDiff = (if maxDiff < diff then diff else maxDiff)
          in if epsilon < diff then reject (NumericTolerance i diff epsilon) (NumericFailure i r x diff epsilon)
             else numeric_loop num epsilon (i + 1) maxDiff as rs)"
| "numeric_loop num epsilon i maxDiff _ _ = accept (NumericDetails maxDiff epsilon)"

definition validate_numeric :: "validator_env \<Rightarrow> rat list \<Rightarrow> rat \<Rightarrow> payload \<Rightarrow> validation_result" where
  "validate_numeric ve referenceValues epsilon resultData =
     (case Option.bind (ve_parse ve (to_text ve resultData)) actual_values of
        None \<Rightarrow> reject NumericParse NoDetails
      | Some NoLength \<Rightarrow> reject (NumericLength (length referenceValues) 0) NoDetails
      | Some (Values actualValues) \<Rightarrow>
          if length actualValues \<noteq> length referenceValues
          then reject (NumericLength (length referenceValues) (length actualValues)) NoDetails
          else numeric_loop (ve_number ve) epsilon 0 0 actualValues referenceValues)"

subsection \<open>Image tolerance\<close>

fun to_bytes :: "validator_env \<Rightarrow> payload \<Rightarrow> buffer" where
  "to_bytes ve (Bytes b) = b"
| "to_bytes ve (Text s) = ve_unbase64 ve s"

fun image_loop :: "rat \<Rightarrow> buffer \<Rightarrow> buffer \<Rightarrow> int \<times> int \<times> nat \<Rightarrow> int \<times> int \<times> nat" where
  "image_loop maxPixelDelta (a # as) (r # rs) (maxDiff, sumSquaredError, exceeded) =
     (let diff = abs (uint a - uint r)
      in image_loop maxPixelDelta as rs
           (if maxDiff < diff then diff else maxDiff, sumSquaredError + diff * diff,
            if maxPixelDelta < of_int diff then exceeded + 1 else exceeded))"
| "image_loop maxPixelDelta _ _ acc = acc"

definition validate_image :: "validator_env \<Rightarrow> buffer \<Rightarrow> rat \<Rightarrow> rat \<Rightarrow> payload \<Rightarrow> validation_result" where
  "validate_image ve referencePixels maxPixelDelta maxMse resultData =
     (let actualBytes = to_bytes ve resultData
      in if length actualBytes \<noteq> length referencePixels
         then reject (ImageSize (length referencePixels) (length actualBytes))
                (ImageSizes (length referencePixels) (length actualBytes))
         else
           (case image_loop maxPixelDelta actualBytes referencePixels (0, 0, 0) of
              (maxDiff, sumSquaredError, exceeded) \<Rightarrow>
                let mse = of_int sumSquaredError / of_nat (length actualBytes)
                in if maxPixelDelta < of_int maxDiff \<or> (actualBytes \<noteq> [] \<and> maxMse < mse)
                   then reject (ImageDelta maxDiff mse)
                          (ImageDetails maxDiff maxPixelDelta mse maxMse exceeded (length actualBytes))
                   else accept (ImageAccepted maxDiff mse (length actualBytes))))"

subsection \<open>Matrix tolerance\<close>

text \<open>The value of four little-endian bytes as a \<open>float32\<close>; \<open>None\<close> for infinities and \<open>NaN\<close>.\<close>

definition f32_value :: "byte \<Rightarrow> byte \<Rightarrow> byte \<Rightarrow> byte \<Rightarrow> rat option" where
  "f32_value b0 b1 b2 b3 =
     (let n = uint b0 + 256 * uint b1 + 65536 * uint b2 + 16777216 * uint b3;
          sign = (if n div 2147483648 = 0 then 1 else -1 :: rat);
          e = (n div 8388608) mod 256;
          m = n mod 8388608
      in if e = 255 then None
         else if e = 0 then Some (sign * of_int m / 2 ^ 149)
         else Some (sign * of_int (8388608 + m) * 2 ^ nat e / 2 ^ 150))"

fun f32_view :: "buffer \<Rightarrow> rat option list" where
  "f32_view (b0 # b1 # b2 # b3 # rest) = f32_value b0 b1 b2 b3 # f32_view rest"
| "f32_view _ = []"

fun first_non_finite :: "nat \<Rightarrow> rat option list \<Rightarrow> nat option" where
  "first_non_finite i [] = None"
| "first_non_finite i (v # vs) = (if v = None then Some i else first_non_finite (i + 1) vs)"

text \<open>The loop against the reference.  A reference entry that is not finite gives \<open>NaN\<close> or an infinite
  tolerance, and the comparison \<open>diff > tol\<close> is false; an infinite difference also makes every later
  maximum infinite, which only the details show.\<close>

fun matrix_loop ::
  "rat \<Rightarrow> rat \<Rightarrow> nat \<Rightarrow> rat \<Rightarrow> rat \<Rightarrow> rat option list \<Rightarrow> rat option list \<Rightarrow> validation_result" where
  "matrix_loop atol rtol i maxDiff sumSquaredError (Some a # as) (Some r # rs) =
     (let diff = abs (a - r); tol = atol + rtol * abs r;
          maxDiff = (if maxDiff < diff then diff else maxDiff)
      in if tol < diff then reject (MatrixTolerance i a r tol) (MatrixFailure i a r diff tol)
         else matrix_loop atol rtol (i + 1) maxDiff (sumSquaredError + diff * diff) as rs)"
| "matrix_loop atol rtol i maxDiff sumSquaredError (a # as) (r # rs) =
     matrix_loop atol rtol (i + 1) maxDiff sumSquaredError as rs"
| "matrix_loop atol rtol i maxDiff sumSquaredError _ _ = accept (MatrixErrors maxDiff sumSquaredError i)"

definition truthy_num :: "json option \<Rightarrow> rat option" where
  "truthy_num v = (case v of Some (JNum r) \<Rightarrow> if r = 0 then None else Some r | _ \<Rightarrow> None)"

definition matrix_params :: "validator_env \<Rightarrow> task \<Rightarrow> json option" where
  "matrix_params ve task = json_field (ve_parse ve (t_computationDescriptor task)) ''parameters''"

definition expected_bytes :: "validator_env \<Rightarrow> task \<Rightarrow> rat option" where
  "expected_bytes ve task =
     (case (truthy_num (json_field (matrix_params ve task) ''M''), truthy_num (json_field (matrix_params ve task) ''N'')) of
        (Some M, Some N) \<Rightarrow> Some (M * N * 4)
      | _ \<Rightarrow> None)"

definition validate_floats :: "buffer option \<Rightarrow> rat \<Rightarrow> rat \<Rightarrow> buffer \<Rightarrow> validation_result" where
  "validate_floats referenceBytes atol rtol actualBytes =
     (let floatCount = length actualBytes div 4; floatView = f32_view actualBytes
      in case first_non_finite 0 floatView of
           Some i \<Rightarrow> reject (NonFinite i) NoDetails
         | None \<Rightarrow>
             (case referenceBytes of
                None \<Rightarrow> accept (MatrixFinite floatCount)
              | Some ref \<Rightarrow>
                  if 4 * floatCount \<noteq> length ref then reject (ElementCount (length ref div 4) floatCount) NoDetails
                  else matrix_loop atol rtol 0 0 0 floatView (f32_view ref)))"

definition validate_matrix ::
  "validator_env \<Rightarrow> buffer option \<Rightarrow> rat \<Rightarrow> rat \<Rightarrow> task \<Rightarrow> payload \<Rightarrow> validation_result" where
  "validate_matrix ve referenceBytes atol rtol task resultData =
     (let actualBytes = to_bytes ve resultData
      in if length actualBytes mod 4 \<noteq> 0 then reject (NotFloat32 (length actualBytes)) NoDetails
         else
           (case expected_bytes ve task of
              Some expectedLen \<Rightarrow>
                if of_nat (length actualBytes) \<noteq> expectedLen
                then reject (MatrixSize expectedLen (length actualBytes)) (MatrixSizes expectedLen (length actualBytes))
                else validate_floats referenceBytes atol rtol actualBytes
            | None \<Rightarrow> validate_floats referenceBytes atol rtol actualBytes))"

subsection \<open>The interface\<close>

fun validate :: "validator_env \<Rightarrow> validator \<Rightarrow> task \<Rightarrow> payload \<Rightarrow> validation_result" where
  "validate ve PassThroughValidator task resultData = accept NoDetails"
| "validate ve (ExactMatchValidator expected isHash) task resultData = validate_exact ve expected isHash resultData"
| "validate ve (ToleranceAwareNumericValidator refs epsilon) task resultData =
     validate_numeric ve refs epsilon resultData"
| "validate ve (ToleranceAwareImageValidator refs maxPixelDelta maxMse) task resultData =
     validate_image ve refs maxPixelDelta maxMse resultData"
| "validate ve (ToleranceAwareMatrixValidator refs atol rtol) task resultData =
     validate_matrix ve refs atol rtol task resultData"

text \<open>\<open>IResultValidator\<close>: a verdict comes with a reason exactly when it is negative.\<close>

locale result_validator =
  fixes check :: "task \<Rightarrow> payload \<Rightarrow> validation_result"
  assumes reason_iff: "vl_isValid (check task out) \<longleftrightarrow> vl_reason (check task out) = None"
begin

lemma rejected_has_reason: "\<not> vl_isValid (check task out) \<Longrightarrow> \<exists>r. vl_reason (check task out) = Some r"
  using reason_iff by blast

end

lemma numeric_loop_reason: "vl_isValid (numeric_loop num e i m as rs) \<longleftrightarrow> vl_reason (numeric_loop num e i m as rs) = None"
  by (induction num e i m as rs rule: numeric_loop.induct) (auto simp: Let_def split: option.splits)

lemma matrix_loop_reason: "vl_isValid (matrix_loop atol rt i m q as rs) \<longleftrightarrow> vl_reason (matrix_loop atol rt i m q as rs) = None"
  by (induction atol rt i m q as rs rule: matrix_loop.induct) (auto simp: Let_def)

interpretation validators: result_validator "validate ve v" for ve v
proof
  fix task out
  show "vl_isValid (validate ve v task out) \<longleftrightarrow> vl_reason (validate ve v task out) = None"
    by (cases v)
      (auto simp: validate_exact_def validate_numeric_def validate_image_def validate_matrix_def validate_floats_def
        numeric_loop_reason matrix_loop_reason Let_def split: option.splits value_list.splits prod.splits)
qed

subsection \<open>The verdicts\<close>

lemma image_loop_eq:
  "length as = length rs \<Longrightarrow> 0 \<le> m \<Longrightarrow>
     image_loop d as rs (m, q, x) =
       (Max (set (m # map2 (\<lambda>a r. abs (uint a - uint r)) as rs)),
        q + sum_list (map2 (\<lambda>a r. (uint a - uint r) * (uint a - uint r)) as rs),
        x + length (filter (\<lambda>(a, r). d < of_int (abs (uint a - uint r))) (zip as rs)))"
proof (induction d as rs "(m, q, x)" arbitrary: m q x rule: image_loop.induct)
  case (1 d a as r rs m q x)
  have "(if m < abs (uint a - uint r) then abs (uint a - uint r) else m) = max m (abs (uint a - uint r))" by simp
  moreover have "Max (insert (max m k) S) = Max (insert m (insert k S))" if "finite S" for k :: int and S
    using that by (cases "S = {}") (simp_all add: max.assoc)
  ultimately show ?case using 1 by (simp add: Let_def abs_mult_self_eq)
qed auto

text \<open>The image validator accepts exactly the outputs of the reference's size in which no byte is off by more
  than the pixel tolerance and the squared errors sum to at most the mean-error tolerance times the size.\<close>

theorem validate_image_iff:
  assumes "0 \<le> maxPixelDelta"
  shows "vl_isValid (validate ve (ToleranceAwareImageValidator refs maxPixelDelta maxMse) task out) \<longleftrightarrow>
    (let actual = to_bytes ve out
     in length actual = length refs \<and>
        list_all (\<lambda>d. of_int d \<le> maxPixelDelta) (map2 (\<lambda>a r. abs (uint a - uint r)) actual refs) \<and>
        (actual = [] \<or> of_int (sum_list (map2 (\<lambda>a r. (uint a - uint r) * (uint a - uint r)) actual refs))
          \<le> maxMse * of_nat (length actual)))"
proof -
  define actual where "actual = to_bytes ve out"
  let ?ds = "map2 (\<lambda>a r. abs (uint a - uint r)) actual refs"
  show ?thesis
  proof (cases "length actual = length refs")
    case True
    have "maxPixelDelta < of_int (Max (set (0 # ?ds))) \<longleftrightarrow> (\<exists>d\<in>set (0 # ?ds). maxPixelDelta < of_int d)"
    proof -
      have "Max (set (0 # ?ds)) \<in> set (0 # ?ds)" by (intro Max_in) auto
      moreover have "d \<le> Max (set (0 # ?ds))" if "d \<in> set (0 # ?ds)" for d
        using that by (intro Max_ge) auto
      ultimately show ?thesis by (meson less_le_trans of_int_le_iff)
    qed
    also have "\<dots> \<longleftrightarrow> \<not> list_all (\<lambda>d. of_int d \<le> maxPixelDelta) (map2 (\<lambda>a r. abs (uint a - uint r)) actual refs)"
      using assms by (auto simp: list_all_iff not_le simp del: set_map)
    finally have "\<not> maxPixelDelta < of_int (Max (set (0 # ?ds))) \<longleftrightarrow>
      list_all (\<lambda>d. of_int d \<le> maxPixelDelta) (map2 (\<lambda>a r. abs (uint a - uint r)) actual refs)" by simp
    then show ?thesis
      using True image_loop_eq [OF True, of 0 maxPixelDelta 0 0] unfolding actual_def [symmetric]
      by (auto simp: validate_image_def Let_def actual_def [symmetric] divide_less_eq less_divide_eq not_less mult.commute
          simp del: set_simps list.set split: prod.splits)
  qed (simp add: validate_image_def Let_def actual_def [symmetric])
qed

definition demo_env :: validator_env where
  "demo_env = \<lparr>ve_parse = (\<lambda>s. if s = ''data'' then Some (JArr [JNum 1, JStr ''x'']) else None),
     ve_unbase64 = (\<lambda>_. []), ve_utf8 = (\<lambda>_. []), ve_sha256hex = (\<lambda>_. []),
     ve_number = (\<lambda>v. case v of JNum r \<Rightarrow> Some r | _ \<Rightarrow> None), ve_message = (\<lambda>_. [])\<rparr>"

definition no_task :: task where
  "no_task = \<lparr>t_id = ''t'', t_inputRef = [], t_computationDescriptor = [], t_requiredResources = no_resources,
     t_dependencies = [], t_executionConstraints = [], t_resultDestination = [], t_retryCount = 0,
     t_attemptHistory = [], t_status = RUNNING, t_assignedWorkerId = None, t_leaseExpiresAtMs = None,
     t_createdAtMs = 0, t_updatedAtMs = 0\<rparr>"

theorem validate_image_iff_witness:
  "vl_isValid (validate demo_env (ToleranceAwareImageValidator [10, 20, 30] 2 (1 / 2)) no_task (Bytes [11, 20, 30])) \<and>
   \<not> vl_isValid (validate demo_env (ToleranceAwareImageValidator [10, 20, 30] 2 (1 / 2)) no_task (Bytes [12, 20, 30]))"
proof
  show "vl_isValid (validate demo_env (ToleranceAwareImageValidator [10, 20, 30] 2 (1 / 2)) no_task (Bytes [11, 20, 30]))"
    by (subst validate_image_iff) (simp_all add: Let_def)
  show "\<not> vl_isValid (validate demo_env (ToleranceAwareImageValidator [10, 20, 30] 2 (1 / 2)) no_task (Bytes [12, 20, 30]))"
    by (subst validate_image_iff) (simp_all add: Let_def)
qed

lemma numeric_loop_valid:
  "length as = length rs \<Longrightarrow> vl_isValid (numeric_loop num e i m as rs) \<longleftrightarrow>
     list_all (\<lambda>(a, r). case num a of None \<Rightarrow> True | Some x \<Rightarrow> abs (x - r) \<le> e) (zip as rs)"
  by (induction num e i m as rs rule: numeric_loop.induct) (auto simp: Let_def split: option.splits)

text \<open>The numeric validator accepts exactly the outputs that parse to as many values as the reference has and
  in which every entry that converts to a number is within epsilon.  An entry that does not convert
  (\<open>NaN\<close> in the source) is accepted whatever the reference says.\<close>

theorem validate_numeric_iff:
  "vl_isValid (validate ve (ToleranceAwareNumericValidator refs epsilon) task out) \<longleftrightarrow>
     (\<exists>vals. Option.bind (ve_parse ve (to_text ve out)) actual_values = Some (Values vals) \<and>
        length vals = length refs \<and>
        list_all (\<lambda>(a, r). case ve_number ve a of None \<Rightarrow> True | Some x \<Rightarrow> abs (x - r) \<le> epsilon) (zip vals refs))"
  by (auto simp: validate_numeric_def numeric_loop_valid split: option.splits value_list.splits)

text \<open>So the JSON text of one number and one word passes against two numbers.\<close>

lemma numeric_accepts_words:
  "vl_isValid (validate demo_env (ToleranceAwareNumericValidator [1, 1000] (1 / 100)) no_task (Text ''data''))"
  by (simp add: validate_numeric_def demo_env_def actual_values_def)

lemma first_non_finite_None: "first_non_finite i vs = None \<longleftrightarrow> None \<notin> set vs"
  by (induction i vs rule: first_non_finite.induct) auto

lemma matrix_loop_valid:
  "length as = length rs \<Longrightarrow> None \<notin> set as \<Longrightarrow> vl_isValid (matrix_loop atol rt i m q as rs) \<longleftrightarrow>
     list_all (\<lambda>(a, r). case r of None \<Rightarrow> True | Some y \<Rightarrow> abs (the a - y) \<le> atol + rt * abs y) (zip as rs)"
  by (induction atol rt i m q as rs rule: matrix_loop.induct) (auto simp: Let_def)

lemma length_f32_view [simp]: "length (f32_view bs) = length bs div 4"
  by (induction bs rule: f32_view.induct) auto

text \<open>The matrix validator accepts exactly the buffers of whole 32-bit floats, of the size that the task's
  dimensions ask for when it states both, in which every float is finite and, against a reference, as
  long as the reference with every entry within the absolute plus relative tolerance of a finite reference
  entry.\<close>

theorem validate_matrix_iff:
  "vl_isValid (validate ve (ToleranceAwareMatrixValidator ref atol rtol) task out) \<longleftrightarrow>
     (let actual = to_bytes ve out; floats = f32_view actual
      in length actual mod 4 = 0 \<and>
         (case expected_bytes ve task of None \<Rightarrow> True | Some n \<Rightarrow> of_nat (length actual) = n) \<and>
         None \<notin> set floats \<and>
         (case ref of None \<Rightarrow> True
          | Some rb \<Rightarrow> length actual = length rb \<and>
              list_all (\<lambda>(a, r). case r of None \<Rightarrow> True | Some y \<Rightarrow> abs (the a - y) \<le> atol + rtol * abs y)
                (zip floats (f32_view rb))))"
proof -
  define actual where "actual = to_bytes ve out"
  have floats: "vl_isValid (validate_floats ref atol rtol actual) \<longleftrightarrow> None \<notin> set (f32_view actual) \<and>
      (case ref of None \<Rightarrow> True
          | Some rb \<Rightarrow> length actual = length rb \<and>
              list_all (\<lambda>(a, r). case r of None \<Rightarrow> True | Some y \<Rightarrow> abs (the a - y) \<le> atol + rtol * abs y)
                (zip (f32_view actual) (f32_view rb)))" if "length actual mod 4 = 0"
  proof -
    have len: "4 * (length actual div 4) = length actual" using that by presburger
    have "first_non_finite 0 (f32_view actual) = None \<longleftrightarrow> None \<notin> set (f32_view actual)"
      by (rule first_non_finite_None)
    then show ?thesis
      by (auto simp: validate_floats_def Let_def len matrix_loop_valid split: option.splits)
  qed
  show ?thesis
    unfolding actual_def [symmetric] validate.simps validate_matrix_def Let_def
    using floats by (auto split: option.splits)
qed

end
