(* ===== verification/Workload_Pipeline.thy ===== *)
theory Workload_Pipeline
  imports Scheduler Result_Validator Task_Store_Props "HOL-Library.Sublist"
begin

text \<open>
  \<open>WorkloadPipeline\<close> of \<^verbatim>\<open>core/src/workload_pipeline.ts\<close>.  The store and the scheduler are objects shared with
  the other components; the model carries their state in the pipeline.  A completion listener is a
  callback: the model names it by a number, and an operation returns the listeners it called with their
  argument.

  \<open>handleTaskResult\<close> is asynchronous: it suspends at \<open>await validator.validate\<close>, so other operations may run
  between its checks and its effects.  \<open>begin_result\<close> is the part before the \<open>await\<close> and \<open>finish_result\<close> the
  part after it; \<open>handleTaskResult\<close> is one after the other.
\<close>

subsection \<open>Data\<close>

record task_result_payload =
  rp_taskId :: string
  rp_workerId :: string
  rp_outputData :: payload
  rp_executionTimeMs :: int
  rp_attemptNumber :: "int option"
  rp_itemCount :: "int option"
  rp_workerHostname :: "string option"
  rp_workerPid :: "int option"

datatype result_error =
    DuplicateResultIgnored string
  | StaleWorkerIgnored string string
  | StaleAttemptIgnored int nat
  | ValidationError "validation_reason option"
  | WorkloadCancelled

record task_processing_result =
  pr_success :: bool
  pr_status :: task_status
  pr_task :: task
  pr_outputData :: "payload option"
  pr_error :: "result_error option"
  pr_validationDetails :: "validation_details option"
  pr_workerHostname :: "string option"
  pr_workerPid :: "int option"
  pr_executionTimeMs :: "int option"

record workload_progress =
  pg_workloadId :: string
  pg_totalChunks :: int
  pg_completedChunks :: nat
  pg_failedChunks :: nat
  pg_inFlightChunks :: nat
  pg_percentComplete :: rat
  pg_isCancelled :: bool
  pg_elapsedMs :: ms

record active_workload =
  aw_workloadId :: string
  aw_totalChunks :: int
  aw_completedChunks :: nat
  aw_failedChunks :: nat
  aw_inFlightTaskIds :: "string list"
  aw_isCancelled :: bool
  aw_createdAtMs :: ms

type_synonym listener = nat

record workload_pipeline =
  wp_taskStore :: task_store
  wp_scheduler :: scored_scheduler
  wp_validators :: "(string, validator) jsmap"
  wp_completionListeners :: "(string, listener) jsmap"
  wp_activeWorkloads :: "(string, active_workload) jsmap"

type_synonym calls = "(listener \<times> task_processing_result) list"

definition new_pipeline :: "task_store \<Rightarrow> scored_scheduler \<Rightarrow> workload_pipeline" where
  "new_pipeline taskStore scheduler = \<lparr>wp_taskStore = taskStore, wp_scheduler = scheduler,
     wp_validators = [], wp_completionListeners = [], wp_activeWorkloads = []\<rparr>"

subsection \<open>Workloads\<close>

definition registerWorkload :: "workload_pipeline \<Rightarrow> ms \<Rightarrow> string \<Rightarrow> int \<Rightarrow> workload_pipeline" where
  "registerWorkload p now workloadId totalChunks =
     p\<lparr>wp_activeWorkloads := jset (wp_activeWorkloads p) workloadId
         \<lparr>aw_workloadId = workloadId, aw_totalChunks = totalChunks, aw_completedChunks = 0,
          aw_failedChunks = 0, aw_inFlightTaskIds = [], aw_isCancelled = False, aw_createdAtMs = now\<rparr>\<rparr>"

definition trackTaskInWorkload :: "workload_pipeline \<Rightarrow> string \<Rightarrow> string \<Rightarrow> workload_pipeline" where
  "trackTaskInWorkload p workloadId taskId =
     (case jget (wp_activeWorkloads p) workloadId of
        None \<Rightarrow> p
      | Some state \<Rightarrow> p\<lparr>wp_activeWorkloads := jset (wp_activeWorkloads p) workloadId
          (state\<lparr>aw_inFlightTaskIds := List.insert taskId (aw_inFlightTaskIds state)\<rparr>)\<rparr>)"

fun cancel_loop :: "task_store \<Rightarrow> string list \<Rightarrow> (string, listener) jsmap \<Rightarrow> calls \<Rightarrow> (string, listener) jsmap \<times> calls" where
  "cancel_loop store [] listeners calls = (listeners, calls)"
| "cancel_loop store (taskId # rest) listeners calls =
     (case getTask store taskId of
        Some task \<Rightarrow>
          if t_status task = PENDING \<or> t_status task = ASSIGNED \<or> t_status task = RUNNING
          then (case jget listeners taskId of
                  Some listener \<Rightarrow> cancel_loop store rest (jdelete listeners taskId)
                    (calls @ [(listener, \<lparr>pr_success = False, pr_status = ABANDONED, pr_task = task,
                       pr_outputData = None, pr_error = Some WorkloadCancelled, pr_validationDetails = None,
                       pr_workerHostname = None, pr_workerPid = None, pr_executionTimeMs = None\<rparr>)])
                | None \<Rightarrow> cancel_loop store rest listeners calls)
          else cancel_loop store rest listeners calls
      | None \<Rightarrow> cancel_loop store rest listeners calls)"

definition cancelWorkload :: "workload_pipeline \<Rightarrow> string \<Rightarrow> workload_pipeline \<times> bool \<times> calls" where
  "cancelWorkload p workloadId =
     (case jget (wp_activeWorkloads p) workloadId of
        None \<Rightarrow> (p, False, [])
      | Some state \<Rightarrow>
          (case cancel_loop (wp_taskStore p) (aw_inFlightTaskIds state) (wp_completionListeners p) [] of
             (listeners, calls) \<Rightarrow>
               (p\<lparr>wp_completionListeners := listeners,
                  wp_activeWorkloads := jset (wp_activeWorkloads p) workloadId
                    (state\<lparr>aw_isCancelled := True, aw_inFlightTaskIds := []\<rparr>)\<rparr>, True, calls)))"

definition getWorkloadProgress :: "workload_pipeline \<Rightarrow> ms \<Rightarrow> string \<Rightarrow> workload_progress option" where
  "getWorkloadProgress p now workloadId =
     map_option (\<lambda>state.
       \<lparr>pg_workloadId = aw_workloadId state, pg_totalChunks = aw_totalChunks state,
        pg_completedChunks = aw_completedChunks state, pg_failedChunks = aw_failedChunks state,
        pg_inFlightChunks = length (aw_inFlightTaskIds state),
        pg_percentComplete = (if 0 < aw_totalChunks state
          then to_fixed 1 (of_nat (aw_completedChunks state) / of_int (aw_totalChunks state) * 100) else 100),
        pg_isCancelled = aw_isCancelled state, pg_elapsedMs = now - aw_createdAtMs state\<rparr>)
       (jget (wp_activeWorkloads p) workloadId)"

definition onTaskFinished :: "workload_pipeline \<Rightarrow> string \<Rightarrow> listener \<Rightarrow> workload_pipeline" where
  "onTaskFinished p taskId listener = p\<lparr>wp_completionListeners := jset (wp_completionListeners p) taskId listener\<rparr>"

subsection \<open>Validators\<close>

definition registerValidator :: "workload_pipeline \<Rightarrow> string \<Rightarrow> validator \<Rightarrow> workload_pipeline" where
  "registerValidator p key validator = p\<lparr>wp_validators := jset (wp_validators p) key validator\<rparr>"

definition getValidator :: "workload_pipeline \<Rightarrow> string \<Rightarrow> string option \<Rightarrow> validator" where
  "getValidator p taskId taskType =
     (case jget (wp_validators p) taskId of
        Some v \<Rightarrow> v
      | None \<Rightarrow>
          (case or_undef taskType of
             None \<Rightarrow> PassThroughValidator
           | Some ty \<Rightarrow>
               (case jget (wp_validators p) ty of
                  Some v \<Rightarrow> v
                | None \<Rightarrow> if sublist ''matrix_multiply'' ty
                          then ToleranceAwareMatrixValidator None (1 / 10000) (1 / 10000)
                          else PassThroughValidator)))"

subsection \<open>Results\<close>

datatype begin_outcome =
    TaskUnknown string
  | Ignored task_processing_result
  | Validating task task_result_payload validator

definition ignored :: "task \<Rightarrow> result_error \<Rightarrow> task_processing_result" where
  "ignored task error = \<lparr>pr_success = False, pr_status = t_status task, pr_task = task, pr_outputData = None,
     pr_error = Some error, pr_validationDetails = None, pr_workerHostname = None, pr_workerPid = None,
     pr_executionTimeMs = None\<rparr>"

text \<open>The checks before the \<open>await\<close>.\<close>

definition begin_result :: "workload_pipeline \<Rightarrow> task_result_payload \<Rightarrow> begin_outcome" where
  "begin_result p payload =
     (case getTask (wp_taskStore p) (rp_taskId payload) of
        None \<Rightarrow> TaskUnknown (rp_taskId payload)
      | Some task \<Rightarrow>
          if t_status task = COMPLETED then Ignored (ignored task (DuplicateResultIgnored (t_id task)))
          else if t_assignedWorkerId task \<noteq> None \<and> t_assignedWorkerId task \<noteq> Some (rp_workerId payload)
          then Ignored (ignored task (StaleWorkerIgnored (rp_workerId payload) (the (t_assignedWorkerId task))))
          else
            (let currentAttempt = t_retryCount task + 1
             in if rp_attemptNumber payload \<noteq> None \<and> rp_attemptNumber payload \<noteq> Some (int currentAttempt)
                then Ignored (ignored task (StaleAttemptIgnored (the (rp_attemptNumber payload)) currentAttempt))
                else Validating task payload (getValidator p (t_id task) (Some (t_computationDescriptor task)))))"

definition memory_ref :: "string \<Rightarrow> string" where
  "memory_ref i = ''memory://'' @ i"

definition result_reference :: "string \<Rightarrow> payload \<Rightarrow> string" where
  "result_reference i outputData =
     (case outputData of
        Bytes _ \<Rightarrow> memory_ref i
      | Text s \<Rightarrow> if 1024 < length s then memory_ref i else s)"

text \<open>Every workload that tracks the task counts it once and stops tracking it.\<close>

definition settle :: "(active_workload \<Rightarrow> active_workload) \<Rightarrow> string \<Rightarrow> (string, active_workload) jsmap \<Rightarrow> (string, active_workload) jsmap" where
  "settle tally i workloads =
     map (\<lambda>(wid, state). (wid, if i \<in> set (aw_inFlightTaskIds state)
        then tally (state\<lparr>aw_inFlightTaskIds := remove1 i (aw_inFlightTaskIds state)\<rparr>) else state)) workloads"

definition notify :: "workload_pipeline \<Rightarrow> string \<Rightarrow> task_processing_result \<Rightarrow> workload_pipeline \<times> calls" where
  "notify p i result =
     (case jget (wp_completionListeners p) i of
        None \<Rightarrow> (p, [])
      | Some listener \<Rightarrow> (p\<lparr>wp_completionListeners := jdelete (wp_completionListeners p) i\<rparr>, [(listener, result)]))"

text \<open>\<open>payload.itemCount && payload.executionTimeMs > 0\<close>: the throughput is updated with the default factor 0.2.\<close>

definition record_throughput :: "scored_scheduler \<Rightarrow> task_result_payload \<Rightarrow> scored_scheduler" where
  "record_throughput s payload =
     (case num_or_undef (rp_itemCount payload) of
        None \<Rightarrow> s
      | Some n \<Rightarrow>
          if 0 < rp_executionTimeMs payload
          then updateWorkerThroughputEma s (rp_workerId payload)
                 (of_int n / of_int (rp_executionTimeMs payload) * 1000) (2 / 10)
          else s)"

text \<open>After the \<open>await\<close>, with the task as it was read before it.  A store operation that throws ends the handler
  with nothing changed.\<close>

definition finish_result ::
  "validator_env \<Rightarrow> workload_pipeline \<Rightarrow> ms \<Rightarrow> task \<Rightarrow> task_result_payload \<Rightarrow> validator \<Rightarrow>
   store_error + (workload_pipeline \<times> task_processing_result \<times> calls)" where
  "finish_result ve p now task payload validator =
     (let validation = validate ve validator task (rp_outputData payload)
      in if vl_isValid validation then
           (case completeTask (wp_taskStore p) now (t_id task) (Some (result_reference (t_id task) (rp_outputData payload))) of
              Inl e \<Rightarrow> Inl e
            | Inr (store', completedTask) \<Rightarrow>
                let p' = p\<lparr>wp_taskStore := store', wp_scheduler := record_throughput (wp_scheduler p) payload,
                       wp_activeWorkloads := settle (\<lambda>state. state\<lparr>aw_completedChunks := aw_completedChunks state + 1\<rparr>)
                         (t_id task) (wp_activeWorkloads p)\<rparr>;
                    result = \<lparr>pr_success = True, pr_status = COMPLETED, pr_task = completedTask,
                       pr_outputData = Some (rp_outputData payload), pr_error = None,
                       pr_validationDetails = Some (vl_details validation),
                       pr_workerHostname = rp_workerHostname payload, pr_workerPid = rp_workerPid payload,
                       pr_executionTimeMs = Some (rp_executionTimeMs payload)\<rparr>
                in case notify p' (t_id task) result of (p'', calls) \<Rightarrow> Inr (p'', result, calls))
         else
           (case recordTaskFailure (wp_taskStore p) now (t_id task) (rp_workerId payload)
                   ''VALIDATION_TOLERANCE_EXCEEDED''
                   (Some (JObj (ve_message ve validation @ [(''executionTimeMs'', JNum (of_int (rp_executionTimeMs payload)))])))
                   DEFAULT_MAX_RETRIES of
              Inl e \<Rightarrow> Inl e
            | Inr (store', failedTask) \<Rightarrow>
                let p' = p\<lparr>wp_taskStore := store', wp_scheduler := recordWorkerFailure (wp_scheduler p) (rp_workerId payload),
                       wp_activeWorkloads := settle (\<lambda>state. state\<lparr>aw_failedChunks := aw_failedChunks state + 1\<rparr>)
                         (t_id task) (wp_activeWorkloads p)\<rparr>;
                    result = \<lparr>pr_success = False, pr_status = t_status failedTask, pr_task = failedTask,
                       pr_outputData = None, pr_error = Some (ValidationError (vl_reason validation)),
                       pr_validationDetails = Some (vl_details validation), pr_workerHostname = None,
                       pr_workerPid = None, pr_executionTimeMs = None\<rparr>
                in case notify p' (t_id task) result of (p'', calls) \<Rightarrow> Inr (p'', result, calls)))"

datatype handle_error = NotFoundError string | StoreError store_error

definition handleTaskResult ::
  "validator_env \<Rightarrow> workload_pipeline \<Rightarrow> ms \<Rightarrow> task_result_payload \<Rightarrow>
   handle_error + (workload_pipeline \<times> task_processing_result \<times> calls)" where
  "handleTaskResult ve p now payload =
     (case begin_result p payload of
        TaskUnknown i \<Rightarrow> Inl (NotFoundError i)
      | Ignored result \<Rightarrow> Inr (p, result, [])
      | Validating task payload validator \<Rightarrow>
          (case finish_result ve p now task payload validator of Inl e \<Rightarrow> Inl (StoreError e) | Inr r \<Rightarrow> Inr r))"

definition handleExecutionError ::
  "workload_pipeline \<Rightarrow> ms \<Rightarrow> string \<Rightarrow> string \<Rightarrow> string \<Rightarrow> store_error + (workload_pipeline \<times> task)" where
  "handleExecutionError p now taskId workerId error =
     (case recordTaskFailure (wp_taskStore p) now taskId workerId ''EXECUTION_ERROR''
             (Some (JObj [(''error'', JStr error)])) DEFAULT_MAX_RETRIES of
        Inl e \<Rightarrow> Inl e
      | Inr (store', failedTask) \<Rightarrow>
          Inr (p\<lparr>wp_taskStore := store', wp_scheduler := recordWorkerFailure (wp_scheduler p) workerId\<rparr>, failedTask))"

end
