(* ===== verification/Pipeline_Theorems.thy ===== *)
theory Pipeline_Theorems
  imports Workload_Pipeline Task_Store_Theorems
begin

text \<open>
  The properties of the workload pipeline: which results it accepts, that interleaved results complete a
  task once, that a listener is called at most once, and that progress never exceeds what is tracked.
\<close>

subsection \<open>Store facts\<close>

lemma completeTask_ok:
  assumes "getTask s i = Some task" and "in_flight (t_status task)"
  shows "\<exists>s' t. completeTask s now i dest = Inr (s', t) \<and> getTask s' i = Some t \<and> t_status t = COMPLETED \<and>
    t_resultDestination t = str_or dest (t_resultDestination task) \<and> (\<forall>j. j \<noteq> i \<longrightarrow> getTask s' j = getTask s j)"
proof -
  obtain r where r: "find_row (ts_rows s) i = Some r" "task = mapRowToTask r" using getTask_SomeD [OF assms(1)] by blast
  let ?c = "\<lambda>r. t_status r = RUNNING \<or> t_status r = ASSIGNED"
  let ?f = "\<lambda>r. r\<lparr>t_status := COMPLETED, t_resultDestination := str_or dest (t_resultDestination task),
    t_leaseExpiresAtMs := None, t_updatedAtMs := now\<rparr>"
  have c: "?c r" using assms(2) r(2) by (auto simp: mapRowToTask_def)
  then have "r \<in> set (filter (\<lambda>r. t_id r = i \<and> ?c r) (ts_rows s))" using find_row_SomeD [OF r(1)] by simp
  then have "sql_changes (\<lambda>r. t_id r = i \<and> ?c r) (ts_rows s) \<noteq> 0"
    unfolding sql_changes_def by (simp only: length_0_conv) force
  moreover have "\<exists>t. getTask (s\<lparr>ts_rows := sql_update (\<lambda>r. t_id r = i \<and> ?c r) ?f (ts_rows s)\<rparr>) i = Some t"
    using r(1) by (simp add: getTask_def sql_update_def find_row_map)
  ultimately obtain s' t where u: "update_task s i ?c ?f = Inr (s', t)"
    by (auto simp: update_task_def reread_def Let_def)
  note rows = update_task_rows [OF u _ r(1) c]
  have "completeTask s now i dest = Inr (s', t)" using assms u by (auto simp: completeTask_def Let_def)
  moreover have "getTask s' i = Some t" "t = mapRowToTask (?f r)" "\<forall>j. j \<noteq> i \<longrightarrow> getTask s' j = getTask s j"
    using rows by simp_all
  ultimately show ?thesis by (intro exI [of _ s'] exI [of _ t]) (simp add: mapRowToTask_def)
qed

lemma completeTask_in_flight:
  "completeTask s now i dest = Inr (s', t) \<Longrightarrow> \<exists>task. getTask s i = Some task \<and> in_flight (t_status task)"
  by (auto simp: completeTask_def split: option.splits if_splits)

lemma recordTaskFailure_others:
  assumes "recordTaskFailure s now j w reason det mx = Inr (s', t)" and "i \<noteq> j"
  shows "find_row (ts_rows s') i = find_row (ts_rows s) i"
proof -
  obtain f where s': "s' = s\<lparr>ts_rows := sql_update (\<lambda>r. t_id r = j) f (ts_rows s)\<rparr>" "\<And>r. t_id (f r) = t_id r"
    using assms(1) by (auto simp: recordTaskFailure_def Let_def split: option.splits dest!: reread_state)
  have "find_row (ts_rows s') i = map_option (\<lambda>r. if t_id r = j then f r else r) (find_row (ts_rows s) i)"
    unfolding s'(1) using s'(2) by (simp add: sql_update_def find_row_map)
  then show ?thesis using assms(2) by (cases "find_row (ts_rows s) i") (auto dest: find_row_SomeD)
qed

subsection \<open>Which results are accepted\<close>

abbreviation matches :: "task \<Rightarrow> task_result_payload \<Rightarrow> bool" where
  "matches task payload \<equiv>
     (t_assignedWorkerId task = None \<or> t_assignedWorkerId task = Some (rp_workerId payload)) \<and>
     (rp_attemptNumber payload = None \<or> rp_attemptNumber payload = Some (int (t_retryCount task + 1)))"

lemma begin_result_validating:
  "begin_result p payload = Validating task payload' v \<longleftrightarrow>
     getTask (wp_taskStore p) (rp_taskId payload) = Some task \<and> t_status task \<noteq> COMPLETED \<and> matches task payload \<and>
     payload' = payload \<and> v = getValidator p (t_id task) (Some (t_computationDescriptor task))"
  by (auto simp: begin_result_def Let_def split: option.splits if_splits)

lemma getTask_id: "getTask s i = Some t \<Longrightarrow> t_id t = i"
  by (auto simp: getTask_def mapRowToTask_def dest: find_row_SomeD)

lemma notify_frame:
  "wp_taskStore (fst (notify p i r)) = wp_taskStore p"
  "wp_activeWorkloads (fst (notify p i r)) = wp_activeWorkloads p"
  by (cases "jget (wp_completionListeners p) i"; simp add: notify_def)+

lemma notify_store [simp]: "notify p i r = (p', calls) \<Longrightarrow> wp_taskStore p' = wp_taskStore p"
  using notify_frame(1) [of p i r] by simp

lemma finish_success:
  assumes "finish_result ve p now task payload v = Inr (p', res, calls)" and "pr_success res"
  shows "vl_isValid (validate ve v task (rp_outputData payload))"
    and "\<exists>t. completeTask (wp_taskStore p) now (t_id task) (Some (result_reference (t_id task) (rp_outputData payload)))
      = Inr (wp_taskStore p', t)"
  using assms
  by (auto simp: finish_result_def Let_def split: if_splits sum.splits prod.splits)

definition acceptable_result :: "validator_env \<Rightarrow> workload_pipeline \<Rightarrow> task_result_payload \<Rightarrow> bool" where
  "acceptable_result ve p payload \<longleftrightarrow>
     (case getTask (wp_taskStore p) (rp_taskId payload) of
        None \<Rightarrow> False
      | Some task \<Rightarrow> in_flight (t_status task) \<and> matches task payload \<and>
          vl_isValid (validate ve (getValidator p (t_id task) (Some (t_computationDescriptor task))) task
            (rp_outputData payload)))"

lemma handle_validating:
  assumes "begin_result p payload = Validating task payload v"
  shows "acceptable_result ve p payload \<longleftrightarrow> in_flight (t_status task) \<and> vl_isValid (validate ve v task (rp_outputData payload))"
    and "t_id task = rp_taskId payload"
  using assms by (auto simp: begin_result_validating acceptable_result_def dest: getTask_id)

text \<open>C25. A result is accepted exactly when it is about a known task that is assigned or running, comes from the
  worker the task is assigned to (if any) and from the current attempt (when it states one), and passes the
  task's validator; then the stored task is COMPLETED with the reference to the output, and no other task has
  changed.  Every other result throws, leaves the pipeline as it was, or is recorded as a failed validation.\<close>

theorem handleTaskResult_accepts:
  "(case handleTaskResult ve p now payload of
      Inl e \<Rightarrow> \<not> acceptable_result ve p payload
    | Inr (p', res, calls) \<Rightarrow>
        (if pr_success res
         then acceptable_result ve p payload \<and>
           (\<exists>t. getTask (wp_taskStore p') (rp_taskId payload) = Some t \<and> t_status t = COMPLETED \<and>
              t_resultDestination t = (if result_reference (rp_taskId payload) (rp_outputData payload) = []
                then (case getTask (wp_taskStore p) (rp_taskId payload) of None \<Rightarrow> [] | Some t0 \<Rightarrow> t_resultDestination t0)
                else result_reference (rp_taskId payload) (rp_outputData payload))) \<and>
           (\<forall>j. j = rp_taskId payload \<or> getTask (wp_taskStore p') j = getTask (wp_taskStore p) j)
         else \<not> acceptable_result ve p payload \<and>
           (p' = p \<and> calls = [] \<or> (\<exists>reason. pr_error res = Some (ValidationError reason)))))"
proof (cases "begin_result p payload")
  case (TaskUnknown i)
  then have "\<not> acceptable_result ve p payload"
    by (auto simp: begin_result_def acceptable_result_def Let_def split: option.splits if_splits)
  then show ?thesis using TaskUnknown by (simp add: handleTaskResult_def)
next
  case (Ignored res)
  then have "\<not> acceptable_result ve p payload" "\<not> pr_success res"
    by (auto simp: begin_result_def acceptable_result_def ignored_def Let_def split: option.splits if_splits)
  then show ?thesis using Ignored by (simp add: handleTaskResult_def)
next
  case (Validating task payload' v)
  then have eq: "payload' = payload" "getTask (wp_taskStore p) (rp_taskId payload) = Some task"
    by (simp_all add: begin_result_validating)
  note acc = handle_validating [OF Validating [unfolded eq]]
  let ?i = "rp_taskId payload"
  show ?thesis
  proof (cases "finish_result ve p now task payload v")
    case (Inl e)
    have "\<not> acceptable_result ve p payload"
    proof
      assume "acceptable_result ve p payload"
      then have ok: "in_flight (t_status task)" "vl_isValid (validate ve v task (rp_outputData payload))"
        using acc(1) [of ve] by auto
      from completeTask_ok [OF eq(2) ok(1)] obtain s' t where
        "completeTask (wp_taskStore p) now ?i (Some (result_reference ?i (rp_outputData payload))) = Inr (s', t)" by blast
      with ok(2) Inl show False by (auto simp: finish_result_def acc(2) Let_def split: prod.splits)
    qed
    then show ?thesis using Validating Inl by (simp add: handleTaskResult_def eq)
  next
    case (Inr r)
    obtain p' res calls where r: "r = (p', res, calls)" by (cases r) auto
    have h: "handleTaskResult ve p now payload = Inr (p', res, calls)"
      using Validating Inr r by (simp add: handleTaskResult_def eq)
    show ?thesis
    proof (cases "pr_success res")
      case True
      note fin = finish_success [OF Inr [unfolded r] True]
      obtain t where t: "completeTask (wp_taskStore p) now ?i (Some (result_reference ?i (rp_outputData payload)))
          = Inr (wp_taskStore p', t)" using fin(2) by (auto simp: acc(2))
      obtain task' where "getTask (wp_taskStore p) ?i = Some task'" "in_flight (t_status task')"
        using completeTask_in_flight [OF t] by blast
      then have fl: "in_flight (t_status task)" using eq(2) by simp
      then have "acceptable_result ve p payload" using acc(1) [of ve] fin(1) by simp
      moreover from completeTask_ok [OF eq(2) fl, of now "Some (result_reference ?i (rp_outputData payload))"] t
      have "getTask (wp_taskStore p') ?i = Some t" "t_status t = COMPLETED"
        "t_resultDestination t = str_or (Some (result_reference ?i (rp_outputData payload))) (t_resultDestination task)"
        "\<forall>j. j \<noteq> ?i \<longrightarrow> getTask (wp_taskStore p') j = getTask (wp_taskStore p) j" by auto
      ultimately show ?thesis
        using True eq(2) by (auto simp: h str_or_def or_undef_def split: list.splits)
    next
      case False
      then have "\<not> vl_isValid (validate ve v task (rp_outputData payload))"
        "\<exists>reason. pr_error res = Some (ValidationError reason)"
        using Inr r by (auto simp: finish_result_def Let_def split: if_splits sum.splits prod.splits)
      then show ?thesis using False acc(1) [of ve] by (simp add: h)
    qed
  qed
qed

subsection \<open>Interleaved runs\<close>

text \<open>A run interleaves the two halves of any number of result handlers with store operations, error reports
  and the workload operations.  \<open>Finish k\<close> resumes the \<open>k\<close>-th suspended handler.\<close>

datatype pipeline_op =
    BeginResult task_result_payload
  | Finish nat
  | StoreOp store_op
  | ExecutionError string string string
  | RegisterWorkload string int
  | Track string string
  | Cancel string
  | Listen string listener
  | AddValidator string validator

record pipeline_run =
  ru_pipeline :: workload_pipeline
  ru_suspended :: "(task \<times> task_result_payload \<times> validator) list"
  ru_calls :: calls
  ru_successes :: "string list"
  ru_failures :: "string list"

definition finish_step :: "validator_env \<Rightarrow> ms \<Rightarrow> task \<times> task_result_payload \<times> validator \<Rightarrow> pipeline_run \<Rightarrow> pipeline_run" where
  "finish_step ve now h u =
     (case h of (task, payload, v) \<Rightarrow>
        (case finish_result ve (ru_pipeline u) now task payload v of
           Inl e \<Rightarrow> u
         | Inr (p', res, calls) \<Rightarrow> u\<lparr>ru_pipeline := p', ru_calls := ru_calls u @ calls,
             ru_successes := ru_successes u @ (if pr_success res then [t_id task] else []),
             ru_failures := ru_failures u @ (if pr_success res then [] else [t_id task])\<rparr>))"

fun failure_of :: "task_store \<Rightarrow> ms \<Rightarrow> store_op \<Rightarrow> string list" where
  "failure_of s now (RecordFailure i w reason det mx) = (if getTask s i = None then [] else [i])"
| "failure_of s now _ = []"

fun pipeline_exec :: "validator_env \<Rightarrow> ms \<times> pipeline_op \<Rightarrow> pipeline_run \<Rightarrow> pipeline_run" where
  "pipeline_exec ve (now, BeginResult payload) u =
     (case begin_result (ru_pipeline u) payload of
        Validating task payload v \<Rightarrow> u\<lparr>ru_suspended := ru_suspended u @ [(task, payload, v)]\<rparr>
      | _ \<Rightarrow> u)"
| "pipeline_exec ve (now, Finish k) u =
     (if k < length (ru_suspended u)
      then finish_step ve now (ru_suspended u ! k)
             (u\<lparr>ru_suspended := take k (ru_suspended u) @ drop (Suc k) (ru_suspended u)\<rparr>)
      else u)"
| "pipeline_exec ve (now, StoreOp op) u =
     (let p = ru_pipeline u
      in u\<lparr>ru_pipeline := p\<lparr>wp_taskStore := store_exec (wp_taskStore p) now op\<rparr>,
           ru_failures := ru_failures u @ failure_of (wp_taskStore p) now op\<rparr>)"
| "pipeline_exec ve (now, ExecutionError i w e) u =
     (case handleExecutionError (ru_pipeline u) now i w e of
        Inl _ \<Rightarrow> u
      | Inr (p', _) \<Rightarrow> u\<lparr>ru_pipeline := p', ru_failures := ru_failures u @ [i]\<rparr>)"
| "pipeline_exec ve (now, RegisterWorkload wid n) u = u\<lparr>ru_pipeline := registerWorkload (ru_pipeline u) now wid n\<rparr>"
| "pipeline_exec ve (now, Track wid i) u = u\<lparr>ru_pipeline := trackTaskInWorkload (ru_pipeline u) wid i\<rparr>"
| "pipeline_exec ve (now, Cancel wid) u =
     (case cancelWorkload (ru_pipeline u) wid of
        (p', _, calls) \<Rightarrow> u\<lparr>ru_pipeline := p', ru_calls := ru_calls u @ calls\<rparr>)"
| "pipeline_exec ve (now, Listen i l) u = u\<lparr>ru_pipeline := onTaskFinished (ru_pipeline u) i l\<rparr>"
| "pipeline_exec ve (now, AddValidator k v) u = u\<lparr>ru_pipeline := registerValidator (ru_pipeline u) k v\<rparr>"

definition start_run :: "scored_scheduler \<Rightarrow> pipeline_run" where
  "start_run scheduler = \<lparr>ru_pipeline = new_pipeline empty_store scheduler, ru_suspended = [], ru_calls = [],
     ru_successes = [], ru_failures = []\<rparr>"

subsection \<open>Exactly once\<close>

definition completed_row :: "task_store \<Rightarrow> string \<Rightarrow> bool" where
  "completed_row s i \<longleftrightarrow> map_option t_status (find_row (ts_rows s) i) = Some COMPLETED"

text \<open>Every success of a task but the last is paid for by a recorded failure of it.\<close>

definition once_ok :: "pipeline_run \<Rightarrow> bool" where
  "once_ok u \<longleftrightarrow> distinct (ids (wp_taskStore (ru_pipeline u))) \<and>
     (\<forall>i. count_list (ru_successes u) i \<le> count_list (ru_failures u) i +
        (if completed_row (wp_taskStore (ru_pipeline u)) i then 1 else 0))"

lemma once_step:
  assumes "once_ok u" and "distinct (ids (wp_taskStore (ru_pipeline u')))"
    and "ru_successes u' = ru_successes u" and "ru_failures u' = ru_failures u @ fs"
    and "\<And>i. i \<notin> set fs \<Longrightarrow> completed_row (wp_taskStore (ru_pipeline u)) i \<Longrightarrow> completed_row (wp_taskStore (ru_pipeline u')) i"
  shows "once_ok u'"
  unfolding once_ok_def
proof (intro conjI allI assms(2))
  fix i
  have "count_list (ru_successes u) i \<le> count_list (ru_failures u) i +
      (if completed_row (wp_taskStore (ru_pipeline u)) i then 1 else 0)" using assms(1) by (simp add: once_ok_def)
  moreover have "i \<in> set fs \<Longrightarrow> 1 \<le> count_list fs i" using count_list_0_iff [of fs i] by linarith
  ultimately show "count_list (ru_successes u') i \<le> count_list (ru_failures u') i +
      (if completed_row (wp_taskStore (ru_pipeline u')) i then 1 else 0)"
    using assms(3,4) assms(5) [of i] by (cases "i \<in> set fs") (auto split: if_splits)
qed

lemma completed_row_kept:
  assumes "distinct (ids s)" and "\<not> is_failure op" and "completed_row s i"
  shows "completed_row (store_exec s now op) i"
  using assms exec_terminal [OF assms(1) _ _ assms(2)] by (auto simp: completed_row_def)

lemma completeTask_exec:
  "completeTask s now i d = Inr (s', t) \<Longrightarrow> s' = store_exec s now (Complete i d)"
  by (simp add: committed_def)

lemma recordTaskFailure_exec:
  "recordTaskFailure s now i w reason det mx = Inr (s', t) \<Longrightarrow> s' = store_exec s now (RecordFailure i w reason det mx)"
  by (simp add: committed_def)

lemma failure_keeps_others:
  assumes "recordTaskFailure s now j w reason det mx = Inr (s', t)" and "i \<noteq> j"
  shows "completed_row s' i = completed_row s i"
  using recordTaskFailure_others [OF assms] by (simp add: completed_row_def)

lemma once_finish:
  assumes "once_ok u"
  shows "once_ok (finish_step ve now h u)"
proof -
  obtain task payload v where h: "h = (task, payload, v)" by (cases h) auto
  let ?s = "wp_taskStore (ru_pipeline u)"
  have dist: "distinct (ids ?s)" using assms by (simp add: once_ok_def)
  show ?thesis
  proof (cases "finish_result ve (ru_pipeline u) now task payload v")
    case (Inl e)
    then show ?thesis using assms by (simp add: finish_step_def h)
  next
    case (Inr r)
    obtain p' res calls where r: "r = (p', res, calls)" by (cases r) auto
    let ?u = "finish_step ve now h u"
    have u': "?u = u\<lparr>ru_pipeline := p', ru_calls := ru_calls u @ calls,
        ru_successes := ru_successes u @ (if pr_success res then [t_id task] else []),
        ru_failures := ru_failures u @ (if pr_success res then [] else [t_id task])\<rparr>"
      using Inr r by (simp add: finish_step_def h)
    show ?thesis
    proof (cases "pr_success res")
      case True
      obtain t where c: "completeTask ?s now (t_id task) (Some (result_reference (t_id task) (rp_outputData payload)))
          = Inr (wp_taskStore p', t)" using finish_success(2) [OF Inr [unfolded r] True] by blast
      obtain task' where fl: "getTask ?s (t_id task) = Some task'" "in_flight (t_status task')"
        using completeTask_in_flight [OF c] by blast
      then have "\<not> completed_row ?s (t_id task)"
        by (auto simp: completed_row_def getTask_def mapRowToTask_def)
      moreover have "completed_row (wp_taskStore p') (t_id task)"
        using completeTask_ok [OF fl, of now "Some (result_reference (t_id task) (rp_outputData payload))"] c
        by (auto simp: completed_row_def getTask_def mapRowToTask_def)
      moreover have "completed_row (wp_taskStore p') i" if "completed_row ?s i" for i
        unfolding completeTask_exec [OF c] by (rule completed_row_kept [OF dist _ that]) simp
      moreover have "distinct (ids (wp_taskStore p'))"
        unfolding completeTask_exec [OF c] by (rule exec_ids_distinct [OF dist])
      ultimately show ?thesis
        using assms True unfolding once_ok_def u' by (auto split: if_splits)
    next
      case False
      obtain w reason det mx t where f: "recordTaskFailure ?s now (t_id task) w reason det mx = Inr (wp_taskStore p', t)"
        using Inr r False by (auto simp: finish_result_def Let_def split: if_splits sum.splits prod.splits)
      show ?thesis
      proof (rule once_step [OF assms, of _ "[t_id task]"])
        show "distinct (ids (wp_taskStore (ru_pipeline ?u)))"
          using exec_ids_distinct [OF dist, of now "RecordFailure (t_id task) w reason det mx"]
          by (simp add: u' recordTaskFailure_exec [OF f])
        show "completed_row (wp_taskStore (ru_pipeline ?u)) i" if "i \<notin> set [t_id task]" "completed_row ?s i" for i
          using that failure_keeps_others [OF f, of i] by (simp add: u')
      qed (simp_all add: u' False)
    qed
  qed
qed

lemma once_store_op:
  assumes "once_ok u"
  shows "once_ok (pipeline_exec ve (now, StoreOp op) u)"
proof -
  let ?p = "ru_pipeline u"
  have dist: "distinct (ids (wp_taskStore ?p))" using assms by (simp add: once_ok_def)
  show ?thesis
  proof (rule once_step [OF assms, of _ "failure_of (wp_taskStore ?p) now op"])
    fix i
    assume i: "i \<notin> set (failure_of (wp_taskStore ?p) now op)" "completed_row (wp_taskStore ?p) i"
    show "completed_row (wp_taskStore (ru_pipeline (pipeline_exec ve (now, StoreOp op) u))) i"
    proof (cases "is_failure op")
      case True
      then obtain j w reason det mx where op: "op = RecordFailure j w reason det mx" by (cases op) auto
      show ?thesis
      proof (cases "recordTaskFailure (wp_taskStore ?p) now j w reason det mx")
        case (Inl e)
        then show ?thesis using i(2) by (simp add: op committed_def Let_def)
      next
        case (Inr z)
        then obtain s' t where z: "recordTaskFailure (wp_taskStore ?p) now j w reason det mx = Inr (s', t)" by (cases z) auto
        then have "getTask (wp_taskStore ?p) j \<noteq> None"
          by (auto simp: recordTaskFailure_def split: option.splits)
        then have "i \<noteq> j" using i(1) by (auto simp: op)
        with failure_keeps_others [OF z] i(2) show ?thesis by (simp add: op committed_def z Let_def)
      qed
    next
      case False
      from completed_row_kept [OF dist this i(2)] show ?thesis by (simp add: Let_def)
    qed
  qed (simp_all add: Let_def exec_ids_distinct [OF dist])
qed

lemma once_error:
  assumes "once_ok u"
  shows "once_ok (pipeline_exec ve (now, ExecutionError i w e) u)"
proof (cases "handleExecutionError (ru_pipeline u) now i w e")
  case (Inl e')
  then show ?thesis using assms by simp
next
  case (Inr z)
  have dist: "distinct (ids (wp_taskStore (ru_pipeline u)))" using assms by (simp add: once_ok_def)
  obtain p' t where z: "z = (p', t)" by (cases z)
  obtain det where f: "recordTaskFailure (wp_taskStore (ru_pipeline u)) now i w ''EXECUTION_ERROR'' det DEFAULT_MAX_RETRIES
      = Inr (wp_taskStore p', t)"
    using Inr z by (auto simp: handleExecutionError_def split: sum.splits)
  show ?thesis
  proof (rule once_step [OF assms, of _ "[i]"])
    show "distinct (ids (wp_taskStore (ru_pipeline (pipeline_exec ve (now, ExecutionError i w e) u))))"
      using exec_ids_distinct [OF dist, of now "RecordFailure i w ''EXECUTION_ERROR'' det DEFAULT_MAX_RETRIES"]
      by (simp add: Inr z recordTaskFailure_exec [OF f])
    show "completed_row (wp_taskStore (ru_pipeline (pipeline_exec ve (now, ExecutionError i w e) u))) j"
      if "j \<notin> set [i]" "completed_row (wp_taskStore (ru_pipeline u)) j" for j
      using that failure_keeps_others [OF f, of j] by (simp add: Inr z)
  qed (simp_all add: Inr z)
qed

lemma once_same_store:
  "once_ok u \<Longrightarrow> wp_taskStore (ru_pipeline u') = wp_taskStore (ru_pipeline u) \<Longrightarrow>
     ru_successes u' = ru_successes u \<Longrightarrow> ru_failures u' = ru_failures u \<Longrightarrow> once_ok u'"
  by (simp add: once_ok_def)

lemma workload_ops_store [simp]:
  "wp_taskStore (registerWorkload p now wid n) = wp_taskStore p"
  "wp_taskStore (trackTaskInWorkload p wid i) = wp_taskStore p"
  "wp_taskStore (fst (cancelWorkload p wid)) = wp_taskStore p"
  "wp_taskStore (onTaskFinished p i l) = wp_taskStore p"
  "wp_taskStore (registerValidator p k v) = wp_taskStore p"
  by (auto simp: registerWorkload_def trackTaskInWorkload_def cancelWorkload_def onTaskFinished_def
      registerValidator_def split: option.splits prod.splits)

interpretation once: machine "pipeline_exec ve" once_ok for ve
proof
  fix u :: pipeline_run and z :: "ms \<times> pipeline_op"
  assume ok: "once_ok u"
  obtain now op where z: "z = (now, op)" by (cases z)
  show "once_ok (pipeline_exec ve z u)"
  proof (cases op)
    case (BeginResult payload)
    then show ?thesis using ok once_same_store [OF ok]
      by (cases "begin_result (ru_pipeline u) payload") (simp_all add: z)
  next
    case (Finish k)
    have "once_ok (u\<lparr>ru_suspended := xs\<rparr>)" for xs using ok by (simp add: once_ok_def)
    then show ?thesis using Finish ok by (simp add: z once_finish)
  next
    case (StoreOp op')
    then show ?thesis using once_store_op [OF ok] by (simp add: z)
  next
    case (ExecutionError i w e)
    then show ?thesis using once_error [OF ok] by (simp add: z)
  next
    case (Cancel wid)
    then show ?thesis using workload_ops_store(3) [of "ru_pipeline u" wid]
      by (cases "cancelWorkload (ru_pipeline u) wid") (auto simp: z intro: once_same_store [OF ok])
  qed (simp_all add: z once_same_store [OF ok])
qed

text \<open>C2. Results complete a task once: in every interleaving of result handlers, suspended at their validators
  and resumed in any order, with store operations, error reports, cancellations and the rest, the number of
  accepted results of a task is at most one more than the number of failures recorded for it; without a
  recorded failure at most one of its results is ever accepted, whatever duplicates arrive.\<close>

theorem results_exactly_once:
  "count_list (ru_successes (fold (pipeline_exec ve) ops (start_run scheduler))) i \<le>
     count_list (ru_failures (fold (pipeline_exec ve) ops (start_run scheduler))) i + 1"
proof -
  have "once_ok (start_run scheduler)"
    by (simp add: once_ok_def start_run_def new_pipeline_def empty_store_def completed_row_def find_row_def)
  then have "once_ok (fold (pipeline_exec ve) ops (start_run scheduler))" by (rule once.run_inv)
  then show ?thesis unfolding once_ok_def by (auto split: if_splits elim!: allE [of _ i])
qed

text \<open>The bound is sharp: two results of the current attempt, one valid and one not, both pass the checks
  before either is validated; the valid one completes the task, the invalid one is recorded as a failure
  and reopens it, and it can complete again.\<close>

definition race_task :: new_task where
  "race_task = \<lparr>nt_id = ''t'', nt_inputRef = [], nt_computationDescriptor = ''k'', nt_requiredResources = None,
     nt_dependencies = None, nt_executionConstraints = None, nt_resultDestination = None,
     nt_assignedWorkerId = None, nt_status = None\<rparr>"

definition race_result :: "string \<Rightarrow> task_result_payload" where
  "race_result out = \<lparr>rp_taskId = ''t'', rp_workerId = ''w'', rp_outputData = Text out, rp_executionTimeMs = 1,
     rp_attemptNumber = None, rp_itemCount = None, rp_workerHostname = None, rp_workerPid = None\<rparr>"

lemma result_race:
  "ru_successes (fold (pipeline_exec demo_env)
     [(1, StoreOp (Create race_task)), (2, StoreOp (Assign ''t'' ''w'' 100)),
      (3, AddValidator ''t'' (ExactMatchValidator ''good'' False)),
      (4, BeginResult (race_result ''good'')), (5, BeginResult (race_result ''bad'')),
      (6, Finish 0), (7, Finish 0),
      (8, StoreOp (Assign ''t'' ''w'' 100)), (9, BeginResult (race_result ''good'')), (10, Finish 0)]
     (start_run (new_scheduler DEFAULT_SCHEDULER_WEIGHTS))) = [''t'', ''t'']"
  by code_simp

subsection \<open>Listeners\<close>

text \<open>Calls made and calls still to be made for a listener.\<close>

definition listener_uses :: "listener \<Rightarrow> (string, listener) jsmap \<Rightarrow> calls \<Rightarrow> nat" where
  "listener_uses l listeners calls = count_list (map fst calls) l + count_list (jvalues listeners) l"

lemma count_delete_le: "count_list (jvalues (jdelete m i)) x \<le> count_list (jvalues m) x"
  by (induction m) auto

lemma count_delete:
  "jget m i = Some l \<Longrightarrow> count_list (jvalues (jdelete m i)) x + (if l = x then 1 else 0) \<le> count_list (jvalues m) x"
proof (induction m)
  case (Cons e m)
  obtain k v where e: "e = (k, v)" by (cases e)
  show ?case using Cons count_delete_le [where m = m and i = i and x = x] by (auto simp: e)
qed simp

lemma count_update: "count_list (jvalues (jset m i l)) x \<le> count_list (jvalues m) x + (if l = x then 1 else 0)"
  by (induction m) auto

lemma notify_uses:
  "notify p i r = (p', calls) \<Longrightarrow>
     listener_uses l (wp_completionListeners p') (cs @ calls) \<le> listener_uses l (wp_completionListeners p) cs"
  using count_delete [of "wp_completionListeners p" i "the (jget (wp_completionListeners p) i)" l]
  by (cases "jget (wp_completionListeners p) i") (auto simp: notify_def listener_uses_def)

lemma cancel_loop_uses:
  "cancel_loop store is listeners calls = (listeners', calls') \<Longrightarrow>
     listener_uses l listeners' (cs @ calls') \<le> listener_uses l listeners (cs @ calls)"
proof (induction "is" arbitrary: listeners calls)
  case (Cons i rest)
  have skip: "cancel_loop store rest listeners calls = (listeners', calls') \<Longrightarrow> ?case" by (rule Cons.IH)
  show ?case
  proof (cases "getTask store i")
    case None
    then show ?thesis using Cons.prems skip by simp
  next
    case task: (Some task)
    show ?thesis
    proof (cases "t_status task = PENDING \<or> t_status task = ASSIGNED \<or> t_status task = RUNNING")
      case False
      then show ?thesis using Cons.prems skip task by simp
    next
      case True
      show ?thesis
      proof (cases "jget listeners i")
        case None
        then show ?thesis using Cons.prems skip task True by simp
      next
        case (Some l')
        obtain R where "cancel_loop store rest (jdelete listeners i) (calls @ [(l', R)]) = (listeners', calls')"
          using Cons.prems Some task True by simp
        from Cons.IH [OF this] count_delete [OF Some, of l] show ?thesis
          by (simp add: listener_uses_def split: if_splits)
      qed
    qed
  qed
qed simp

lemma finish_uses:
  assumes "finish_result ve p now task payload v = Inr (p', res, calls)"
  shows "listener_uses l (wp_completionListeners p') (cs @ calls) \<le> listener_uses l (wp_completionListeners p) cs"
proof -
  obtain q r where "notify q (t_id task) r = (p', calls)" "wp_completionListeners q = wp_completionListeners p"
    using assms by (auto simp: finish_result_def Let_def split: if_splits sum.splits prod.splits)
  with notify_uses [of q "t_id task" r p' calls l cs] show ?thesis by simp
qed

fun listens :: "listener \<Rightarrow> ms \<times> pipeline_op \<Rightarrow> bool" where
  "listens l (now, Listen i l') = (l' = l)"
| "listens l _ = False"

abbreviation run_uses :: "listener \<Rightarrow> pipeline_run \<Rightarrow> nat" where
  "run_uses l u \<equiv> listener_uses l (wp_completionListeners (ru_pipeline u)) (ru_calls u)"

lemma step_uses: "run_uses l (pipeline_exec ve z u) \<le> run_uses l u + (if listens l z then 1 else 0)"
proof -
  obtain now op where z: "z = (now, op)" by (cases z)
  show ?thesis
  proof (cases op)
    case (BeginResult payload)
    then show ?thesis by (cases "begin_result (ru_pipeline u) payload") (simp_all add: z)
  next
    case (Finish k)
    obtain task payload v where h: "ru_suspended u ! k = (task, payload, v)" by (cases "ru_suspended u ! k") auto
    show ?thesis
    proof (cases "finish_result ve (ru_pipeline u) now task payload v")
      case (Inr r)
      obtain p' res calls where r: "r = (p', res, calls)" by (cases r) auto
      from finish_uses [OF Inr [unfolded r], of l "ru_calls u"] show ?thesis
        by (simp add: z Finish finish_step_def h Inr r)
    qed (simp add: z Finish finish_step_def h)
  next
    case (ExecutionError i w e)
    then show ?thesis
      by (cases "handleExecutionError (ru_pipeline u) now i w e") (auto simp: z handleExecutionError_def split: sum.splits)
  next
    case (Cancel wid)
    show ?thesis
    proof (cases "jget (wp_activeWorkloads (ru_pipeline u)) wid")
      case (Some st)
      obtain ls cs where c: "cancel_loop (wp_taskStore (ru_pipeline u)) (aw_inFlightTaskIds st)
          (wp_completionListeners (ru_pipeline u)) [] = (ls, cs)"
        by (cases "cancel_loop (wp_taskStore (ru_pipeline u)) (aw_inFlightTaskIds st)
          (wp_completionListeners (ru_pipeline u)) []")
      from cancel_loop_uses [OF c, of l "ru_calls u"] show ?thesis
        by (simp add: z Cancel cancelWorkload_def Some c)
    qed (simp add: z Cancel cancelWorkload_def)
  next
    case (Track wid i)
    then show ?thesis
      by (cases "jget (wp_activeWorkloads (ru_pipeline u)) wid") (simp_all add: z trackTaskInWorkload_def)
  next
    case (Listen i l')
    then show ?thesis using count_update [where m = "wp_completionListeners (ru_pipeline u)" and i = i and l = l' and x = l]
      by (simp add: z onTaskFinished_def listener_uses_def)
  qed (simp_all add: z Let_def registerWorkload_def registerValidator_def)
qed

text \<open>A completion listener is called at most as often as it was registered - so a listener registered once
  resolves at most once, whether by a result, by a failed validation or by the cancellation of its
  workload - in every interleaving.\<close>

theorem listeners_called_once:
  "count_list (map fst (ru_calls (fold (pipeline_exec ve) ops (start_run scheduler)))) l \<le>
     length (filter (listens l) ops)"
proof -
  have "run_uses l (fold (pipeline_exec ve) ops u) \<le> run_uses l u + length (filter (listens l) ops)" for u
  proof (induction ops arbitrary: u)
    case (Cons z ops)
    from Cons.IH [of "pipeline_exec ve z u"] step_uses [of l ve z u] show ?case by auto
  qed simp
  from this [of "start_run scheduler"] show ?thesis
    by (simp add: listener_uses_def start_run_def new_pipeline_def)
qed

subsection \<open>Progress\<close>

definition chunk_total :: "active_workload \<Rightarrow> nat" where
  "chunk_total st = aw_completedChunks st + aw_failedChunks st + length (aw_inFlightTaskIds st)"

abbreviation workload_of :: "pipeline_run \<Rightarrow> string \<Rightarrow> active_workload option" where
  "workload_of u wid \<equiv> jget (wp_activeWorkloads (ru_pipeline u)) wid"

fun tracks :: "string \<Rightarrow> ms \<times> pipeline_op \<Rightarrow> bool" where
  "tracks wid (now, Track wid' i) = (wid' = wid)"
| "tracks wid _ = False"

fun registers :: "string \<Rightarrow> ms \<times> pipeline_op \<Rightarrow> bool" where
  "registers wid (now, RegisterWorkload wid' n) = (wid' = wid)"
| "registers wid _ = False"

lemma settle_get:
  "jget (settle f i m) wid = map_option (\<lambda>state. if i \<in> set (aw_inFlightTaskIds state)
     then f (state\<lparr>aw_inFlightTaskIds := remove1 i (aw_inFlightTaskIds state)\<rparr>) else state) (jget m wid)"
  by (induction m) (auto simp: settle_def)

lemma notify_workloads [simp]: "notify p i r = (p', calls) \<Longrightarrow> wp_activeWorkloads p' = wp_activeWorkloads p"
  using notify_frame(2) [of p i r] by simp

lemma finish_workload:
  assumes "finish_result ve p now task payload v = Inr (p', res, calls)"
    and "jget (wp_activeWorkloads p) wid = Some st"
  shows "\<exists>st'. jget (wp_activeWorkloads p') wid = Some st' \<and> chunk_total st' = chunk_total st \<and>
    aw_totalChunks st' = aw_totalChunks st"
proof -
  have len: "Suc (length (remove1 i is)) = length is" if "i \<in> set is" for i :: string and "is"
    using that length_pos_if_in_set [OF that] by (simp add: length_remove1)
  obtain f where f: "wp_activeWorkloads p' = settle f (t_id task) (wp_activeWorkloads p)"
    "\<And>st. aw_completedChunks (f st) + aw_failedChunks (f st) = Suc (aw_completedChunks st + aw_failedChunks st)"
    "\<And>st. aw_inFlightTaskIds (f st) = aw_inFlightTaskIds st" "\<And>st. aw_totalChunks (f st) = aw_totalChunks st"
    using assms(1)
  proof (cases "vl_isValid (validate ve v task (rp_outputData payload))")
    case True
    then show ?thesis using assms(1)
      by (intro that [of "\<lambda>state. state\<lparr>aw_completedChunks := aw_completedChunks state + 1\<rparr>"])
        (auto simp: finish_result_def Let_def split: sum.splits prod.splits)
  next
    case False
    then show ?thesis using assms(1)
      by (intro that [of "\<lambda>state. state\<lparr>aw_failedChunks := aw_failedChunks state + 1\<rparr>"])
        (auto simp: finish_result_def Let_def split: sum.splits prod.splits)
  qed
  show ?thesis
    using assms(2) f(2) [of "st\<lparr>aw_inFlightTaskIds := remove1 (t_id task) (aw_inFlightTaskIds st)\<rparr>"] len
    by (auto simp: f(1,3,4) settle_get chunk_total_def)
qed

lemma step_progress:
  assumes "workload_of u wid = Some st" and "\<not> registers wid z"
  shows "\<exists>st'. workload_of (pipeline_exec ve z u) wid = Some st' \<and> aw_totalChunks st' = aw_totalChunks st \<and>
    chunk_total st' \<le> chunk_total st + (if tracks wid z then 1 else 0)"
proof -
  obtain now op where z: "z = (now, op)" by (cases z)
  show ?thesis
  proof (cases op)
    case (BeginResult payload)
    then show ?thesis using assms(1) by (cases "begin_result (ru_pipeline u) payload") (simp_all add: z)
  next
    case (Finish k)
    obtain task payload v where h: "ru_suspended u ! k = (task, payload, v)" by (cases "ru_suspended u ! k") auto
    show ?thesis
    proof (cases "finish_result ve (ru_pipeline u) now task payload v")
      case (Inr r)
      obtain p' res calls where r: "r = (p', res, calls)" by (cases r) auto
      from finish_workload [OF Inr [unfolded r] assms(1)] assms(1) show ?thesis
        by (auto simp: z Finish finish_step_def h Inr r)
    qed (use assms(1) in \<open>simp add: z Finish finish_step_def h\<close>)
  next
    case (ExecutionError i w e)
    then show ?thesis using assms(1)
      by (cases "handleExecutionError (ru_pipeline u) now i w e") (auto simp: z handleExecutionError_def split: sum.splits)
  next
    case (Cancel wid')
    then show ?thesis using assms(1)
      by (cases "workload_of u wid'")
        (auto simp: z cancelWorkload_def js_simps chunk_total_def split: prod.splits)
  next
    case (Track wid' i)
    then show ?thesis using assms(1)
      by (cases "workload_of u wid'")
        (auto simp: z trackTaskInWorkload_def js_simps chunk_total_def List.insert_def)
  qed (use assms in \<open>auto simp: z Let_def registerWorkload_def registerValidator_def onTaskFinished_def js_simps\<close>)
qed

lemma to_fixed_percent: "0 \<le> x \<Longrightarrow> x \<le> 100 \<Longrightarrow> 0 \<le> to_fixed 1 x \<and> to_fixed 1 x \<le> 100"
proof -
  assume x: "0 \<le> x" "x \<le> 100"
  then have "0 \<le> \<lfloor>x * 10 + 1 / 2\<rfloor>" "\<lfloor>x * 10 + 1 / 2\<rfloor> \<le> 1000" by (simp_all add: floor_le_iff le_floor_iff)
  then have "(0 :: rat) \<le> of_int \<lfloor>x * 10 + 1 / 2\<rfloor>" "of_int \<lfloor>x * 10 + 1 / 2\<rfloor> \<le> (1000 :: rat)"
    by (simp_all only: of_int_0_le_iff of_int_le_numeral_iff)
  then show ?thesis using x by (simp add: to_fixed_def)
qed

text \<open>The reported progress of a workload never exceeds its work: from its registration on, along any
  interleaving that does not register it again, completed, failed and in-flight chunks together are at most
  the number of chunks tracked; and when no more chunks are tracked than were announced, the percentage is
  between 0 and 100.\<close>

theorem progress_bounded:
  assumes "filter (registers wid) ops = []" and "length (filter (tracks wid) ops) \<le> n" and "0 < n"
  shows "\<exists>pg. getWorkloadProgress (ru_pipeline (fold (pipeline_exec ve) ops
      (pipeline_exec ve (t0, RegisterWorkload wid (int n)) u0))) now wid = Some pg \<and>
    pg_completedChunks pg + pg_failedChunks pg + pg_inFlightChunks pg \<le> length (filter (tracks wid) ops) \<and>
    0 \<le> pg_percentComplete pg \<and> pg_percentComplete pg \<le> 100"
proof -
  have run: "\<exists>st'. workload_of (fold (pipeline_exec ve) ops u) wid = Some st' \<and> aw_totalChunks st' = aw_totalChunks st \<and>
      chunk_total st' \<le> chunk_total st + length (filter (tracks wid) ops)"
    if "workload_of u wid = Some st" and "filter (registers wid) ops = []" for u st ops
    using that
  proof (induction ops arbitrary: u st)
    case (Cons z ops)
    then have nr: "\<not> registers wid z" "filter (registers wid) ops = []" by (auto split: if_splits)
    obtain st1 where st1: "workload_of (pipeline_exec ve z u) wid = Some st1" "aw_totalChunks st1 = aw_totalChunks st"
      "chunk_total st1 \<le> chunk_total st + (if tracks wid z then 1 else 0)"
      using step_progress [OF Cons.prems(1) nr(1)] by blast
    from Cons.IH [OF st1(1) nr(2)] st1(2,3) show ?case by fastforce
  qed simp
  let ?u = "fold (pipeline_exec ve) ops (pipeline_exec ve (t0, RegisterWorkload wid (int n)) u0)"
  obtain st where st: "workload_of ?u wid = Some st" "aw_totalChunks st = int n"
    "chunk_total st \<le> length (filter (tracks wid) ops)"
    using run [OF _ assms(1), of "pipeline_exec ve (t0, RegisterWorkload wid (int n)) u0"]
    by (auto simp: registerWorkload_def js_simps chunk_total_def)
  have "aw_completedChunks st \<le> n" using st(3) assms(2) by (simp add: chunk_total_def)
  then have "0 \<le> (of_nat (aw_completedChunks st) / of_nat n * 100 :: rat)"
    "of_nat (aw_completedChunks st) / of_nat n * 100 \<le> (100 :: rat)"
    using assms(3) by (simp_all add: divide_le_eq)
  from to_fixed_percent [OF this] show ?thesis
    using st assms(3) by (simp add: getWorkloadProgress_def chunk_total_def)
qed

theorem progress_bounded_witness:
  "\<exists>pg. getWorkloadProgress (ru_pipeline (fold (pipeline_exec demo_env)
      [(1, Track ''w'' ''a''), (2, Track ''w'' ''b''), (3, Cancel ''w'')]
      (pipeline_exec demo_env (0, RegisterWorkload ''w'' (int 2)) (start_run (new_scheduler DEFAULT_SCHEDULER_WEIGHTS)))))
      9 ''w'' = Some pg \<and> pg_percentComplete pg \<le> 100"
  using progress_bounded [of "''w''" "[(1, Track ''w'' ''a''), (2, Track ''w'' ''b''), (3, Cancel ''w'')]" 2 demo_env 0
      "start_run (new_scheduler DEFAULT_SCHEDULER_WEIGHTS)" 9] by auto

end
