(* ===== verification/Pairing_Service.thy ===== *)
theory Pairing_Service
  imports Json
begin

text \<open>
  \<open>PairingService\<close> of \<^verbatim>\<open>core/src/pairing_service.ts\<close>: the SAS handshake, the table of trusted workers and the
  encrypted sessions.  The functions of Node's \<open>crypto\<close> and the decoders of \<open>Buffer\<close> are a parameter, the
  record \<open>crypto_env\<close>; \<open>None\<close> is a call that throws.  Fresh keys, UUIDs, salts and \<open>Date.now()\<close> are arguments.

  A session object is filed under its device and under its session id and mutated through either, so the
  sessions live in a heap and the map \<open>activeSessions\<close> holds references to it.
\<close>

subsection \<open>What the service calls\<close>

record crypto_env =
  cr_unhex :: "string \<Rightarrow> buffer"
  cr_hex :: "buffer \<Rightarrow> string"
  cr_base64 :: "buffer \<Rightarrow> string"
  cr_unbase64 :: "string \<Rightarrow> buffer"
  cr_diffieHellman :: "buffer \<Rightarrow> buffer \<Rightarrow> buffer option"
  cr_hkdfSync :: "buffer \<Rightarrow> buffer \<Rightarrow> string \<Rightarrow> nat \<Rightarrow> buffer"
  cr_sha256 :: "buffer \<Rightarrow> buffer"
  cr_seal :: "buffer \<Rightarrow> buffer \<Rightarrow> string \<Rightarrow> buffer \<Rightarrow> buffer \<times> buffer"
  cr_unseal :: "buffer \<Rightarrow> buffer \<Rightarrow> string \<Rightarrow> buffer \<Rightarrow> buffer \<Rightarrow> buffer option"

subsection \<open>Data\<close>

record active_session =
  se_sessionId :: string
  se_deviceId :: string
  se_hostToWorkerKey :: buffer
  se_workerToHostKey :: buffer
  se_ivSalt :: buffer
  se_sendSequenceNum :: int
  se_lastReceivedSequenceNum :: int
  se_createdAtMs :: ms

record pending_init =
  pi_privateKey :: buffer
  pi_hostPublicKeyHex :: string
  pi_hostDeviceId :: string
  pi_workerDeviceId :: string
  pi_createdAtMs :: ms

record handshake =
  hs_hostPrivateKey :: buffer
  hs_hostPublicKeyHex :: string
  hs_hostDeviceId :: string
  hs_workerDeviceId :: string
  hs_expectedSasCode :: string
  hs_sharedSecret :: buffer
  hs_salt :: buffer
  hs_createdAtMs :: ms

record trusted_worker =
  tw_deviceId :: string
  tw_deviceName :: string
  tw_publicKey :: string
  tw_sharedSecretHash :: string
  tw_pairedAtMs :: ms
  tw_lastSeenAtMs :: ms

record encrypted_envelope =
  en_sessionId :: string
  en_sequenceNum :: int
  en_ivNonce :: string
  en_ciphertext :: string
  en_authTag :: string

record pairing_service =
  ps_trusted :: "trusted_worker list"
  ps_sessions :: "active_session list"
  ps_activeSessions :: "(string, nat) jsmap"
  ps_pendingHandshakes :: "(string, handshake) jsmap"
  ps_pendingInits :: "(string, pending_init) jsmap"

datatype pairing_error =
    InvalidInitiation string
  | BadPublicKey
  | NoPendingHandshake string
  | SasMismatch string string
  | NoActiveSession string
  | SequenceLimit
  | UnknownSession string
  | ReplayDetected int int
  | AuthenticationFailed

definition new_service :: pairing_service where
  "new_service = \<lparr>ps_trusted = [], ps_sessions = [], ps_activeSessions = [], ps_pendingHandshakes = [],
     ps_pendingInits = []\<rparr>"

subsection \<open>Numbers as bytes\<close>

text \<open>\<open>writeBigUInt64BE\<close>.\<close>

definition u64be :: "int \<Rightarrow> buffer" where
  "u64be n = map (\<lambda>k. word_of_int (n div 256 ^ k)) [7, 6, 5, 4, 3, 2, 1, 0]"

subsection \<open>Key derivation\<close>

definition deriveSasCode :: "crypto_env \<Rightarrow> buffer \<Rightarrow> buffer \<Rightarrow> string \<Rightarrow> string" where
  "deriveSasCode cr sharedSecret salt contextInfo =
     decimal (read_u32be (cr_hkdfSync cr sharedSecret salt contextInfo 4) mod 9000 + 1000)"

definition deriveDirectionalKeys :: "crypto_env \<Rightarrow> buffer \<Rightarrow> buffer \<Rightarrow> buffer \<times> buffer" where
  "deriveDirectionalKeys cr sharedSecret salt =
     (cr_hkdfSync cr sharedSecret salt ''swarmx-host-to-worker-v1'' 32,
      cr_hkdfSync cr sharedSecret salt ''swarmx-worker-to-host-v1'' 32)"

definition deriveSessionKey :: "crypto_env \<Rightarrow> buffer \<Rightarrow> buffer \<Rightarrow> string \<Rightarrow> buffer" where
  "deriveSessionKey cr sharedSecret salt contextInfo = cr_hkdfSync cr sharedSecret salt contextInfo 32"

subsection \<open>Handshake\<close>

text \<open>The raw public key is the last 32 bytes of the exported \<open>spki\<close>.\<close>

definition createPairingInitiation ::
  "crypto_env \<Rightarrow> pairing_service \<Rightarrow> ms \<Rightarrow> string \<Rightarrow> string \<Rightarrow> buffer \<Rightarrow> buffer \<Rightarrow> string \<Rightarrow>
   pairing_service \<times> string \<times> string \<times> string" where
  "createPairingInitiation cr s now workerDeviceId hostDeviceId privateKey hostPublicKeyRaw initiationId =
     (let hostPubkeyBytes = subarray hostPublicKeyRaw (length hostPublicKeyRaw - 32) (length hostPublicKeyRaw);
          hostPublicKeyHex = cr_hex cr hostPubkeyBytes
      in (s\<lparr>ps_pendingInits := jset (ps_pendingInits s) initiationId
              \<lparr>pi_privateKey = privateKey, pi_hostPublicKeyHex = hostPublicKeyHex, pi_hostDeviceId = hostDeviceId,
               pi_workerDeviceId = workerDeviceId, pi_createdAtMs = now\<rparr>\<rparr>,
          hostDeviceId, hostPublicKeyHex, initiationId))"

definition sas_context :: "string \<Rightarrow> string \<Rightarrow> string \<Rightarrow> string \<Rightarrow> string" where
  "sas_context hostDeviceId workerDeviceId hostPublicKeyHex workerPublicKeyHex =
     ''swarmx-sas-v1:'' @ hostDeviceId @ '':'' @ workerDeviceId @ '':'' @ hostPublicKeyHex @ '':'' @ workerPublicKeyHex"

definition processWorkerHandshake ::
  "crypto_env \<Rightarrow> pairing_service \<Rightarrow> ms \<Rightarrow> string \<Rightarrow> string \<Rightarrow> string \<Rightarrow> string \<Rightarrow>
   pairing_error + (pairing_service \<times> string)" where
  "processWorkerHandshake cr s now initiationId workerDeviceId workerPublicKeyHex workerSaltHex =
     (case jget (ps_pendingInits s) initiationId of
        None \<Rightarrow> Inl (InvalidInitiation initiationId)
      | Some pendingInit \<Rightarrow>
          let workerKeyDer = cr_unhex cr ''302a300506032b656e032100'' @ cr_unhex cr workerPublicKeyHex;
              salt = cr_unhex cr workerSaltHex
          in case cr_diffieHellman cr (pi_privateKey pendingInit) workerKeyDer of
               None \<Rightarrow> Inl BadPublicKey
             | Some sharedSecret \<Rightarrow>
                 let comparisonCode = deriveSasCode cr sharedSecret salt
                       (sas_context (pi_hostDeviceId pendingInit) workerDeviceId (pi_hostPublicKeyHex pendingInit)
                         workerPublicKeyHex)
                 in Inr (s\<lparr>ps_pendingHandshakes := jset (ps_pendingHandshakes s) workerDeviceId
                           \<lparr>hs_hostPrivateKey = pi_privateKey pendingInit,
                            hs_hostPublicKeyHex = pi_hostPublicKeyHex pendingInit,
                            hs_hostDeviceId = pi_hostDeviceId pendingInit, hs_workerDeviceId = workerDeviceId,
                            hs_expectedSasCode = comparisonCode, hs_sharedSecret = sharedSecret, hs_salt = salt,
                            hs_createdAtMs = now\<rparr>,
                          ps_pendingInits := jdelete (ps_pendingInits s) initiationId\<rparr>, comparisonCode))"

record confirmation =
  co_workerDeviceId :: string
  co_workerDeviceName :: string
  co_workerPublicKeyHex :: string
  co_confirmedSasCode :: string
  co_initiationId :: "string option"
  co_workerSaltHex :: "string option"

text \<open>The handshake that is confirmed: a pending one, or one processed on the spot when the initiation and the
  salt are given.  The service is returned too, since processing changes it.\<close>

definition find_handshake ::
  "crypto_env \<Rightarrow> pairing_service \<Rightarrow> ms \<Rightarrow> confirmation \<Rightarrow> pairing_error + (pairing_service \<times> handshake option)" where
  "find_handshake cr s now c =
     (case jget (ps_pendingHandshakes s) (co_workerDeviceId c) of
        Some h \<Rightarrow> Inr (s, Some h)
      | None \<Rightarrow>
          (case (or_undef (co_initiationId c), or_undef (co_workerSaltHex c)) of
             (Some i, Some salt) \<Rightarrow>
               (case processWorkerHandshake cr s now i (co_workerDeviceId c) (co_workerPublicKeyHex c) salt of
                  Inl e \<Rightarrow> Inl e
                | Inr (s', _) \<Rightarrow> Inr (s', jget (ps_pendingHandshakes s') (co_workerDeviceId c)))
           | _ \<Rightarrow> Inr (s, None)))"

text \<open>\<open>INSERT OR REPLACE\<close> removes the row of the key and appends the new one.\<close>

definition upsert_trusted :: "trusted_worker list \<Rightarrow> trusted_worker \<Rightarrow> trusted_worker list" where
  "upsert_trusted rows r = filter (\<lambda>x. tw_deviceId x \<noteq> tw_deviceId r) rows @ [r]"

definition confirmPairing ::
  "crypto_env \<Rightarrow> pairing_service \<Rightarrow> ms \<Rightarrow> confirmation \<Rightarrow> string \<Rightarrow> buffer \<Rightarrow>
   pairing_service \<times> (pairing_error + active_session)" where
  "confirmPairing cr s now c sessionId ivSalt =
     (case find_handshake cr s now c of
        Inl e \<Rightarrow> (s, Inl e)
      | Inr (s', None) \<Rightarrow> (s', Inl (NoPendingHandshake (co_workerDeviceId c)))
      | Inr (s', Some handshake) \<Rightarrow>
          if hs_expectedSasCode handshake \<noteq> co_confirmedSasCode c
          then (s', Inl (SasMismatch (hs_expectedSasCode handshake) (co_confirmedSasCode c)))
          else
            (case deriveDirectionalKeys cr (hs_sharedSecret handshake) (hs_salt handshake) of
               (hostToWorkerKey, workerToHostKey) \<Rightarrow>
                 let secretHash = cr_hex cr (cr_sha256 cr (hs_sharedSecret handshake));
                     session = \<lparr>se_sessionId = sessionId, se_deviceId = co_workerDeviceId c,
                       se_hostToWorkerKey = hostToWorkerKey, se_workerToHostKey = workerToHostKey,
                       se_ivSalt = ivSalt, se_sendSequenceNum = 0, se_lastReceivedSequenceNum = 0,
                       se_createdAtMs = now\<rparr>;
                     ref = length (ps_sessions s')
                 in (s'\<lparr>ps_trusted := upsert_trusted (ps_trusted s')
                          \<lparr>tw_deviceId = co_workerDeviceId c, tw_deviceName = co_workerDeviceName c,
                           tw_publicKey = co_workerPublicKeyHex c, tw_sharedSecretHash = secretHash,
                           tw_pairedAtMs = now, tw_lastSeenAtMs = now\<rparr>,
                        ps_sessions := ps_sessions s' @ [session],
                        ps_activeSessions := jset (jset (ps_activeSessions s') (co_workerDeviceId c) ref) sessionId ref,
                        ps_pendingHandshakes := jdelete (ps_pendingHandshakes s') (co_workerDeviceId c)\<rparr>,
                     Inr session)))"

subsection \<open>Trust\<close>

definition getTrustedWorker :: "pairing_service \<Rightarrow> string \<Rightarrow> trusted_worker option" where
  "getTrustedWorker s deviceId = find (\<lambda>r. tw_deviceId r = deviceId) (ps_trusted s)"

definition isWorkerTrusted :: "pairing_service \<Rightarrow> string \<Rightarrow> bool" where
  "isWorkerTrusted s deviceId = (getTrustedWorker s deviceId \<noteq> None)"

definition listTrustedWorkers :: "pairing_service \<Rightarrow> trusted_worker list" where
  "listTrustedWorkers s = sort_key (\<lambda>r. - tw_pairedAtMs r) (ps_trusted s)"

definition revokeWorker :: "pairing_service \<Rightarrow> string \<Rightarrow> pairing_service \<times> bool" where
  "revokeWorker s deviceId =
     (let active = (case jget (ps_activeSessions s) deviceId of
            None \<Rightarrow> ps_activeSessions s
          | Some ref \<Rightarrow> jdelete (jdelete (ps_activeSessions s) (se_sessionId (ps_sessions s ! ref))) deviceId)
      in (s\<lparr>ps_trusted := filter (\<lambda>r. tw_deviceId r \<noteq> deviceId) (ps_trusted s),
            ps_activeSessions := active,
            ps_pendingHandshakes := jdelete (ps_pendingHandshakes s) deviceId\<rparr>,
          isWorkerTrusted s deviceId))"

subsection \<open>Envelopes\<close>

definition MAX_SAFE_INTEGER :: int where
  "MAX_SAFE_INTEGER = 9007199254740991"

text \<open>\<open>Buffer.alloc(12)\<close>, the first four bytes of the salt copied in, the number written behind them.\<close>

definition constructIv :: "buffer \<Rightarrow> int \<Rightarrow> buffer" where
  "constructIv ivSalt sequenceNum =
     (let iv = copy_into (replicate 12 0) (take 4 ivSalt) 0 in take 4 iv @ u64be sequenceNum)"

text \<open>The authenticated text, \<open>`${sessionId}:${sequenceNum}`\<close>.\<close>

definition envelope_aad :: "string \<Rightarrow> int \<Rightarrow> string" where
  "envelope_aad sessionId sequenceNum = sessionId @ '':'' @ decimal (nat sequenceNum)"

definition session_of :: "pairing_service \<Rightarrow> string \<Rightarrow> (nat \<times> active_session) option" where
  "session_of s k = map_option (\<lambda>ref. (ref, ps_sessions s ! ref)) (jget (ps_activeSessions s) k)"

definition put_session :: "pairing_service \<Rightarrow> nat \<Rightarrow> active_session \<Rightarrow> pairing_service" where
  "put_session s ref x = s\<lparr>ps_sessions := (ps_sessions s)[ref := x]\<rparr>"

text \<open>The counter is stored before the limit is checked, so it advances even when the call throws.\<close>

definition encryptEnvelope ::
  "crypto_env \<Rightarrow> pairing_service \<Rightarrow> string \<Rightarrow> buffer \<Rightarrow> pairing_service \<times> (pairing_error + encrypted_envelope)" where
  "encryptEnvelope cr s sessionIdOrDeviceId plaintext =
     (case session_of s sessionIdOrDeviceId of
        None \<Rightarrow> (s, Inl (NoActiveSession sessionIdOrDeviceId))
      | Some (ref, session) \<Rightarrow>
          let n = se_sendSequenceNum session + 1;
              s' = put_session s ref (session\<lparr>se_sendSequenceNum := n\<rparr>)
          in if MAX_SAFE_INTEGER \<le> n then (s', Inl SequenceLimit)
             else
               let iv = constructIv (se_ivSalt session) n
               in case cr_seal cr (se_hostToWorkerKey session) iv (envelope_aad (se_sessionId session) n) plaintext of
                    (ciphertext, authTag) \<Rightarrow>
                      (s', Inr \<lparr>en_sessionId = se_sessionId session, en_sequenceNum = n,
                                en_ivNonce = cr_base64 cr iv, en_ciphertext = cr_base64 cr ciphertext,
                                en_authTag = cr_base64 cr authTag\<rparr>))"

definition decryptEnvelope ::
  "crypto_env \<Rightarrow> pairing_service \<Rightarrow> encrypted_envelope \<Rightarrow> pairing_service \<times> (pairing_error + buffer)" where
  "decryptEnvelope cr s envelope =
     (case session_of s (en_sessionId envelope) of
        None \<Rightarrow> (s, Inl (UnknownSession (en_sessionId envelope)))
      | Some (ref, session) \<Rightarrow>
          if en_sequenceNum envelope \<le> se_lastReceivedSequenceNum session
          then (s, Inl (ReplayDetected (en_sequenceNum envelope) (se_lastReceivedSequenceNum session)))
          else
            (case cr_unseal cr (se_workerToHostKey session) (cr_unbase64 cr (en_ivNonce envelope))
                    (envelope_aad (se_sessionId session) (en_sequenceNum envelope))
                    (cr_unbase64 cr (en_ciphertext envelope)) (cr_unbase64 cr (en_authTag envelope)) of
               None \<Rightarrow> (s, Inl AuthenticationFailed)
             | Some decrypted \<Rightarrow>
                 (put_session s ref (session\<lparr>se_lastReceivedSequenceNum := en_sequenceNum envelope\<rparr>),
                  Inr decrypted)))"

end
