(* ===== verification/Pairing_Theorems.thy ===== *)
theory Pairing_Theorems
  imports Pairing_Service
begin

text \<open>
  Properties of \<open>PairingService\<close>.  A run of the service is an inductive relation in the manner of a protocol
  trace: it collects the envelopes the host has sent, and the sequence numbers it has accepted, each with the
  session it belongs to.  The invariant of runs bounds both by the counters of the sessions.
\<close>

subsection \<open>Initialization vectors\<close>

lemma u64be_len [simp]: "length (u64be n) = 8"
  by (simp add: u64be_def)

lemma byte_of_int_eq: "(word_of_int x :: byte) = word_of_int y \<longleftrightarrow> x mod 256 = y mod 256"
  by (simp add: word_of_int_eq_iff take_bit_eq_mod)

lemma digits_inj:
  fixes m n :: int
  assumes "0 \<le> m" "m < 256 ^ k" "0 \<le> n" "n < 256 ^ k"
    and "\<forall>i<k. m div 256 ^ i mod 256 = n div 256 ^ i mod 256"
  shows "m = n"
  using assms
proof (induction k arbitrary: m n)
  case (Suc k)
  have "m div 256 = n div 256"
  proof (rule Suc.IH)
    show "\<forall>i<k. m div 256 div 256 ^ i mod 256 = n div 256 div 256 ^ i mod 256"
    proof (intro allI impI)
      fix i assume "i < k"
      then have "m div 256 ^ Suc i mod 256 = n div 256 ^ Suc i mod 256"
        using Suc.prems(5) by (meson Suc_less_eq)
      then show "m div 256 div 256 ^ i mod 256 = n div 256 div 256 ^ i mod 256"
        by (simp add: zdiv_zmult2_eq)
    qed
  qed (use Suc.prems in \<open>auto simp: pos_imp_zdiv_nonneg_iff div_less_iff_less_mult\<close>)
  moreover have "m mod 256 = n mod 256" using Suc.prems(5) by force
  ultimately show ?case by (metis div_mult_mod_eq)
qed simp

lemma u64be_inj:
  assumes "0 \<le> m" "m < MAX_SAFE_INTEGER" "0 \<le> n" "n < MAX_SAFE_INTEGER" and eq: "u64be m = u64be n"
  shows "m = n"
proof (rule digits_inj [where k = 8])
  have "map (\<lambda>k. m div 256 ^ k mod 256) [7, 6, 5, 4, 3, 2, 1, 0] = map (\<lambda>k. n div 256 ^ k mod 256) [7, 6, 5, 4, 3, 2, 1, 0]"
    using eq by (simp only: u64be_def list.map list.inject byte_of_int_eq simp_thms)
  then have "\<forall>i\<in>set [7, 6, 5, 4, 3, 2, 1, 0]. m div 256 ^ i mod 256 = n div 256 ^ i mod 256"
    by (simp only: map_eq_conv)
  moreover have "i \<in> set [7, 6, 5, 4, 3, 2, 1, 0]" if "i < 8" for i :: nat
    using that by (simp add: numeral_eq_Suc less_Suc_eq disj_commute)
  ultimately show "\<forall>i<8. m div 256 ^ i mod 256 = n div 256 ^ i mod 256" by blast
qed (use assms in \<open>simp_all add: MAX_SAFE_INTEGER_def\<close>)

lemma constructIv_inj:
  assumes "0 \<le> m" "m < MAX_SAFE_INTEGER" "0 \<le> n" "n < MAX_SAFE_INTEGER"
    and "constructIv salt m = constructIv salt n"
  shows "m = n"
  using assms u64be_inj by (auto simp: constructIv_def Let_def)

subsection \<open>What one operation does to the sessions\<close>

definition refs_ok :: "pairing_service \<Rightarrow> bool" where
  "refs_ok s \<longleftrightarrow> (\<forall>k ref. jget (ps_activeSessions s) k = Some ref \<longrightarrow> ref < length (ps_sessions s))"

text \<open>A later table of sessions: it may be longer, and the counters of a session only grow.\<close>

definition sess_mono :: "active_session list \<Rightarrow> active_session list \<Rightarrow> bool" where
  "sess_mono xs ys \<longleftrightarrow> length xs \<le> length ys \<and>
     (\<forall>i<length xs. se_ivSalt (ys ! i) = se_ivSalt (xs ! i) \<and>
        se_sendSequenceNum (xs ! i) \<le> se_sendSequenceNum (ys ! i) \<and>
        se_lastReceivedSequenceNum (xs ! i) \<le> se_lastReceivedSequenceNum (ys ! i))"

lemma sess_mono_refl [simp]: "sess_mono xs xs"
  by (simp add: sess_mono_def)

lemma sess_mono_snoc [simp]: "sess_mono xs (xs @ [x])"
  by (simp add: sess_mono_def nth_append)

lemma sess_mono_update:
  "se_ivSalt x = se_ivSalt (xs ! i) \<Longrightarrow> se_sendSequenceNum (xs ! i) \<le> se_sendSequenceNum x \<Longrightarrow>
   se_lastReceivedSequenceNum (xs ! i) \<le> se_lastReceivedSequenceNum x \<Longrightarrow> sess_mono xs (xs[i := x])"
  by (cases "i < length xs") (auto simp: sess_mono_def nth_list_update)

lemma put_session_simps [simp]:
  "ps_sessions (put_session s ref x) = (ps_sessions s)[ref := x]"
  "ps_activeSessions (put_session s ref x) = ps_activeSessions s"
  "ps_trusted (put_session s ref x) = ps_trusted s"
  by (simp_all add: put_session_def)

lemma session_of_Some:
  "session_of s k = Some (ref, x) \<longleftrightarrow> jget (ps_activeSessions s) k = Some ref \<and> x = ps_sessions s ! ref"
  by (auto simp: session_of_def)

lemma processWorkerHandshake_frame:
  "processWorkerHandshake cr s now i d pk salt = Inr (s', code) \<Longrightarrow>
   ps_sessions s' = ps_sessions s \<and> ps_activeSessions s' = ps_activeSessions s \<and> ps_trusted s' = ps_trusted s"
  by (auto simp: processWorkerHandshake_def Let_def split: option.splits)

lemma find_handshake_frame:
  "find_handshake cr s now c = Inr (s', h) \<Longrightarrow>
   ps_sessions s' = ps_sessions s \<and> ps_activeSessions s' = ps_activeSessions s \<and> ps_trusted s' = ps_trusted s"
  by (auto simp: find_handshake_def dest: processWorkerHandshake_frame split: option.splits sum.splits)

text \<open>The two ways a confirmation ends: refused, with trust and sessions untouched, or paired.\<close>

lemma confirmPairing_cases:
  assumes "confirmPairing cr s now c sid salt = (s', r)"
  obtains (refused) e where "r = Inl e" and "ps_sessions s' = ps_sessions s"
      and "ps_activeSessions s' = ps_activeSessions s" and "ps_trusted s' = ps_trusted s"
      and "\<nexists>s1 h. find_handshake cr s now c = Inr (s1, Some h) \<and> hs_expectedSasCode h = co_confirmedSasCode c"
    | (paired) s1 h x t where "find_handshake cr s now c = Inr (s1, Some h)"
      and "hs_expectedSasCode h = co_confirmedSasCode c" and "r = Inr x"
      and "se_sendSequenceNum x = 0" and "se_lastReceivedSequenceNum x = 0"
      and "tw_deviceId t = co_workerDeviceId c" and "ps_trusted s' = upsert_trusted (ps_trusted s) t"
      and "ps_sessions s' = ps_sessions s @ [x]"
      and "ps_activeSessions s' = jset (jset (ps_activeSessions s) (co_workerDeviceId c) (length (ps_sessions s)))
             sid (length (ps_sessions s))"
proof (cases "find_handshake cr s now c")
  case (Inl e)
  then show ?thesis using assms by (intro refused [of e]) (auto simp: confirmPairing_def)
next
  case (Inr q)
  obtain s1 hs where q: "q = (s1, hs)" by (cases q)
  note f = find_handshake_frame [OF Inr [unfolded q]]
  show ?thesis
  proof (cases hs)
    case None
    then show ?thesis
      using assms Inr q f by (intro refused [of "NoPendingHandshake (co_workerDeviceId c)"]) (auto simp: confirmPairing_def)
  next
    case (Some h)
    show ?thesis
    proof (cases "hs_expectedSasCode h = co_confirmedSasCode c")
      case True
      show ?thesis
        by (rule paired [OF Inr [unfolded q Some] True])
           (use assms Inr q Some True f in \<open>auto simp: confirmPairing_def deriveDirectionalKeys_def Let_def\<close>)
    next
      case False
      then show ?thesis using assms Inr q Some f by (intro refused) (auto simp: confirmPairing_def)
    qed
  qed
qed

lemma confirmPairing_frame:
  assumes "confirmPairing cr s now c sid salt = (s', r)" and ok: "refs_ok s"
  shows "refs_ok s'" and "sess_mono (ps_sessions s) (ps_sessions s')"
  using assms(1) ok by (cases rule: confirmPairing_cases; force simp: refs_ok_def js_simps split: if_splits)+

lemma revokeWorker_frame:
  "ps_sessions (fst (revokeWorker s d)) = ps_sessions s"
  "refs_ok s \<Longrightarrow> refs_ok (fst (revokeWorker s d))"
  by (auto simp: revokeWorker_def Let_def refs_ok_def js_simps split: option.splits if_splits)

lemma encryptEnvelope_sent:
  assumes "encryptEnvelope cr s k p = (s', Inr e)"
  obtains ref x where "session_of s k = Some (ref, x)" and "en_sequenceNum e = se_sendSequenceNum x + 1"
    and "en_sequenceNum e < MAX_SAFE_INTEGER" and "en_ivNonce e = cr_base64 cr (constructIv (se_ivSalt x) (en_sequenceNum e))"
    and "s' = put_session s ref (x\<lparr>se_sendSequenceNum := en_sequenceNum e\<rparr>)"
  using assms by (auto simp: encryptEnvelope_def Let_def split: option.splits if_splits prod.splits)

lemma encryptEnvelope_failed:
  assumes "encryptEnvelope cr s k p = (s', Inl err)"
  shows "sess_mono (ps_sessions s) (ps_sessions s')" and "refs_ok s \<Longrightarrow> refs_ok s'"
  using assms
  by (auto simp: encryptEnvelope_def Let_def refs_ok_def session_of_Some intro!: sess_mono_update
      split: option.splits if_splits prod.splits)

lemma decryptEnvelope_accepted:
  assumes "decryptEnvelope cr s e = (s', Inr p)"
  obtains ref x where "session_of s (en_sessionId e) = Some (ref, x)"
    and "se_lastReceivedSequenceNum x < en_sequenceNum e"
    and "s' = put_session s ref (x\<lparr>se_lastReceivedSequenceNum := en_sequenceNum e\<rparr>)"
  using assms by (auto simp: decryptEnvelope_def split: option.splits if_splits)

lemma decryptEnvelope_failed: "decryptEnvelope cr s e = (s', Inl err) \<Longrightarrow> s' = s"
  by (auto simp: decryptEnvelope_def split: option.splits if_splits)

subsection \<open>Runs\<close>

text \<open>A run of the service: \<open>sent\<close> lists the envelopes produced and \<open>accepted\<close> the sequence numbers of the
  envelopes decrypted, in order, each with the reference of its session.\<close>

inductive pairing_run ::
  "crypto_env \<Rightarrow> pairing_service \<Rightarrow> (nat \<times> encrypted_envelope) list \<Rightarrow> (nat \<times> int) list \<Rightarrow> bool" for cr where
  start: "pairing_run cr new_service [] []"
| initiate: "pairing_run cr s sent accepted \<Longrightarrow>
     pairing_run cr (fst (createPairingInitiation cr s now wid hid pk pub i)) sent accepted"
| handshake: "pairing_run cr s sent accepted \<Longrightarrow>
     processWorkerHandshake cr s now i wid pkhex salt = Inr (s', code) \<Longrightarrow> pairing_run cr s' sent accepted"
| confirm: "pairing_run cr s sent accepted \<Longrightarrow> confirmPairing cr s now c sid ivSalt = (s', r) \<Longrightarrow>
     pairing_run cr s' sent accepted"
| revoke: "pairing_run cr s sent accepted \<Longrightarrow> pairing_run cr (fst (revokeWorker s d)) sent accepted"
| encrypt: "pairing_run cr s sent accepted \<Longrightarrow> session_of s k = Some (ref, x) \<Longrightarrow>
     encryptEnvelope cr s k p = (s', Inr e) \<Longrightarrow> pairing_run cr s' (sent @ [(ref, e)]) accepted"
| encrypt_fails: "pairing_run cr s sent accepted \<Longrightarrow> encryptEnvelope cr s k p = (s', Inl err) \<Longrightarrow>
     pairing_run cr s' sent accepted"
| decrypt: "pairing_run cr s sent accepted \<Longrightarrow> session_of s (en_sessionId e) = Some (ref, x) \<Longrightarrow>
     decryptEnvelope cr s e = (s', Inr p) \<Longrightarrow> pairing_run cr s' sent (accepted @ [(ref, en_sequenceNum e)])"
| decrypt_fails: "pairing_run cr s sent accepted \<Longrightarrow> decryptEnvelope cr s e = (s', Inl err) \<Longrightarrow>
     pairing_run cr s' sent accepted"

definition sent_ok :: "crypto_env \<Rightarrow> active_session list \<Rightarrow> (nat \<times> encrypted_envelope) list \<Rightarrow> bool" where
  "sent_ok cr ss sent \<longleftrightarrow> (\<forall>(ref, e)\<in>set sent. ref < length ss \<and> 0 \<le> en_sequenceNum e \<and>
     en_sequenceNum e \<le> se_sendSequenceNum (ss ! ref) \<and> en_sequenceNum e < MAX_SAFE_INTEGER \<and>
     en_ivNonce e = cr_base64 cr (constructIv (se_ivSalt (ss ! ref)) (en_sequenceNum e)))"

definition accepted_ok :: "active_session list \<Rightarrow> (nat \<times> int) list \<Rightarrow> bool" where
  "accepted_ok ss accepted \<longleftrightarrow>
     (\<forall>(ref, n)\<in>set accepted. ref < length ss \<and> n \<le> se_lastReceivedSequenceNum (ss ! ref))"

definition counters_ok :: "active_session list \<Rightarrow> bool" where
  "counters_ok ss \<longleftrightarrow> (\<forall>x\<in>set ss. 0 \<le> se_sendSequenceNum x \<and> 0 \<le> se_lastReceivedSequenceNum x)"

definition nonces :: "(nat \<times> encrypted_envelope) list \<Rightarrow> (nat \<times> string) list" where
  "nonces sent = map (\<lambda>(ref, e). (ref, en_ivNonce e)) sent"

definition accepted_in :: "nat \<Rightarrow> (nat \<times> int) list \<Rightarrow> int list" where
  "accepted_in ref accepted = map snd (filter (\<lambda>(r, _). r = ref) accepted)"

lemma accepted_in_snoc:
  "accepted_in r (accepted @ [(ref, n)]) = accepted_in r accepted @ (if r = ref then [n] else [])"
  by (simp add: accepted_in_def)

lemma sent_ok_mono: "sent_ok cr xs sent \<Longrightarrow> sess_mono xs ys \<Longrightarrow> sent_ok cr ys sent"
  by (fastforce simp: sent_ok_def sess_mono_def)

lemma accepted_ok_mono: "accepted_ok xs acc \<Longrightarrow> sess_mono xs ys \<Longrightarrow> accepted_ok ys acc"
  by (fastforce simp: accepted_ok_def sess_mono_def)

lemma counters_ok_update:
  "counters_ok ss \<Longrightarrow> 0 \<le> se_sendSequenceNum x \<Longrightarrow> 0 \<le> se_lastReceivedSequenceNum x \<Longrightarrow> counters_ok (ss[i := x])"
  using set_update_subset_insert [of ss i x] by (auto simp: counters_ok_def)

lemma counters_ok_nth: "counters_ok ss \<Longrightarrow> i < length ss \<Longrightarrow>
    0 \<le> se_sendSequenceNum (ss ! i) \<and> 0 \<le> se_lastReceivedSequenceNum (ss ! i)"
  by (simp add: counters_ok_def)

definition run_ok ::
  "crypto_env \<Rightarrow> pairing_service \<Rightarrow> (nat \<times> encrypted_envelope) list \<Rightarrow> (nat \<times> int) list \<Rightarrow> bool" where
  "run_ok cr s sent accepted \<longleftrightarrow> refs_ok s \<and> counters_ok (ps_sessions s) \<and> sent_ok cr (ps_sessions s) sent \<and>
     accepted_ok (ps_sessions s) accepted \<and> (\<forall>ref. sorted_wrt (<) (accepted_in ref accepted)) \<and>
     (inj (cr_base64 cr) \<longrightarrow> distinct (nonces sent))"

lemma run_ok_same_sessions:
  "run_ok cr s sent accepted \<Longrightarrow> ps_sessions s' = ps_sessions s \<Longrightarrow> refs_ok s' \<Longrightarrow> run_ok cr s' sent accepted"
  by (simp add: run_ok_def)

lemma run_ok_mono:
  "run_ok cr s sent accepted \<Longrightarrow> sess_mono (ps_sessions s) (ps_sessions s') \<Longrightarrow> counters_ok (ps_sessions s') \<Longrightarrow>
   refs_ok s' \<Longrightarrow> run_ok cr s' sent accepted"
  by (auto simp: run_ok_def intro: sent_ok_mono accepted_ok_mono)

lemma confirmPairing_counters:
  assumes "confirmPairing cr s now c sid salt = (s', r)" and "counters_ok (ps_sessions s)"
  shows "counters_ok (ps_sessions s')"
  using assms by (cases rule: confirmPairing_cases) (auto simp: counters_ok_def)

lemma run_ok_encrypt:
  assumes ok: "run_ok cr s sent accepted" and ses: "session_of s k = Some (ref, x)"
    and enc: "encryptEnvelope cr s k p = (s', Inr e)"
  shows "run_ok cr s' (sent @ [(ref, e)]) accepted"
proof -
  let ?x = "x\<lparr>se_sendSequenceNum := en_sequenceNum e\<rparr>"
  from enc ses have e: "en_sequenceNum e = se_sendSequenceNum x + 1" "en_sequenceNum e < MAX_SAFE_INTEGER"
      "en_ivNonce e = cr_base64 cr (constructIv (se_ivSalt x) (en_sequenceNum e))" "s' = put_session s ref ?x"
    by (auto elim: encryptEnvelope_sent)
  from ses ok have ref: "ref < length (ps_sessions s)" "x = ps_sessions s ! ref"
    by (auto simp: session_of_Some run_ok_def refs_ok_def)
  have cnt: "0 \<le> se_sendSequenceNum x \<and> 0 \<le> se_lastReceivedSequenceNum x"
    using ok ref by (auto simp: run_ok_def counters_ok_nth)
  have mono: "sess_mono (ps_sessions s) ((ps_sessions s)[ref := ?x])"
    using ref e by (intro sess_mono_update) auto
  have base: "run_ok cr s' sent accepted"
    using ok e cnt mono by (intro run_ok_mono [OF ok]) (auto simp: run_ok_def refs_ok_def intro: counters_ok_update)
  have new: "(ref, en_ivNonce e) \<notin> set (nonces sent)" if inj: "inj (cr_base64 cr)"
  proof
    assume "(ref, en_ivNonce e) \<in> set (nonces sent)"
    then obtain e' where e': "(ref, e') \<in> set sent" "en_ivNonce e' = en_ivNonce e" by (auto simp: nonces_def)
    with ok ref have old: "0 \<le> en_sequenceNum e'" "en_sequenceNum e' \<le> se_sendSequenceNum x"
        "en_ivNonce e' = cr_base64 cr (constructIv (se_ivSalt x) (en_sequenceNum e'))"
      by (auto simp: run_ok_def sent_ok_def)
    then have "constructIv (se_ivSalt x) (en_sequenceNum e') = constructIv (se_ivSalt x) (en_sequenceNum e)"
      using e(3) e'(2) inj by (metis injD)
    then have "en_sequenceNum e' = en_sequenceNum e" using constructIv_inj old e cnt by auto
    then show False using old e by simp
  qed
  have "sent_ok cr (ps_sessions s') (sent @ [(ref, e)])"
    using base e ref cnt by (auto simp: run_ok_def sent_ok_def)
  then show ?thesis using base new by (auto simp: run_ok_def nonces_def)
qed

lemma run_ok_decrypt:
  assumes ok: "run_ok cr s sent accepted" and ses: "session_of s (en_sessionId e) = Some (ref, x)"
    and dec: "decryptEnvelope cr s e = (s', Inr p)"
  shows "run_ok cr s' sent (accepted @ [(ref, en_sequenceNum e)])"
proof -
  let ?x = "x\<lparr>se_lastReceivedSequenceNum := en_sequenceNum e\<rparr>"
  from dec ses have e: "se_lastReceivedSequenceNum x < en_sequenceNum e" "s' = put_session s ref ?x"
    by (auto elim: decryptEnvelope_accepted)
  from ses ok have ref: "ref < length (ps_sessions s)" "x = ps_sessions s ! ref"
    by (auto simp: session_of_Some run_ok_def refs_ok_def)
  have cnt: "0 \<le> se_sendSequenceNum x \<and> 0 \<le> se_lastReceivedSequenceNum x"
    using ok ref by (auto simp: run_ok_def counters_ok_nth)
  have mono: "sess_mono (ps_sessions s) ((ps_sessions s)[ref := ?x])"
    using ref e by (intro sess_mono_update) auto
  have base: "run_ok cr s' sent accepted"
    using ok e cnt mono by (intro run_ok_mono [OF ok]) (auto simp: run_ok_def refs_ok_def intro: counters_ok_update)
  have "n < en_sequenceNum e" if "n \<in> set (accepted_in ref accepted)" for n
    using that ok ref e by (fastforce simp: run_ok_def accepted_ok_def accepted_in_def)
  then have "\<forall>r. sorted_wrt (<) (accepted_in r (accepted @ [(ref, en_sequenceNum e)]))"
    using base by (simp add: run_ok_def accepted_in_snoc sorted_wrt_append)
  moreover have "accepted_ok (ps_sessions s') (accepted @ [(ref, en_sequenceNum e)])"
    using base e ref by (auto simp: run_ok_def accepted_ok_def)
  ultimately show ?thesis using base by (simp add: run_ok_def)
qed

lemma pairing_run_ok: "pairing_run cr s sent accepted \<Longrightarrow> run_ok cr s sent accepted"
proof (induction rule: pairing_run.induct)
  case start
  then show ?case
    by (simp add: run_ok_def new_service_def refs_ok_def counters_ok_def sent_ok_def accepted_ok_def accepted_in_def
        nonces_def)
next
  case (initiate s sent accepted now wid hid pk pub i)
  then show ?case
    by (intro run_ok_same_sessions [OF initiate.IH]) (auto simp: createPairingInitiation_def Let_def run_ok_def refs_ok_def)
next
  case (handshake s sent accepted now i wid pkhex salt s' code)
  then show ?case
    using processWorkerHandshake_frame [OF handshake.hyps(2)]
    by (intro run_ok_same_sessions [OF handshake.IH]) (auto simp: run_ok_def refs_ok_def)
next
  case (confirm s sent accepted now c sid ivSalt s' r)
  then have "refs_ok s" "counters_ok (ps_sessions s)" by (auto simp: run_ok_def)
  then show ?case
    using confirm.IH confirmPairing_frame [OF confirm.hyps(2)] confirmPairing_counters [OF confirm.hyps(2)]
    by (auto intro: run_ok_mono)
next
  case (revoke s sent accepted d)
  then show ?case
    using revokeWorker_frame [of s d] by (intro run_ok_same_sessions [OF revoke.IH]) (auto simp: run_ok_def)
next
  case (encrypt_fails s sent accepted k p s' err)
  then have "counters_ok (ps_sessions s')"
    by (auto simp: encryptEnvelope_def Let_def run_ok_def refs_ok_def session_of_Some counters_ok_nth
        intro!: counters_ok_update split: option.splits if_splits prod.splits)
  moreover have "refs_ok s" using encrypt_fails.IH by (simp add: run_ok_def)
  ultimately show ?case
    using encryptEnvelope_failed [OF encrypt_fails.hyps(2)] by (intro run_ok_mono [OF encrypt_fails.IH])
next
  case (encrypt s sent accepted k ref x p s' e)
  then show ?case by (intro run_ok_encrypt)
next
  case (decrypt s sent accepted e ref x s' p)
  then show ?case by (intro run_ok_decrypt)
next
  case (decrypt_fails s sent accepted e s' err)
  then show ?case using decryptEnvelope_failed by blast
qed

subsection \<open>Properties\<close>

text \<open>A crypto environment for concrete runs: the identity as cipher, with the key, the nonce and the
  authenticated text as the tag.\<close>

definition demo_text :: "buffer \<Rightarrow> string" where
  "demo_text b = map (\<lambda>w. char_of (unat w)) b"

definition demo_bytes :: "string \<Rightarrow> buffer" where
  "demo_bytes t = map (\<lambda>c. of_nat (of_char c)) t"

definition demo_crypto :: crypto_env where
  "demo_crypto = \<lparr>cr_unhex = demo_bytes, cr_hex = demo_text, cr_base64 = demo_text, cr_unbase64 = demo_bytes,
     cr_diffieHellman = (\<lambda>a b. Some (a @ b)), cr_hkdfSync = (\<lambda>k salt info n. take n (salt @ demo_bytes info @ k)),
     cr_sha256 = (\<lambda>b. b), cr_seal = (\<lambda>key iv aad p. (p, key @ iv @ demo_bytes aad)),
     cr_unseal = (\<lambda>key iv aad ct tag. if tag = key @ iv @ demo_bytes aad then Some ct else None)\<rparr>"

lemma demo_text_inverse: "demo_bytes (demo_text b) = b"
proof -
  have "of_nat (of_char (char_of (unat w) :: char)) = w" for w :: byte
  proof -
    have "unat w < 256" using unsigned_less [of w, where 'a = nat] by simp
    then show ?thesis by (simp add: of_char_of)
  qed
  then show ?thesis by (simp add: demo_bytes_def demo_text_def comp_def)
qed

lemma demo_crypto_inj: "inj (cr_base64 demo_crypto)"
  by (rule inj_on_inverseI [where g = demo_bytes]) (simp add: demo_crypto_def demo_text_inverse)

definition demo_initiated :: pairing_service where
  "demo_initiated = fst (createPairingInitiation demo_crypto new_service 1 ''phone'' ''host'' [1] [2] ''init-1'')"

definition demo_confirmation :: confirmation where
  "demo_confirmation = \<lparr>co_workerDeviceId = ''phone'', co_workerDeviceName = ''Phone'', co_workerPublicKeyHex = ''k'',
     co_confirmedSasCode = ''2234'', co_initiationId = Some ''init-1'', co_workerSaltHex = Some [CHR 0x00, CHR 0x00, CHR 0x04, CHR 0xD2]\<rparr>"

definition demo_paired :: pairing_service where
  "demo_paired = fst (confirmPairing demo_crypto demo_initiated 2 demo_confirmation ''sid'' [7, 7, 7, 7])"

lemma digit_chars: "char_of (50 :: nat) = CHR ''2''" "char_of (51 :: nat) = CHR ''3''" "char_of (52 :: nat) = CHR ''4''"
  by (simp_all add: char_of_def bit_nat_def)

lemma demo_code: "decimal 2234 = ''2234''"
  by (simp add: decimal.simps [of 2234] decimal.simps [of 223] decimal.simps [of 22] decimal.simps [of 2] digit_chars)

lemma demo_confirm:
  "confirmPairing demo_crypto demo_initiated 2 demo_confirmation ''sid'' [7, 7, 7, 7] =
     (demo_paired, Inr (ps_sessions demo_paired ! 0))"
  by (simp add: demo_paired_def confirmPairing_def find_handshake_def demo_initiated_def demo_confirmation_def
      createPairingInitiation_def new_service_def processWorkerHandshake_def deriveSasCode_def read_u32be_def
      demo_crypto_def demo_bytes_def demo_code deriveDirectionalKeys_def Let_def)

lemma demo_run_paired: "pairing_run demo_crypto demo_paired [] []"
proof -
  have "pairing_run demo_crypto demo_initiated [] []"
    unfolding demo_initiated_def by (intro pairing_run.intros)
  then show ?thesis using demo_confirm by (rule pairing_run.confirm)
qed

definition demo_session :: active_session where
  "demo_session = ps_sessions demo_paired ! 0"

lemmas demo_simps = demo_session_def demo_paired_def confirmPairing_def find_handshake_def demo_initiated_def
  demo_confirmation_def createPairingInitiation_def new_service_def processWorkerHandshake_def deriveSasCode_def
  read_u32be_def demo_bytes_def demo_code deriveDirectionalKeys_def Let_def

lemma demo_paired_parts:
  "ps_activeSessions demo_paired = [(''phone'', 0), (''sid'', 0)]"
  "map (\<lambda>se. (se_sendSequenceNum se, se_lastReceivedSequenceNum se, se_sessionId se)) (ps_sessions demo_paired) =
     [(0, 0, ''sid'')]"
  by (simp_all add: demo_simps demo_crypto_def)

lemma demo_session_of:
  "session_of demo_paired ''phone'' = Some (0, demo_session)" "session_of demo_paired ''sid'' = Some (0, demo_session)"
  "se_sendSequenceNum demo_session = 0" "se_lastReceivedSequenceNum demo_session = 0" "se_sessionId demo_session = ''sid''"
  "0 < length (ps_sessions demo_paired)"
  using demo_paired_parts by (auto simp: session_of_def demo_session_def)

lemma run_encrypt:
  assumes "pairing_run cr s sent accepted" and ses: "session_of s k = Some (ref, x)"
    and n: "se_sendSequenceNum x + 1 < MAX_SAFE_INTEGER"
  obtains e where "pairing_run cr (put_session s ref (x\<lparr>se_sendSequenceNum := se_sendSequenceNum x + 1\<rparr>)) (sent @ [(ref, e)]) accepted"
proof -
  let ?s' = "put_session s ref (x\<lparr>se_sendSequenceNum := se_sendSequenceNum x + 1\<rparr>)"
  have "\<exists>e. encryptEnvelope cr s k [] = (?s', Inr e)"
    using ses n by (auto simp: encryptEnvelope_def Let_def split: prod.splits)
  then obtain e where "encryptEnvelope cr s k [] = (?s', Inr e)" by blast
  then have "pairing_run cr ?s' (sent @ [(ref, e)]) accepted" by (rule pairing_run.encrypt [OF assms(1) ses])
  then show thesis by (rule that)
qed

text \<open>C4. Nonces are never reused: in every run of the pairing service, whatever pairings, revocations and
  failed calls come between, no two envelopes of one session (hence of one key) carry the same initialization
  vector, provided base 64 is injective.\<close>

theorem nonces_never_repeat:
  assumes "pairing_run cr s sent accepted" and "inj (cr_base64 cr)"
  shows "distinct (nonces sent)"
  using pairing_run_ok [OF assms(1)] assms(2) by (simp add: run_ok_def)

theorem nonces_never_repeat_witness:
  "\<exists>s e e'. pairing_run demo_crypto s [(0, e), (0, e')] [] \<and> distinct (nonces [(0, e), (0, e')])"
proof -
  have lim: "se_sendSequenceNum demo_session + 1 < MAX_SAFE_INTEGER" "se_sendSequenceNum demo_session + 2 < MAX_SAFE_INTEGER"
    by (simp_all add: demo_session_of MAX_SAFE_INTEGER_def)
  obtain e where run1: "pairing_run demo_crypto (put_session demo_paired 0 (demo_session\<lparr>se_sendSequenceNum :=
      se_sendSequenceNum demo_session + 1\<rparr>)) ([] @ [(0, e)]) []" (is "pairing_run _ ?s _ _")
    using demo_run_paired demo_session_of(1) lim(1) by (rule run_encrypt)
  have "session_of ?s ''phone'' = Some (0, demo_session\<lparr>se_sendSequenceNum := se_sendSequenceNum demo_session + 1\<rparr>)"
    using demo_session_of(1,6) by (auto simp: session_of_def)
  moreover have "se_sendSequenceNum (demo_session\<lparr>se_sendSequenceNum := se_sendSequenceNum demo_session + 1\<rparr>) + 1
      < MAX_SAFE_INTEGER" using lim(2) by simp
  ultimately obtain e' where run2: "pairing_run demo_crypto (put_session ?s 0 (demo_session\<lparr>se_sendSequenceNum :=
      se_sendSequenceNum demo_session + 1, se_sendSequenceNum := se_sendSequenceNum (demo_session\<lparr>se_sendSequenceNum :=
      se_sendSequenceNum demo_session + 1\<rparr>) + 1\<rparr>)) (([] @ [(0, e)]) @ [(0, e')]) []" (is "pairing_run _ ?s2 _ _")
    by (rule run_encrypt [OF run1])
  then have "pairing_run demo_crypto ?s2 [(0, e), (0, e')] []" by (simp only: append.simps)
  moreover from this have "distinct (nonces [(0, e), (0, e')])" using demo_crypto_inj by (rule nonces_never_repeat)
  ultimately show ?thesis by blast
qed

definition sealed_by_worker :: "crypto_env \<Rightarrow> active_session \<Rightarrow> string \<Rightarrow> int \<Rightarrow> buffer \<Rightarrow> encrypted_envelope" where
  "sealed_by_worker cr x sid n p =
     (case cr_seal cr (se_workerToHostKey x) (constructIv (se_ivSalt x) n) (envelope_aad (se_sessionId x) n) p of
        (ct, tag) \<Rightarrow> \<lparr>en_sessionId = sid, en_sequenceNum = n,
           en_ivNonce = cr_base64 cr (constructIv (se_ivSalt x) n), en_ciphertext = cr_base64 cr ct,
           en_authTag = cr_base64 cr tag\<rparr>)"

definition aead_ok :: "crypto_env \<Rightarrow> bool" where
  "aead_ok cr \<longleftrightarrow> (\<forall>b. cr_unbase64 cr (cr_base64 cr b) = b) \<and>
     (\<forall>key iv aad p. cr_unseal cr key iv aad (fst (cr_seal cr key iv aad p)) (snd (cr_seal cr key iv aad p)) = Some p)"

lemma demo_aead_ok: "aead_ok demo_crypto"
  by (simp add: aead_ok_def demo_crypto_def demo_text_inverse)

definition demo_envelope :: encrypted_envelope where
  "demo_envelope = sealed_by_worker demo_crypto demo_session ''sid'' 1 [5, 6]"

lemma demo_envelope_fields: "en_sessionId demo_envelope = ''sid''" "en_sequenceNum demo_envelope = 1"
  by (simp_all add: demo_envelope_def sealed_by_worker_def split: prod.splits)

lemma demo_accepts: "snd (decryptEnvelope demo_crypto demo_paired demo_envelope) = Inr [5, 6]"
  by (simp add: decryptEnvelope_def demo_session_of demo_envelope_fields)
    (simp add: demo_envelope_def sealed_by_worker_def demo_crypto_def demo_text_inverse demo_session_of)

text \<open>C10. Replay protection: in every run, the sequence numbers that \<open>decryptEnvelope\<close> has accepted for one session
  are strictly increasing, so no envelope is accepted twice, nor after a later one.\<close>

theorem accepted_numbers_increase:
  assumes "pairing_run cr s sent accepted"
  shows "sorted_wrt (<) (accepted_in ref accepted)"
  using pairing_run_ok [OF assms] by (simp add: run_ok_def)

theorem accepted_numbers_increase_witness:
  "\<exists>s. pairing_run demo_crypto s [] [(0, 1)] \<and> sorted_wrt (<) (accepted_in 0 [(0, 1)])"
proof -
  obtain s' where "decryptEnvelope demo_crypto demo_paired demo_envelope = (s', Inr [5, 6])"
    using demo_accepts by (metis prod.collapse)
  then have "pairing_run demo_crypto s' [] ([] @ [(0, en_sequenceNum demo_envelope)])"
    using pairing_run.decrypt [OF demo_run_paired] demo_session_of(2) demo_envelope_fields(1) by metis
  then have "pairing_run demo_crypto s' [] [(0, 1)]" by (simp add: demo_envelope_fields)
  then show ?thesis using accepted_numbers_increase by fastforce
qed

text \<open>C28. Round trip: a payload sealed by the worker under the session's worker-to-host key with a number above the
  last one received is decrypted to exactly that payload, and the same envelope presented again is rejected as a
  replay, whatever its content.\<close>

theorem decryptEnvelope_roundtrip:
  fixes p :: buffer
  assumes aead: "aead_ok cr" and refs: "refs_ok s" and ses: "session_of s sid = Some (ref, x)"
    and new: "se_lastReceivedSequenceNum x < n"
  defines "e \<equiv> sealed_by_worker cr x sid n p"
  shows "snd (decryptEnvelope cr s e) = Inr p \<and>
     decryptEnvelope cr (fst (decryptEnvelope cr s e)) e = (fst (decryptEnvelope cr s e), Inl (ReplayDetected n n))"
proof -
  have ref: "jget (ps_activeSessions s) sid = Some ref" "x = ps_sessions s ! ref" "ref < length (ps_sessions s)"
    using ses refs by (auto simp: session_of_Some refs_ok_def)
  have e: "en_sessionId e = sid" "en_sequenceNum e = n"
    by (simp_all add: e_def sealed_by_worker_def split: prod.splits)
  have "decryptEnvelope cr s e = (put_session s ref (x\<lparr>se_lastReceivedSequenceNum := n\<rparr>), Inr p)"
    using ses new aead by (simp add: decryptEnvelope_def e_def sealed_by_worker_def aead_ok_def case_prod_beta)
  moreover have "session_of (put_session s ref (x\<lparr>se_lastReceivedSequenceNum := n\<rparr>)) sid =
      Some (ref, x\<lparr>se_lastReceivedSequenceNum := n\<rparr>)"
    using ref by (auto simp: session_of_def)
  ultimately show ?thesis by (simp add: decryptEnvelope_def e)
qed

theorem decryptEnvelope_roundtrip_witness:
  "snd (decryptEnvelope demo_crypto demo_paired (sealed_by_worker demo_crypto demo_session ''sid'' 1 [5, 6])) = Inr [5, 6]"
proof -
  have refs: "refs_ok demo_paired" using pairing_run_ok [OF demo_run_paired] by (simp only: run_ok_def)
  have "se_lastReceivedSequenceNum demo_session < 1" by (simp only: demo_session_of less_numeral_extra)
  with refs show ?thesis by (rule decryptEnvelope_roundtrip [OF demo_aead_ok _ demo_session_of(2), THEN conjunct1])
qed

lemma isWorkerTrusted_iff: "isWorkerTrusted s d \<longleftrightarrow> d \<in> tw_deviceId ` set (ps_trusted s)"
proof -
  have "find P rows \<noteq> None \<longleftrightarrow> (\<exists>x\<in>set rows. P x)" for P and rows :: "trusted_worker list"
    by (induction rows) auto
  then show ?thesis by (auto simp: isWorkerTrusted_def getTrustedWorker_def)
qed

lemma upsert_trusted_ids: "tw_deviceId ` set (upsert_trusted rows t) = insert (tw_deviceId t) (tw_deviceId ` set rows)"
  by (auto simp: upsert_trusted_def)

text \<open>C26. Trust needs the code: after \<open>confirmPairing\<close> a device is trusted exactly when it was before, or it is the
  device being paired and its handshake exists and carries the confirmed SAS code; in every other case, errors
  included, the trusted devices are those of before.\<close>

theorem trust_requires_sas:
  "isWorkerTrusted (fst (confirmPairing cr s now c sid salt)) d \<longleftrightarrow>
     isWorkerTrusted s d \<or> d = co_workerDeviceId c \<and>
       (\<exists>s1 h. find_handshake cr s now c = Inr (s1, Some h) \<and> hs_expectedSasCode h = co_confirmedSasCode c)"
proof -
  obtain s' r where c: "confirmPairing cr s now c sid salt = (s', r)" by fastforce
  show ?thesis unfolding c fst_conv using c
    by (cases rule: confirmPairing_cases) (auto simp: isWorkerTrusted_iff upsert_trusted_ids)
qed

lemma decimal_length: "10 ^ k \<le> n \<Longrightarrow> n < 10 ^ Suc k \<Longrightarrow> 0 < n \<Longrightarrow> length (decimal n) = Suc k"
proof (induction k arbitrary: n)
  case 0
  then show ?case by (simp add: decimal.simps [of n])
next
  case (Suc k)
  have "(10 :: nat) * 1 \<le> 10 * 10 ^ k" by (rule mult_le_mono2) simp
  then have big: "10 \<le> n" using Suc.prems(1) by (metis le_trans mult.right_neutral power_Suc)
  then have "length (decimal (n div 10)) = Suc k"
    using Suc.prems by (intro Suc.IH) (simp_all add: less_eq_div_iff_mult_less_eq div_greater_zero_iff)
  then show ?case using big by (simp add: decimal.simps [of n])
qed

text \<open>The comparison code always has four digits, whatever bytes the key derivation returns: the reduction modulo
  9000 and the offset keep the number from 1000 to 9999.\<close>

theorem deriveSasCode_four_digits: "length (deriveSasCode cr sharedSecret salt contextInfo) = 4"
  by (simp add: deriveSasCode_def decimal_length [where k = 3] flip: numeral_eq_Suc)

text \<open>Revocation ends the session of the device: the device is no longer trusted, and until it pairs again nothing
  can be encrypted for it.\<close>

theorem revokeWorker_ends_session:
  "\<not> isWorkerTrusted (fst (revokeWorker s d)) d \<and>
   encryptEnvelope cr (fst (revokeWorker s d)) d p = (fst (revokeWorker s d), Inl (NoActiveSession d)) \<and>
   (snd (revokeWorker s d) \<longleftrightarrow> isWorkerTrusted s d)"
  by (auto simp: revokeWorker_def Let_def isWorkerTrusted_def getTrustedWorker_def encryptEnvelope_def session_of_def
      js_simps find_None_iff split: option.splits)

end
