(* ===== verification/Binary_Framing.thy ===== *)
theory Binary_Framing
  imports Json
begin

text \<open>
  The binary frames of \<^verbatim>\<open>core/src/binary_framing.ts\<close>: four bytes of magic, the length of the metadata, the metadata
  as JSON text and the raw payload.  \<open>JSON.stringify\<close>, \<open>JSON.parse\<close>, the UTF-8 decoder, \<open>String(v)\<close> and
  \<open>Number(s)\<close> are the parameter \<open>json_codec\<close>; a value that is no number is \<open>None\<close>.
\<close>

record json_codec =
  jc_stringify :: "json \<Rightarrow> string"
  jc_parse :: "string \<Rightarrow> json option"
  jc_decode :: "buffer \<Rightarrow> string"
  jc_text :: "json \<Rightarrow> string"
  jc_number :: "string \<Rightarrow> rat option"

subsection \<open>Constants and errors\<close>

definition BINARY_FRAME_MAGIC :: nat where
  "BINARY_FRAME_MAGIC = 0x5357524d"

definition HEADER_SIZE :: nat where
  "HEADER_SIZE = 8"

definition MAX_JSON_HEADER_SIZE :: nat where
  "MAX_JSON_HEADER_SIZE = 10 * 1024 * 1024"

definition MAX_PAYLOAD_SIZE :: nat where
  "MAX_PAYLOAD_SIZE = 512 * 1024 * 1024"

definition MAX_TOTAL_FRAME_SIZE :: nat where
  "MAX_TOTAL_FRAME_SIZE = HEADER_SIZE + MAX_JSON_HEADER_SIZE + MAX_PAYLOAD_SIZE"

lemmas frame_constants = BINARY_FRAME_MAGIC_def HEADER_SIZE_def MAX_JSON_HEADER_SIZE_def MAX_PAYLOAD_SIZE_def
  MAX_TOTAL_FRAME_SIZE_def

datatype framing_error =
    MetadataTooLarge nat
  | PayloadTooLarge nat
  | BadHeaderLength nat
  | MalformedMetadata
  | BadDeclaredPayload json
  | FrameTooLarge
  | LengthMismatch json nat

record decoded_frame =
  df_metadata :: json
  df_payload :: buffer
  df_totalLength :: nat

subsection \<open>Arithmetic on a JSON value\<close>

text \<open>\<open>Number(v)\<close>, as the comparisons apply it, and \<open>n + v\<close>, which concatenates when \<open>v\<close> is no primitive number.\<close>

fun js_number :: "json_codec \<Rightarrow> json \<Rightarrow> rat option" where
  "js_number jc (JNum r) = Some r"
| "js_number jc JNull = Some 0"
| "js_number jc (JBool b) = Some (of_bool b)"
| "js_number jc (JStr s) = jc_number jc s"
| "js_number jc v = jc_number jc (jc_text jc v)"

fun js_add :: "json_codec \<Rightarrow> nat \<Rightarrow> json \<Rightarrow> rat option" where
  "js_add jc n (JNum r) = Some (of_nat n + r)"
| "js_add jc n JNull = Some (of_nat n)"
| "js_add jc n (JBool b) = Some (of_nat n + of_bool b)"
| "js_add jc n (JStr s) = jc_number jc (decimal n @ s)"
| "js_add jc n v = jc_number jc (decimal n @ jc_text jc v)"

text \<open>\<open>x < y\<close> and \<open>x > y\<close> are false when a side is no number; an index that is no number counts as 0.\<close>

definition num_less :: "rat option \<Rightarrow> rat option \<Rightarrow> bool" where
  "num_less x y = (case (x, y) of (Some a, Some b) \<Rightarrow> a < b | _ \<Rightarrow> False)"

lemma num_less_simps [simp]:
  "num_less (Some a) (Some b) = (a < b)" "num_less None y = False" "num_less x None = False"
  by (simp_all add: num_less_def split: option.splits)

definition to_index :: "rat option \<Rightarrow> int" where
  "to_index x = (case x of None \<Rightarrow> 0 | Some r \<Rightarrow> if 0 \<le> r then \<lfloor>r\<rfloor> else \<lceil>r\<rceil>)"

lemma to_index_nat [simp]: "to_index (Some (of_nat n)) = int n"
  by (simp add: to_index_def)

subsection \<open>Encoding\<close>

text \<open>The length is written into the metadata object, and into its \<open>result\<close> when that is an object.\<close>

definition set_total :: "nat \<Rightarrow> json \<Rightarrow> json" where
  "set_total n metadata =
     (case metadata of
        JObj fs \<Rightarrow>
          let fs1 = jset fs ''totalPayloadBytes'' (JNum (of_nat n))
          in (case jget fs1 ''result'' of
                Some (JObj gs) \<Rightarrow> JObj (jset fs1 ''result'' (JObj (jset gs ''totalPayloadBytes'' (JNum (of_nat n)))))
              | _ \<Rightarrow> JObj fs1)
      | _ \<Rightarrow> metadata)"

definition json_bytes :: "json_codec \<Rightarrow> json \<Rightarrow> buffer" where
  "json_bytes jc v = utf8 (jc_stringify jc v)"

definition frame_bytes :: "json_codec \<Rightarrow> json \<Rightarrow> buffer \<Rightarrow> buffer" where
  "frame_bytes jc metadata payload =
     u32be BINARY_FRAME_MAGIC @ u32be (length (json_bytes jc metadata)) @ json_bytes jc metadata @ payload"

definition encodeBinaryFrame :: "json_codec \<Rightarrow> json \<Rightarrow> buffer \<Rightarrow> framing_error + buffer" where
  "encodeBinaryFrame jc metadata payload =
     (let metadata' = set_total (length payload) metadata; jsonBuf = json_bytes jc metadata'
      in if MAX_JSON_HEADER_SIZE < length jsonBuf then Inl (MetadataTooLarge (length jsonBuf))
         else if MAX_PAYLOAD_SIZE < length payload then Inl (PayloadTooLarge (length payload))
         else Inr (frame_bytes jc metadata' payload))"

subsection \<open>Decoding\<close>

text \<open>The chain of \<open>??\<close> over the places where a declared length may stand.\<close>

definition total_at :: "json option \<Rightarrow> json option" where
  "total_at v = json_field v ''totalPayloadBytes''"

definition declared_payload :: "json \<Rightarrow> json option" where
  "declared_payload metadata =
     (let m = Some metadata; params = json_field m ''params''; wl = json_field params ''workload''
      in nullish_or (total_at m)
          (nullish_or (total_at (json_field m ''result''))
            (nullish_or (total_at (json_field wl ''data''))
              (nullish_or (total_at wl)
                (nullish_or (total_at params)
                  (nullish_or (total_at (json_field (json_field m ''workload'') ''data''))
                    (total_at (json_field m ''data''))))))))"

definition decode_payload :: "json_codec \<Rightarrow> buffer \<Rightarrow> nat \<Rightarrow> json \<Rightarrow> framing_error + decoded_frame option" where
  "decode_payload jc buffer jsonLen metadata =
     (let declared = declared_payload metadata;
          totalFrameSize = (case declared of None \<Rightarrow> Some (of_nat (length buffer))
                            | Some d \<Rightarrow> js_add jc (HEADER_SIZE + jsonLen) d);
          payload = js_subarray buffer (int (HEADER_SIZE + jsonLen)) (to_index totalFrameSize);
          frame = \<lparr>df_metadata = metadata, df_payload = payload, df_totalLength = nat (to_index totalFrameSize)\<rparr>
      in if (case declared of None \<Rightarrow> False
             | Some d \<Rightarrow> num_less (js_number jc d) (Some 0) \<or> num_less (Some (of_nat MAX_PAYLOAD_SIZE)) (js_number jc d))
         then Inl (BadDeclaredPayload (the declared))
         else if num_less (Some (of_nat MAX_TOTAL_FRAME_SIZE)) totalFrameSize then Inl FrameTooLarge
         else if num_less (Some (of_nat (length buffer))) totalFrameSize then Inr None
         else (case declared of
                 None \<Rightarrow> Inr (Some frame)
               | Some d \<Rightarrow> if d = JNum (of_nat (length payload)) then Inr (Some frame)
                           else Inl (LengthMismatch d (length payload))))"

definition decodeBinaryFrame :: "json_codec \<Rightarrow> buffer \<Rightarrow> framing_error + decoded_frame option" where
  "decodeBinaryFrame jc buffer =
     (if length buffer < HEADER_SIZE then Inr None
      else if read_u32be buffer \<noteq> BINARY_FRAME_MAGIC then Inr None
      else
        let jsonLen = read_u32be (drop 4 buffer)
        in if jsonLen = 0 \<or> MAX_JSON_HEADER_SIZE < jsonLen then Inl (BadHeaderLength jsonLen)
           else if length buffer < HEADER_SIZE + jsonLen then Inr None
           else (case jc_parse jc (jc_decode jc (subarray buffer HEADER_SIZE (HEADER_SIZE + jsonLen))) of
                   None \<Rightarrow> Inl MalformedMetadata
                 | Some metadata \<Rightarrow> decode_payload jc buffer jsonLen metadata))"

end
