(* ===== verification/Framing_Theorems.thy ===== *)
theory Framing_Theorems
  imports Binary_Framing
begin

text \<open>
  Properties of the binary frames: a frame is decoded to what was encoded whatever follows it, and a proper prefix of
  a frame asks for more data.
\<close>

subsection \<open>The layout of a frame\<close>

lemma declared_set_total: "declared_payload (set_total n (JObj fs)) = Some (JNum (of_nat n))"
  by (auto simp: declared_payload_def set_total_def Let_def total_at_def js_simps split: option.splits json.splits)

lemma length_frame_bytes: "length (frame_bytes jc v p) = HEADER_SIZE + length (json_bytes jc v) + length p"
  by (simp add: frame_bytes_def HEADER_SIZE_def)

lemma frame_magic:
  assumes "4 \<le> k"
  shows "read_u32be (take k (frame_bytes jc v p @ rest)) = BINARY_FRAME_MAGIC"
  using assms by (simp add: frame_bytes_def read_u32be_append BINARY_FRAME_MAGIC_def)

lemma frame_json_length:
  assumes "8 \<le> k" and "length (json_bytes jc v) < 4294967296"
  shows "read_u32be (drop 4 (take k (frame_bytes jc v p @ rest))) = length (json_bytes jc v)"
  using assms by (simp add: frame_bytes_def read_u32be_append drop_take)

lemma frame_json:
  assumes "HEADER_SIZE + length (json_bytes jc v) \<le> k"
  shows "subarray (take k (frame_bytes jc v p @ rest)) HEADER_SIZE (HEADER_SIZE + length (json_bytes jc v)) = json_bytes jc v"
  using assms by (simp add: subarray_def frame_bytes_def HEADER_SIZE_def drop_take min_def)

lemma frame_payload:
  "subarray (frame_bytes jc v p @ rest) (HEADER_SIZE + length (json_bytes jc v)) (length (frame_bytes jc v p)) = p"
  by (simp add: subarray_def frame_bytes_def HEADER_SIZE_def)

text \<open>A frame whose metadata declares the length of its payload, within the limits of the format.\<close>

definition frame_ok :: "json_codec \<Rightarrow> json \<Rightarrow> buffer \<Rightarrow> bool" where
  "frame_ok jc v p \<longleftrightarrow> jc_parse jc (jc_decode jc (json_bytes jc v)) = Some v \<and>
     declared_payload v = Some (JNum (of_nat (length p))) \<and>
     0 < length (json_bytes jc v) \<and> length (json_bytes jc v) \<le> MAX_JSON_HEADER_SIZE \<and> length p \<le> MAX_PAYLOAD_SIZE"

lemma frame_ok_length: "frame_ok jc v p \<Longrightarrow> length (json_bytes jc v) < 4294967296"
  by (simp add: frame_ok_def frame_constants)

lemma encoded_frame_ok:
  assumes "encodeBinaryFrame jc (JObj fs) p = Inr f"
    and "jc_parse jc (jc_decode jc (json_bytes jc (set_total (length p) (JObj fs)))) = Some (set_total (length p) (JObj fs))"
    and "json_bytes jc (set_total (length p) (JObj fs)) \<noteq> []"
  shows "frame_ok jc (set_total (length p) (JObj fs)) p" and "f = frame_bytes jc (set_total (length p) (JObj fs)) p"
  using assms by (auto simp: encodeBinaryFrame_def Let_def frame_ok_def declared_set_total split: if_splits)

text \<open>What a decoder sees of a frame: \<open>b\<close> is the part of a stream that starts with the frame and has arrived.\<close>

definition arrived :: "json_codec \<Rightarrow> json \<Rightarrow> buffer \<Rightarrow> buffer \<Rightarrow> bool" where
  "arrived jc v p b \<longleftrightarrow> (\<exists>k rest. b = take k (frame_bytes jc v p @ rest))"

lemma arrived_magic: "arrived jc v p b \<Longrightarrow> 4 \<le> length b \<Longrightarrow> read_u32be b = BINARY_FRAME_MAGIC"
  by (auto simp: arrived_def simp del: take_append intro: frame_magic)

lemma arrived_json_length: "arrived jc v p b \<Longrightarrow> frame_ok jc v p \<Longrightarrow> 8 \<le> length b \<Longrightarrow>
    read_u32be (drop 4 b) = length (json_bytes jc v)"
  by (auto simp: arrived_def simp del: take_append intro: frame_json_length frame_ok_length)

lemma arrived_json: "arrived jc v p b \<Longrightarrow> HEADER_SIZE + length (json_bytes jc v) \<le> length b \<Longrightarrow>
    subarray b HEADER_SIZE (HEADER_SIZE + length (json_bytes jc v)) = json_bytes jc v"
  by (auto simp: arrived_def simp del: take_append intro: frame_json)

lemma arrived_payload:
  assumes "arrived jc v p b" and "length (frame_bytes jc v p) \<le> length b"
  shows "subarray b (HEADER_SIZE + length (json_bytes jc v)) (length (frame_bytes jc v p)) = p"
proof -
  from assms(1) obtain k rest where b: "b = take k (frame_bytes jc v p @ rest)" by (auto simp: arrived_def)
  then have "length (frame_bytes jc v p) \<le> k" using assms(2) by simp
  then have "b = frame_bytes jc v p @ take (k - length (frame_bytes jc v p)) rest" using b by simp
  then show ?thesis using frame_payload by metis
qed

lemma decode_at:
  assumes "frame_ok jc v p" and "arrived jc v p b"
  shows "decodeBinaryFrame jc b =
     (if length b < HEADER_SIZE + length (json_bytes jc v) then Inr None
      else decode_payload jc b (length (json_bytes jc v)) v)"
proof (cases "length b < HEADER_SIZE")
  case True
  then show ?thesis by (simp add: decodeBinaryFrame_def)
next
  case False
  then have "8 \<le> length b" "4 \<le> length b" by (simp_all add: HEADER_SIZE_def)
  then show ?thesis
    using False assms arrived_magic [OF assms(2)] arrived_json_length [OF assms(2,1)] arrived_json [OF assms(2)]
    by (simp add: decodeBinaryFrame_def Let_def frame_ok_def)
qed

lemma decode_payload_frame:
  assumes ok: "frame_ok jc v p" and b: "arrived jc v p b"
  shows "decode_payload jc b (length (json_bytes jc v)) v =
     (if length b < length (frame_bytes jc v p) then Inr None
      else Inr (Some \<lparr>df_metadata = v, df_payload = p, df_totalLength = length (frame_bytes jc v p)\<rparr>))"
proof -
  let ?n = "length (frame_bytes jc v p)"
  have size: "?n \<le> MAX_TOTAL_FRAME_SIZE" using ok by (simp add: frame_ok_def MAX_TOTAL_FRAME_SIZE_def length_frame_bytes)
  have total: "js_add jc (HEADER_SIZE + length (json_bytes jc v)) (JNum (of_nat (length p))) = Some (of_nat ?n)"
    by (simp add: length_frame_bytes)
  have body: "js_subarray b (int (HEADER_SIZE + length (json_bytes jc v))) (int ?n) = p" if "\<not> length b < ?n"
    using that arrived_payload [OF b] by (subst js_subarray_nat) (simp_all add: length_frame_bytes)
  show ?thesis
    using ok size body
    by (simp add: decode_payload_def Let_def frame_ok_def total del: js_add.simps)
qed

lemma decode_arrived:
  assumes "frame_ok jc v p" and "arrived jc v p b"
  shows "decodeBinaryFrame jc b =
     (if length b < length (frame_bytes jc v p) then Inr None
      else Inr (Some \<lparr>df_metadata = v, df_payload = p, df_totalLength = length (frame_bytes jc v p)\<rparr>))"
  using decode_at [OF assms] decode_payload_frame [OF assms] by (simp add: length_frame_bytes)

subsection \<open>Properties\<close>

text \<open>A codec for concrete frames.\<close>

definition demo_codec :: json_codec where
  "demo_codec = \<lparr>jc_stringify = (\<lambda>v. ''m''),
     jc_parse = (\<lambda>s. if s = ''m'' then Some (JObj [(''totalPayloadBytes'', JNum 2)]) else None),
     jc_decode = (\<lambda>b. map (\<lambda>w. char_of (unat w)) b), jc_text = (\<lambda>v. []), jc_number = (\<lambda>s. None)\<rparr>"

lemma demo_frame:
  "encodeBinaryFrame demo_codec (JObj []) [5, 6] = Inr [0x53, 0x57, 0x52, 0x4d, 0, 0, 0, 1, 0x6d, 5, 6]"
  "json_bytes demo_codec v = [0x6d]" "set_total (Suc (Suc 0)) (JObj []) = JObj [(''totalPayloadBytes'', JNum 2)]"
  "jc_parse demo_codec (jc_decode demo_codec [0x6d]) = Some (JObj [(''totalPayloadBytes'', JNum 2)])"
  by (simp_all add: encodeBinaryFrame_def set_total_def Let_def json_bytes_def demo_codec_def utf8_def utf8_char_def
      frame_bytes_def u32be_def frame_constants char_of_def bit_nat_def)

text \<open>C27. Round trip of the frame format: what \<open>encodeBinaryFrame\<close> produces is decoded to exactly the metadata, with
  the declared length filled in, and the payload, whatever bytes of later frames follow, and the reported length is
  that of the frame; the codec is assumed to parse its own text of this metadata back.\<close>

theorem frame_roundtrip:
  assumes "encodeBinaryFrame jc (JObj fs) p = Inr f"
    and "jc_parse jc (jc_decode jc (json_bytes jc (set_total (length p) (JObj fs)))) = Some (set_total (length p) (JObj fs))"
    and "json_bytes jc (set_total (length p) (JObj fs)) \<noteq> []"
  shows "decodeBinaryFrame jc (f @ rest) =
     Inr (Some \<lparr>df_metadata = set_total (length p) (JObj fs), df_payload = p, df_totalLength = length f\<rparr>)"
proof -
  note ok = encoded_frame_ok [OF assms]
  have "arrived jc (set_total (length p) (JObj fs)) p (f @ rest)"
    unfolding arrived_def ok(2) by (metis take_all_iff order_refl)
  then show ?thesis using decode_arrived [OF ok(1)] ok(2) by simp
qed

theorem frame_roundtrip_witness:
  "decodeBinaryFrame demo_codec ([0x53, 0x57, 0x52, 0x4d, 0, 0, 0, 1, 0x6d, 5, 6] @ [9]) =
     Inr (Some \<lparr>df_metadata = JObj [(''totalPayloadBytes'', JNum 2)], df_payload = [5, 6], df_totalLength = 11\<rparr>)"
  using frame_roundtrip [OF demo_frame(1), of "[9]"] by (simp add: demo_frame)

text \<open>Partial input: a decoder that holds only part of a frame, in any cut, header and metadata included, reports
  that it needs more data; it neither fails nor returns a truncated frame.\<close>

theorem partial_frame_waits:
  assumes "encodeBinaryFrame jc (JObj fs) p = Inr f"
    and "jc_parse jc (jc_decode jc (json_bytes jc (set_total (length p) (JObj fs)))) = Some (set_total (length p) (JObj fs))"
    and "json_bytes jc (set_total (length p) (JObj fs)) \<noteq> []" and "k < length f"
  shows "decodeBinaryFrame jc (take k f) = Inr None"
proof -
  note ok = encoded_frame_ok [OF assms(1-3)]
  have "arrived jc (set_total (length p) (JObj fs)) p (take k f)"
    unfolding arrived_def ok(2) by (metis append_Nil2)
  then show ?thesis using decode_arrived [OF ok(1)] ok(2) assms(4) by simp
qed

theorem partial_frame_waits_witness:
  "decodeBinaryFrame demo_codec (take 10 [0x53, 0x57, 0x52, 0x4d, 0, 0, 0, 1, 0x6d, 5, 6]) = Inr None"
  by (rule partial_frame_waits [OF demo_frame(1)]) (simp_all add: demo_frame)

end
