(* ===== verification/Ipc_Stream.thy ===== *)
theory Ipc_Stream
  imports Framing_Theorems
begin

text \<open>
  The receive loop of the IPC socket, \<open>processBuffer\<close> in \<open>IpcServer.start\<close> of \<^verbatim>\<open>core/src/ipc_server.ts\<close>: chunks of
  the byte stream are queued as they arrive, and one pass of the loop takes a binary frame or a line of JSON from the
  front of the queue.  \<open>processing\<close> is the flag that keeps a second loop from starting while the first awaits a handler;
  the queue of pending chunks may grow during that time.
\<close>

subsection \<open>State\<close>

record ingest =
  in_chunkList :: "buffer list"
  in_totalBufferedBytes :: int
  in_processing :: bool

definition new_ingest :: ingest where
  "new_ingest = \<lparr>in_chunkList = [], in_totalBufferedBytes = 0, in_processing = False\<rparr>"

text \<open>How one pass of the loop ends: \<open>Waits\<close> is its \<open>break\<close>, \<open>Breaks\<close> the outer \<open>catch\<close>.\<close>

datatype ingest_outcome =
    Waits
  | GotFrame json buffer
  | GotLine string
  | EmptyLine
  | Breaks

definition js_space :: "char \<Rightarrow> bool" where
  "js_space c \<longleftrightarrow> of_char c \<in> {9, 10, 11, 12, 13, 32, 160 :: nat}"

definition js_trim :: "string \<Rightarrow> string" where
  "js_trim s = rev (dropWhile js_space (rev (dropWhile js_space s)))"

definition before_newline :: "string \<Rightarrow> string option" where
  "before_newline text = (if CHR 0x0A \<in> set text then Some (takeWhile (\<lambda>c. c \<noteq> CHR 0x0A) text) else None)"

text \<open>What remains of the queue when \<open>n\<close> bytes of the complete buffer are consumed.\<close>

definition consume :: "buffer \<Rightarrow> int \<Rightarrow> rat option \<Rightarrow> buffer list \<times> int" where
  "consume buf buffered n =
     (if num_less n (Some (of_int buffered))
      then (let leftover = js_subarray buf (to_index n) (int (length buf)) in ([leftover], int (length leftover)))
      else ([], 0))"

subsection \<open>One pass of the loop\<close>

definition take_line :: "json_codec \<Rightarrow> buffer list \<Rightarrow> int \<Rightarrow> buffer list \<times> int \<times> ingest_outcome" where
  "take_line jc chunks buffered =
     (let textBuf = concat chunks; text = jc_decode jc textBuf
      in case before_newline text of
           None \<Rightarrow> (chunks, buffered, Waits)
         | Some l \<Rightarrow>
             (case consume textBuf buffered (Some (of_nat (length (utf8 (l @ [CHR 0x0A]))))) of
                (chunks', buffered') \<Rightarrow>
                  (chunks', buffered', if js_trim l = [] then EmptyLine else GotLine (js_trim l))))"

text \<open>The declared length falls back to 0, and it is used without any check of its sign or size.\<close>

definition take_frame :: "json_codec \<Rightarrow> buffer list \<Rightarrow> int \<Rightarrow> nat \<Rightarrow> buffer list \<times> int \<times> ingest_outcome" where
  "take_frame jc chunks buffered jsonLen =
     (let chunks1 = (if 8 + jsonLen \<le> length (hd chunks) then chunks else [concat chunks]);
          headerBuf = hd chunks1
      in case jc_parse jc (jc_decode jc (subarray headerBuf 8 (8 + jsonLen))) of
           None \<Rightarrow> (chunks1, buffered, Breaks)
         | Some metadata \<Rightarrow>
             let declaredPayload = the (nullish_or (declared_payload metadata) (Some (JNum 0)));
                 requiredFrameSize = js_add jc (8 + jsonLen) declaredPayload
             in if num_less (Some (of_int buffered)) requiredFrameSize then (chunks1, buffered, Waits)
                else
                  let completeBuffer = concat chunks1;
                      framePayload = js_subarray completeBuffer (int (8 + jsonLen)) (to_index requiredFrameSize)
                  in (case consume completeBuffer buffered requiredFrameSize of
                        (chunks', buffered') \<Rightarrow> (chunks', buffered', GotFrame metadata framePayload)))"

definition loop_body :: "json_codec \<Rightarrow> buffer list \<Rightarrow> int \<Rightarrow> buffer list \<times> int \<times> ingest_outcome" where
  "loop_body jc chunks buffered =
     (if buffered = 0 then (chunks, buffered, Waits)
      else
        let chunks1 = (if length (hd chunks) < 8 \<and> 8 \<le> buffered then [concat chunks] else chunks);
            firstChunk = hd chunks1
        in if 4 \<le> buffered \<and> length firstChunk < 4 then (chunks1, buffered, Breaks)
           else if 4 \<le> buffered \<and> read_u32be firstChunk = BINARY_FRAME_MAGIC
           then (if buffered < 8 then (chunks1, buffered, Waits)
                 else
                   let jsonLen = read_u32be (drop 4 firstChunk)
                   in if buffered < 8 + int jsonLen then (chunks1, buffered, Waits)
                      else take_frame jc chunks1 buffered jsonLen)
           else take_line jc chunks1 buffered)"

text \<open>An error drops everything that is buffered and ends the loop, like a \<open>break\<close> does.\<close>

definition iterate :: "json_codec \<Rightarrow> ingest \<Rightarrow> ingest \<times> ingest_outcome" where
  "iterate jc s =
     (if \<not> in_processing s then (s, Waits)
      else (case loop_body jc (in_chunkList s) (in_totalBufferedBytes s) of
              (chunks, buffered, out) \<Rightarrow>
                (case out of
                   Breaks \<Rightarrow> (new_ingest, Breaks)
                 | Waits \<Rightarrow> (\<lparr>in_chunkList = chunks, in_totalBufferedBytes = buffered, in_processing = False\<rparr>, Waits)
                 | _ \<Rightarrow> (\<lparr>in_chunkList = chunks, in_totalBufferedBytes = buffered, in_processing = True\<rparr>, out))))"

definition arrive :: "ingest \<Rightarrow> buffer \<Rightarrow> ingest" where
  "arrive s chunk = \<lparr>in_chunkList = in_chunkList s @ [chunk],
     in_totalBufferedBytes = in_totalBufferedBytes s + int (length chunk), in_processing = True\<rparr>"

subsection \<open>Schedules\<close>

text \<open>A schedule interleaves the arrival of chunks with passes of the loop; the messages are collected in order.\<close>

datatype ingest_event = Arrives buffer | Iterates

definition messages_of :: "ingest_outcome \<Rightarrow> (json \<times> buffer) list" where
  "messages_of out = (case out of GotFrame v p \<Rightarrow> [(v, p)] | _ \<Rightarrow> [])"

fun ingest_step :: "json_codec \<Rightarrow> ingest_event \<Rightarrow> ingest \<times> (json \<times> buffer) list \<Rightarrow> ingest \<times> (json \<times> buffer) list" where
  "ingest_step jc (Arrives c) (s, got) = (arrive s c, got)"
| "ingest_step jc Iterates (s, got) = (case iterate jc s of (s', out) \<Rightarrow> (s', got @ messages_of out))"

definition run_ingest :: "json_codec \<Rightarrow> ingest_event list \<Rightarrow> ingest \<times> (json \<times> buffer) list" where
  "run_ingest jc evs = fold (ingest_step jc) evs (new_ingest, [])"

definition chunks_of :: "ingest_event list \<Rightarrow> buffer list" where
  "chunks_of evs = [c. Arrives c \<leftarrow> evs]"

end
