(* ===== verification/Stream_Theorems.thy ===== *)
theory Stream_Theorems
  imports Ipc_Stream
begin

text \<open>
  Properties of the receive loop: a stream of frames is received exactly, whatever the interleaving of arrivals and
  passes, provided no chunk is shorter than seven bytes; the two ways it breaks are proved as well.
\<close>

subsection \<open>What a pass does to the front of the queue\<close>

definition stream :: "json_codec \<Rightarrow> (json \<times> buffer) list \<Rightarrow> buffer" where
  "stream jc msgs = concat (map (\<lambda>(v, p). frame_bytes jc v p) msgs)"

lemma stream_simps [simp]:
  "stream jc [] = []" "stream jc ((v, p) # msgs) = frame_bytes jc v p @ stream jc msgs"
  by (simp_all add: stream_def)

definition ascii_codec :: "json_codec \<Rightarrow> bool" where
  "ascii_codec jc \<longleftrightarrow> (\<forall>b. list_all (\<lambda>w. unat w < 128) b \<longrightarrow> jc_decode jc b = map (\<lambda>w. char_of (unat w)) b)"

text \<open>The queue holds no empty chunk, and no chunk but the first is shorter than seven bytes.\<close>

definition queue_ok :: "buffer list \<Rightarrow> bool" where
  "queue_ok chunks \<longleftrightarrow> (case chunks of [] \<Rightarrow> True | c # cs \<Rightarrow> c \<noteq> [] \<and> list_all (\<lambda>x. 7 \<le> length x) cs)"

lemma queue_ok_merge: "queue_ok chunks \<Longrightarrow> chunks \<noteq> [] \<Longrightarrow> queue_ok [concat chunks]"
  by (cases chunks) (auto simp: queue_ok_def)

lemma queue_ok_snoc: "queue_ok chunks \<Longrightarrow> 7 \<le> length c \<Longrightarrow> queue_ok (chunks @ [c])"
  by (cases chunks) (auto simp: queue_ok_def)

lemma queue_first:
  assumes "queue_ok chunks" and "4 \<le> length (concat chunks)" and "length (concat chunks) < 8 \<or> 8 \<le> length (hd chunks)"
  shows "4 \<le> length (hd chunks)"
  using assms by (cases chunks; cases "tl chunks") (auto simp: queue_ok_def simp flip: length_greater_0_conv)

lemma arrived_prefix: "arrived jc v p (x @ y) \<Longrightarrow> arrived jc v p x"
proof -
  assume "arrived jc v p (x @ y)"
  then obtain k rest where "x @ y = take k (frame_bytes jc v p @ rest)" by (auto simp: arrived_def)
  then have "x = take (min (length x) k) (frame_bytes jc v p @ rest)" by (metis append_eq_conv_conj take_take)
  then show ?thesis by (auto simp: arrived_def)
qed

lemma arrived_hd: "arrived jc v p (concat chunks) \<Longrightarrow> chunks \<noteq> [] \<Longrightarrow> arrived jc v p (hd chunks)"
  by (cases chunks) (auto intro: arrived_prefix)

lemma arrived_stream: "b @ future = frame_bytes jc v p @ rest \<Longrightarrow> arrived jc v p b"
  unfolding arrived_def by (metis append_eq_conv_conj)

lemma short_prefix_no_newline:
  assumes "ascii_codec jc" and "arrived jc v p b" and "length b < 4"
  shows "before_newline (jc_decode jc b) = None"
proof -
  from assms(2) obtain k rest where b: "b = take k (frame_bytes jc v p @ rest)" by (auto simp: arrived_def)
  let ?m = "[0x53, 0x57, 0x52, 0x4d] :: buffer"
  have m: "u32be BINARY_FRAME_MAGIC = ?m" by (simp add: u32be_def BINARY_FRAME_MAGIC_def)
  have "b = take (length b) (?m @ drop 4 (frame_bytes jc v p @ rest))"
    unfolding b by (simp add: frame_bytes_def m min_def)
  also have "\<dots> = take (length b) ?m" using assms(3) by (simp only: take_append) simp
  finally have "b = take (length b) ?m" .
  then have sub: "set b \<subseteq> set ?m" by (metis set_take_subset)
  then have "list_all (\<lambda>w. unat w < 128) b" by (auto simp: list_all_iff)
  then have dec: "jc_decode jc b = map (\<lambda>w. char_of (unat w)) b" using assms(1) by (simp add: ascii_codec_def)
  have "(of_char (char_of (unat w) :: char) :: nat) \<noteq> 10" if "w \<in> set b" for w
    using sub that by (auto simp: of_char_of)
  then have "of_char c \<noteq> (10 :: nat)" if "c \<in> set (jc_decode jc b)" for c using that unfolding dec by auto
  from this [of "CHR 0x0A"] have "CHR 0x0A \<notin> set (jc_decode jc b)" by auto
  then show ?thesis by (simp add: before_newline_def)
qed

text \<open>The body of the loop on a queue that holds the beginning of a stream whose first frame is \<open>(v, p)\<close>.\<close>

lemma consume_frame:
  "consume b (int (length b)) (Some (of_nat n)) = (if n < length b then ([drop n b], int (length b) - int n) else ([], 0))"
  by (auto simp: consume_def Let_def js_subarray_nat subarray_def of_nat_less_iff)

lemma take_frame_result:
  assumes ok: "frame_ok jc v p" and arr: "arrived jc v p (concat chunks)" and ne: "chunks \<noteq> []"
    and len: "HEADER_SIZE + length (json_bytes jc v) \<le> length (concat chunks)"
  obtains chunks1 where "concat chunks1 = concat chunks" and "chunks1 = chunks \<or> chunks1 = [concat chunks]"
    and "take_frame jc chunks (int (length (concat chunks))) (length (json_bytes jc v)) =
      (if length (concat chunks) < length (frame_bytes jc v p) then (chunks1, int (length (concat chunks)), Waits)
       else (case consume (concat chunks) (int (length (concat chunks))) (Some (of_nat (length (frame_bytes jc v p)))) of
               (cs, n) \<Rightarrow> (cs, n, GotFrame v p)))"
proof -
  let ?b = "concat chunks" and ?j = "length (json_bytes jc v)" and ?n = "length (frame_bytes jc v p)"
  define chunks1 where "chunks1 = (if 8 + ?j \<le> length (hd chunks) then chunks else [?b])"
  have c1: "concat chunks1 = ?b" "chunks1 = chunks \<or> chunks1 = [?b]" by (simp_all add: chunks1_def)
  have "arrived jc v p (hd chunks1)" using arr ne by (auto simp: chunks1_def intro: arrived_hd)
  moreover have "8 + ?j \<le> length (hd chunks1)" using len by (simp add: chunks1_def HEADER_SIZE_def)
  ultimately have json: "jc_parse jc (jc_decode jc (subarray (hd chunks1) 8 (8 + ?j))) = Some v"
    using arrived_json [of jc v p "hd chunks1"] ok by (simp add: HEADER_SIZE_def frame_ok_def)
  have total: "js_add jc (8 + ?j) (the (nullish_or (declared_payload v) (Some (JNum 0)))) = Some (of_nat ?n)"
    using ok by (simp add: frame_ok_def length_frame_bytes HEADER_SIZE_def)
  have body: "js_subarray ?b (int (8 + ?j)) (int ?n) = p" if "?n \<le> length ?b"
    using that arrived_payload [OF arr that] by (subst js_subarray_nat) (simp_all add: length_frame_bytes HEADER_SIZE_def)
  have "take_frame jc chunks (int (length ?b)) ?j =
      (if length ?b < ?n then (chunks1, int (length ?b), Waits)
       else (case consume ?b (int (length ?b)) (Some (of_nat ?n)) of (cs, n) \<Rightarrow> (cs, n, GotFrame v p)))"
    unfolding take_frame_def chunks1_def [symmetric] Let_def json option.case total c1(1)
    using body by (simp add: not_less)
  then show thesis using c1 that by blast
qed

lemma int_bounds: "(4 \<le> int n) = (4 \<le> n)" "(8 \<le> int n) = (8 \<le> n)" "(int n < 8) = (n < 8)"
  by simp_all

lemma loop_body_frame:
  assumes ok: "frame_ok jc v p" and asc: "ascii_codec jc" and arr: "arrived jc v p (concat chunks)"
    and q: "queue_ok chunks"
  obtains (waits) chunks1 where "loop_body jc chunks (int (length (concat chunks))) = (chunks1, int (length (concat chunks)), Waits)"
      and "concat chunks1 = concat chunks" and "queue_ok chunks1" and "length (concat chunks) < length (frame_bytes jc v p)"
  | (frame) chunks1 where "length (frame_bytes jc v p) \<le> length (concat chunks)"
      and "loop_body jc chunks (int (length (concat chunks))) = (chunks1, int (length (concat chunks1)), GotFrame v p)"
      and "concat chunks1 = drop (length (frame_bytes jc v p)) (concat chunks)" and "queue_ok chunks1"
proof (cases "concat chunks = []")
  case True
  show thesis by (rule waits [of chunks]) (simp_all add: loop_body_def length_frame_bytes HEADER_SIZE_def True q)
next
  case False
  then have ne: "chunks \<noteq> []" by auto
  let ?b = "concat chunks"
  define c1 where "c1 = (if length (hd chunks) < 8 \<and> 8 \<le> length ?b then [?b] else chunks)"
  have c1: "concat c1 = ?b" "c1 \<noteq> []" using ne by (simp_all add: c1_def)
  have q1: "queue_ok c1" using q ne by (auto simp: c1_def intro: queue_ok_merge)
  have arr1: "arrived jc v p (hd c1)" using arr c1 by (metis arrived_hd)
  have body: "loop_body jc chunks (int (length ?b)) =
     (if 4 \<le> length ?b \<and> length (hd c1) < 4 then (c1, int (length ?b), Breaks)
      else if 4 \<le> length ?b \<and> read_u32be (hd c1) = BINARY_FRAME_MAGIC
      then (if length ?b < 8 then (c1, int (length ?b), Waits)
            else if int (length ?b) < 8 + int (read_u32be (drop 4 (hd c1))) then (c1, int (length ?b), Waits)
            else take_frame jc c1 (int (length ?b)) (read_u32be (drop 4 (hd c1))))
      else take_line jc c1 (int (length ?b)))"
  proof -
    have "int (length ?b) \<noteq> 0" using False by (metis length_0_conv of_nat_eq_0_iff)
    moreover have "(if length (hd chunks) < 8 \<and> 8 \<le> int (length ?b) then [?b] else chunks) = c1"
      by (simp add: c1_def)
    ultimately show ?thesis unfolding loop_body_def Let_def
      by (simp only: if_False int_bounds)
  qed
  show thesis
  proof (cases "length ?b < 4")
    case True
    then have "take_line jc c1 (int (length ?b)) = (c1, int (length ?b), Waits)"
      using short_prefix_no_newline [OF asc arr] by (simp add: take_line_def Let_def c1)
    then show thesis
      using True body q1 c1 by (intro waits [of c1]) (auto simp: length_frame_bytes HEADER_SIZE_def)
  next
    case four: False
    have "4 \<le> length (hd c1)"
      by (rule queue_first [OF q1]) (use four in \<open>auto simp: c1 c1_def\<close>)
    then have body4: "loop_body jc chunks (int (length ?b)) =
       (if length ?b < 8 then (c1, int (length ?b), Waits)
        else if int (length ?b) < 8 + int (read_u32be (drop 4 (hd c1))) then (c1, int (length ?b), Waits)
        else take_frame jc c1 (int (length ?b)) (read_u32be (drop 4 (hd c1))))"
      using body four arrived_magic [OF arr1] by simp
    show thesis
    proof (cases "length ?b < HEADER_SIZE + length (json_bytes jc v)")
      case True
      have "loop_body jc chunks (int (length ?b)) = (c1, int (length ?b), Waits)"
      proof (cases "length ?b < 8")
        case False
        then have "8 \<le> length (hd c1)" by (auto simp: c1_def)
        then show ?thesis using body4 True arrived_json_length [OF arr1 ok] by (simp add: HEADER_SIZE_def)
      qed (simp add: body4)
      then show thesis using True q1 c1 by (intro waits [of c1]) (auto simp: length_frame_bytes)
    next
      case False
      then have "8 \<le> length (hd c1)" by (auto simp: c1_def HEADER_SIZE_def)
      then have tf: "loop_body jc chunks (int (length ?b)) = take_frame jc c1 (int (length ?b)) (length (json_bytes jc v))"
        using body4 False arrived_json_length [OF arr1 ok] by (simp add: HEADER_SIZE_def)
      have "HEADER_SIZE + length (json_bytes jc v) \<le> length (concat c1)" using False c1 by simp
      then obtain c2 where c2: "concat c2 = ?b" "c2 = c1 \<or> c2 = [?b]"
        and res: "take_frame jc c1 (int (length ?b)) (length (json_bytes jc v)) =
          (if length ?b < length (frame_bytes jc v p) then (c2, int (length ?b), Waits)
           else (case consume ?b (int (length ?b)) (Some (of_nat (length (frame_bytes jc v p)))) of
                   (cs, n) \<Rightarrow> (cs, n, GotFrame v p)))"
        using take_frame_result [OF ok, of c1] arr c1 by metis
      have q2: "queue_ok c2" using c2(2) q1 False ne q by (auto intro: queue_ok_merge)
      show thesis
      proof (cases "length ?b < length (frame_bytes jc v p)")
        case True
        then show thesis using tf res c2 q2 by (intro waits [of c2]) auto
      next
        case len: False
        show thesis
          by (rule frame [of "if length (frame_bytes jc v p) < length ?b then [drop (length (frame_bytes jc v p)) ?b] else []"])
             (use len in \<open>auto simp: tf res consume_frame queue_ok_def\<close>)
      qed
    qed
  qed
qed

subsection \<open>Runs on a stream of frames\<close>

definition stream_inv :: "json_codec \<Rightarrow> (json \<times> buffer) list \<Rightarrow> buffer \<Rightarrow> nat \<Rightarrow> ingest \<times> (json \<times> buffer) list \<Rightarrow> bool" where
  "stream_inv jc msgs future k st \<longleftrightarrow> (case st of (s, got) \<Rightarrow>
     k \<le> length msgs \<and> got = take k msgs \<and> concat (in_chunkList s) @ future = stream jc (drop k msgs) \<and>
     in_totalBufferedBytes s = int (length (concat (in_chunkList s))) \<and> queue_ok (in_chunkList s) \<and>
     (in_processing s \<or> k = length msgs \<or>
        length (concat (in_chunkList s)) < length (case msgs ! k of (v, p) \<Rightarrow> frame_bytes jc v p)))"

lemma frame_bytes_not_Nil [simp]: "frame_bytes jc v p \<noteq> []"
  using length_frame_bytes [of jc v p] by (auto simp: HEADER_SIZE_def)

lemma chunks_of_simps [simp]:
  "chunks_of [] = []" "chunks_of (Arrives c # evs) = c # chunks_of evs" "chunks_of (Iterates # evs) = chunks_of evs"
  by (simp_all add: chunks_of_def)

lemma stream_inv_start: "stream_inv jc msgs (stream jc msgs) 0 (new_ingest, [])"
  by (cases msgs) (auto simp: stream_inv_def new_ingest_def queue_ok_def length_frame_bytes HEADER_SIZE_def)

lemma stream_inv_arrive:
  "stream_inv jc msgs (c @ future) k st \<Longrightarrow> 7 \<le> length c \<Longrightarrow> stream_inv jc msgs future k (ingest_step jc (Arrives c) st)"
  by (cases st) (auto simp: stream_inv_def arrive_def intro: queue_ok_snoc)

lemma drop_split: "k < length msgs \<Longrightarrow> drop k msgs = msgs ! k # drop (Suc k) msgs"
  by (simp add: Cons_nth_drop_Suc)

lemma loop_body_empty: "loop_body jc chunks 0 = (chunks, 0, Waits)"
  by (simp add: loop_body_def)

lemma stream_inv_iterate:
  assumes inv: "stream_inv jc msgs future k (s, got)" and asc: "ascii_codec jc"
    and ok: "list_all (\<lambda>(v, p). frame_ok jc v p) msgs"
  obtains (idle) "\<not> in_processing (fst (ingest_step jc Iterates (s, got)))"
      and "stream_inv jc msgs future k (ingest_step jc Iterates (s, got))"
  | (next_frame) "k < length msgs" and "stream_inv jc msgs future (Suc k) (ingest_step jc Iterates (s, got))"
proof (cases "in_processing s")
  case False
  then show thesis using inv by (intro idle) (simp_all add: iterate_def messages_of_def)
next
  case proc: True
  from inv have facts: "k \<le> length msgs" "got = take k msgs" "concat (in_chunkList s) @ future = stream jc (drop k msgs)"
      "in_totalBufferedBytes s = int (length (concat (in_chunkList s)))" "queue_ok (in_chunkList s)"
    by (simp_all add: stream_inv_def)
  show thesis
  proof (cases "k = length msgs")
    case True
    then have "concat (in_chunkList s) = []" using facts(3) by simp
    then have "in_totalBufferedBytes s = 0" using facts(4) by (simp only: list.size of_nat_0)
    then have "ingest_step jc Iterates (s, got) =
        (\<lparr>in_chunkList = in_chunkList s, in_totalBufferedBytes = 0, in_processing = False\<rparr>, got)"
      using proc by (simp add: iterate_def loop_body_empty messages_of_def)
    then show thesis using inv True \<open>in_totalBufferedBytes s = 0\<close> by (intro idle) (auto simp: stream_inv_def)
  next
    case False
    then have k: "k < length msgs" using facts(1) by simp
    obtain v p where vp: "msgs ! k = (v, p)" by fastforce
    have fok: "frame_ok jc v p" using ok k vp by (auto simp: list_all_length)
    have str: "concat (in_chunkList s) @ future = frame_bytes jc v p @ stream jc (drop (Suc k) msgs)"
      using facts(3) by (simp add: drop_split [OF k] vp)
    show thesis
    proof (cases rule: loop_body_frame [OF fok asc arrived_stream [OF str] facts(5)])
      case (1 cs)
      then have "ingest_step jc Iterates (s, got) = (\<lparr>in_chunkList = cs,
          in_totalBufferedBytes = int (length (concat (in_chunkList s))), in_processing = False\<rparr>, got)"
        using proc facts(4) by (simp add: iterate_def messages_of_def)
      then show thesis using 1 facts vp by (intro idle) (auto simp: stream_inv_def)
    next
      case (2 cs)
      have "ingest_step jc Iterates (s, got) = (\<lparr>in_chunkList = cs,
          in_totalBufferedBytes = int (length (concat cs)), in_processing = True\<rparr>, got @ [(v, p)])"
        using proc facts(4) 2 by (simp add: iterate_def messages_of_def)
      moreover have "concat cs @ future = stream jc (drop (Suc k) msgs)"
        using str 2(1,3) by (metis append_eq_append_conv_if append_eq_conv_conj)
      ultimately show thesis
        using 2 k facts vp by (intro next_frame) (simp_all add: stream_inv_def take_Suc_conv_app_nth)
    qed
  qed
qed

lemma stream_inv_run:
  assumes "ascii_codec jc" and "list_all (\<lambda>(v, p). frame_ok jc v p) msgs" and "list_all (\<lambda>c. 7 \<le> length c) (chunks_of evs)"
    and "stream_inv jc msgs (concat (chunks_of evs) @ future) k st"
  shows "\<exists>k'. stream_inv jc msgs future k' (fold (ingest_step jc) evs st)"
  using assms(3,4)
proof (induction evs arbitrary: st k)
  case (Cons ev evs)
  show ?case
  proof (cases ev)
    case (Arrives c)
    then show ?thesis using Cons.prems Cons.IH [OF _ stream_inv_arrive] by simp
  next
    case Iterates
    obtain s got where st: "st = (s, got)" by (cases st)
    have inv: "stream_inv jc msgs (concat (chunks_of evs) @ future) k (s, got)"
      using Cons.prems Iterates st by simp
    have "\<exists>k'. stream_inv jc msgs (concat (chunks_of evs) @ future) k' (ingest_step jc Iterates (s, got))"
      by (rule stream_inv_iterate [OF inv assms(1,2)]) blast+
    then obtain k' where "stream_inv jc msgs (concat (chunks_of evs) @ future) k' (ingest_step jc Iterates (s, got))" ..
    from Cons.IH [OF _ this] show ?thesis using Cons.prems(1) by (simp add: Iterates st del: ingest_step.simps)
  qed
qed auto

lemma stream_done:
  assumes "stream_inv jc msgs [] k (s, got)" and "\<not> in_processing s"
  shows "got = msgs \<and> in_totalBufferedBytes s = 0"
proof -
  have "k = length msgs"
  proof (rule ccontr)
    assume "k \<noteq> length msgs"
    with assms have k: "k < length msgs" by (simp add: stream_inv_def)
    obtain v p where vp: "msgs ! k = (v, p)" by fastforce
    have "concat (in_chunkList s) = frame_bytes jc v p @ stream jc (drop (Suc k) msgs)"
      using assms(1) vp by (simp add: stream_inv_def drop_split [OF k])
    then have "length (frame_bytes jc v p) \<le> length (concat (in_chunkList s))" by simp
    with assms k vp show False by (simp add: stream_inv_def)
  qed
  then show ?thesis using assms(1) by (simp add: stream_inv_def)
qed

lemma stream_drain:
  assumes "ascii_codec jc" and "list_all (\<lambda>(v, p). frame_ok jc v p) msgs" and "stream_inv jc msgs [] k st"
    and "length msgs - k \<le> n"
  shows "\<exists>k'. stream_inv jc msgs [] k' (fold (ingest_step jc) (replicate (Suc n) Iterates) st) \<and>
     \<not> in_processing (fst (fold (ingest_step jc) (replicate (Suc n) Iterates) st))"
  using assms(3,4)
proof (induction n arbitrary: k st)
  case 0
  obtain s got where st: "st = (s, got)" by (cases st)
  from 0 have "\<not> k < length msgs" by simp
  then show ?case
    using stream_inv_iterate [OF 0(1) [unfolded st] assms(1,2), where thesis = ?case]
    by (simp only: st replicate_0 replicate_Suc fold_simps) blast
next
  case (Suc n)
  obtain s got where st: "st = (s, got)" by (cases st)
  obtain s1 got1 where st1: "ingest_step jc Iterates st = (s1, got1)" by fastforce
  show ?case
  proof (rule stream_inv_iterate [OF Suc.prems(1) [unfolded st] assms(1,2)])
    assume idle: "\<not> in_processing (fst (ingest_step jc Iterates (s, got)))"
      and inv: "stream_inv jc msgs [] k (ingest_step jc Iterates (s, got))"
    have stay: "fold (ingest_step jc) (replicate m Iterates) (s1, got1) = (s1, got1)" for m
      using idle st st1 by (induction m) (simp_all add: iterate_def messages_of_def)
    have run: "fold (ingest_step jc) (replicate (Suc (Suc n)) Iterates) st =
        fold (ingest_step jc) (replicate (Suc n) Iterates) (s1, got1)"
      by (simp only: replicate_Suc [of "Suc n"] fold_simps st1)
    then show ?thesis unfolding run stay using idle inv st st1 by auto
  next
    assume k: "k < length msgs" and inv: "stream_inv jc msgs [] (Suc k) (ingest_step jc Iterates (s, got))"
    have "length msgs - Suc k \<le> n" using Suc.prems(2) by simp
    from Suc.IH [OF inv this] show ?thesis by (simp only: st replicate_Suc [of "Suc n"] fold_simps)
  qed
qed

subsection \<open>Properties\<close>

lemma demo_ascii: "ascii_codec demo_codec"
  by (simp add: ascii_codec_def demo_codec_def)

lemma demo_frame_ok: "frame_ok demo_codec (JObj [(''totalPayloadBytes'', JNum 2)]) [5, 6]"
  using encoded_frame_ok(1) [OF demo_frame(1)] by (simp add: demo_frame)

lemma demo_frame_bytes:
  "frame_bytes demo_codec v p = [0x53, 0x57, 0x52, 0x4d, 0, 0, 0, 1, 0x6d] @ p"
  by (simp add: frame_bytes_def demo_frame u32be_def BINARY_FRAME_MAGIC_def)

text \<open>C9. The receive loop ends and is exact: when all the chunks of a stream of frames have arrived, in any cut with
  chunks of at least seven bytes and in any interleaving with passes of the loop, one pass more than there are frames
  leaves the loop idle with an empty buffer, and the messages received are exactly the frames, in order.\<close>

theorem stream_received:
  assumes "ascii_codec jc" and "list_all (\<lambda>(v, p). frame_ok jc v p) msgs"
    and "list_all (\<lambda>c. 7 \<le> length c) (chunks_of evs)" and "concat (chunks_of evs) = stream jc msgs"
  shows "run_ingest jc (evs @ replicate (Suc (length msgs)) Iterates) =
     (fst (run_ingest jc (evs @ replicate (Suc (length msgs)) Iterates)), msgs) \<and>
     in_totalBufferedBytes (fst (run_ingest jc (evs @ replicate (Suc (length msgs)) Iterates))) = 0 \<and>
     \<not> in_processing (fst (run_ingest jc (evs @ replicate (Suc (length msgs)) Iterates)))"
proof -
  have "stream_inv jc msgs (concat (chunks_of evs) @ []) 0 (new_ingest, [])"
    using stream_inv_start assms(4) by simp
  then obtain k where k: "stream_inv jc msgs [] k (fold (ingest_step jc) evs (new_ingest, []))"
    using stream_inv_run [OF assms(1-3), of "[]"] by blast
  define st where "st = run_ingest jc (evs @ replicate (Suc (length msgs)) Iterates)"
  have "\<exists>k'. stream_inv jc msgs [] k' st \<and> \<not> in_processing (fst st)"
    unfolding st_def run_ingest_def fold_append comp_apply by (rule stream_drain [OF assms(1,2) k]) simp
  then have "snd st = msgs \<and> in_totalBufferedBytes (fst st) = 0 \<and> \<not> in_processing (fst st)"
    using stream_done by (cases st) auto
  then show ?thesis unfolding st_def [symmetric] by (metis prod.collapse)
qed

theorem stream_received_witness:
  "snd (run_ingest demo_codec ([Arrives [0x53, 0x57, 0x52, 0x4d, 0, 0, 0, 1, 0x6d, 5, 6, 0x53], Iterates,
      Arrives [0x57, 0x52, 0x4d, 0, 0, 0, 1, 0x6d, 5, 6]] @ replicate 3 Iterates)) =
     [(JObj [(''totalPayloadBytes'', JNum 2)], [5, 6]), (JObj [(''totalPayloadBytes'', JNum 2)], [5, 6])]"
proof -
  let ?m = "(JObj [(''totalPayloadBytes'', JNum 2)], [5, 6] :: buffer)"
  let ?evs = "[Arrives [0x53, 0x57, 0x52, 0x4d, 0, 0, 0, 1, 0x6d, 5, 6, 0x53], Iterates,
      Arrives [0x57, 0x52, 0x4d, 0, 0, 0, 1, 0x6d, 5, 6]]"
  have "run_ingest demo_codec (?evs @ replicate (Suc (length [?m, ?m])) Iterates) =
      (fst (run_ingest demo_codec (?evs @ replicate (Suc (length [?m, ?m])) Iterates)), [?m, ?m])"
    by (rule conjunct1 [OF stream_received [OF demo_ascii]]) (simp_all add: demo_frame_ok demo_frame_bytes)
  then have "snd (run_ingest demo_codec (?evs @ replicate (Suc (length [?m, ?m])) Iterates)) = [?m, ?m]" by (rule ssubst) simp
  then show ?thesis by (simp add: numeral_3_eq_3)
qed

text \<open>C34. A short first chunk loses data: whenever a frame is cut so that one to three of its bytes arrive first and
  the buffer then holds four to seven bytes, the read of the magic number throws, everything buffered is discarded
  and no message is received; seven bytes in the previous property is the smallest bound that excludes this.\<close>

theorem split_header_lost:
  assumes "ascii_codec jc" and "0 < a" "a < 4" "4 \<le> a + b" "a + b < 8"
  shows "run_ingest jc [Arrives (take a (frame_bytes jc v p)), Iterates,
     Arrives (take b (drop a (frame_bytes jc v p))), Iterates] = (new_ingest, [])"
proof -
  let ?f = "frame_bytes jc v p"
  have len: "length (take a ?f) = a" "length (take b (drop a ?f)) = b"
    using assms by (simp_all add: length_frame_bytes HEADER_SIZE_def)
  have "arrived jc v p (take a ?f)" unfolding arrived_def by (metis append_Nil2)
  then have "before_newline (jc_decode jc (take a ?f)) = None"
    using short_prefix_no_newline assms len by metis
  then have first: "loop_body jc [take a ?f] (int a) = ([take a ?f], int a, Waits)"
    using assms len by (simp add: loop_body_def take_line_def Let_def)
  have second: "loop_body jc [take a ?f, take b (drop a ?f)] (int a + int b) =
      ([take a ?f, take b (drop a ?f)], int a + int b, Breaks)"
    using assms len by (simp add: loop_body_def Let_def)
  have step1: "iterate jc (arrive new_ingest (take a ?f)) =
      (\<lparr>in_chunkList = [take a ?f], in_totalBufferedBytes = int a, in_processing = False\<rparr>, Waits)"
    unfolding iterate_def arrive_def new_ingest_def by (simp add: len first del: take_append length_take)
  show ?thesis
    unfolding run_ingest_def
    by (simp add: step1 messages_of_def del: length_take)
      (simp add: iterate_def arrive_def messages_of_def len second del: length_take)
qed

theorem split_header_lost_witness:
  "run_ingest demo_codec [Arrives [0x53], Iterates, Arrives [0x57, 0x52, 0x4d, 0, 0, 0], Iterates] = (new_ingest, [])"
  using split_header_lost [OF demo_ascii, of 1 6 "JObj []" "[]"] by (simp add: demo_frame_bytes)

text \<open>A negative declared length never ends: a frame that declares minus its own header size as payload length is
  handed to the handler again on every pass, since no byte of it is consumed.\<close>

theorem negative_length_repeats:
  assumes "jc_parse jc (jc_decode jc (json_bytes jc v)) = Some v" and "length (json_bytes jc v) < 4294967296"
    and "declared_payload v = Some (JNum (- of_nat (8 + length (json_bytes jc v))))"
  shows "snd (run_ingest jc (Arrives (frame_bytes jc v []) # replicate n Iterates)) = replicate n (v, [])"
proof -
  let ?f = "frame_bytes jc v []" and ?j = "length (json_bytes jc v)"
  have len: "length ?f = 8 + ?j" by (simp add: length_frame_bytes HEADER_SIZE_def)
  have arr: "arrived jc v [] ?f" unfolding arrived_def by (metis append_Nil2 take_all_iff order_refl)
  have hdr: "read_u32be ?f = BINARY_FRAME_MAGIC" "read_u32be (drop 4 ?f) = ?j"
    using frame_magic [of "length ?f" jc v "[]" "[]"] frame_json_length [of "length ?f" jc v "[]" "[]"] assms(2) len by simp_all
  have json: "drop 8 ?f = json_bytes jc v" by (simp add: frame_bytes_def)
  have zero: "to_index (Some 0) = 0" by (simp add: to_index_def)
  have "js_add jc (8 + ?j) (the (nullish_or (declared_payload v) (Some (JNum 0)))) = Some 0"
    unfolding assms(3) by simp
  then have "take_frame jc [?f] (int (length ?f)) ?j = ([?f], int (length ?f), GotFrame v [])"
    using assms(1) len json
    by (simp add: take_frame_def Let_def subarray_def consume_def zero js_subarray_def js_index_def)
  then have body: "loop_body jc [?f] (int (length ?f)) = ([?f], int (length ?f), GotFrame v [])"
    by (simp add: loop_body_def Let_def len hdr)
  let ?s = "\<lparr>in_chunkList = [?f], in_totalBufferedBytes = int (length ?f), in_processing = True\<rparr>"
  have "fold (ingest_step jc) (replicate n Iterates) (?s, got) = (?s, got @ replicate n (v, []))" for got
  proof (induction n arbitrary: got)
    case (Suc n)
    have "ingest_step jc Iterates (?s, got) = (?s, got @ [(v, [])])"
      using body by (simp add: iterate_def messages_of_def)
    then show ?case using Suc.IH [of "got @ [(v, [])]"] by simp
  qed simp
  then show ?thesis by (simp add: run_ingest_def arrive_def new_ingest_def)
qed

definition negative_codec :: json_codec where
  "negative_codec = demo_codec\<lparr>jc_parse := (\<lambda>s. Some (JObj [(''totalPayloadBytes'', JNum (-9))]))\<rparr>"

theorem negative_length_repeats_witness:
  "snd (run_ingest negative_codec (Arrives [0x53, 0x57, 0x52, 0x4d, 0, 0, 0, 1, 0x6d] # replicate 3 Iterates)) =
     replicate 3 (JObj [(''totalPayloadBytes'', JNum (-9))], [])"
proof -
  have j: "json_bytes negative_codec v = [0x6d]" for v
    using demo_frame(2) [of v] by (simp add: json_bytes_def negative_codec_def)
  then have f: "frame_bytes negative_codec v [] = [0x53, 0x57, 0x52, 0x4d, 0, 0, 0, 1, 0x6d]" for v
    by (simp add: frame_bytes_def u32be_def BINARY_FRAME_MAGIC_def)
  show ?thesis
    using negative_length_repeats [of negative_codec "JObj [(''totalPayloadBytes'', JNum (-9))]" 3]
    by (simp add: f j) (simp add: negative_codec_def declared_payload_def total_at_def)
qed

end
