(* ===== verification/Transport_Server.thy ===== *)
theory Transport_Server
  imports Pairing_Service Worker_Manager Workload_Pipeline
begin

text \<open>
  \<open>TransportServer\<close> of \<^verbatim>\<open>core/src/transport_server.ts\<close>: it connects the sockets of the workers with the pairing
  service, the worker manager, the task store and the workload pipeline.  Sockets are objects that the map
  \<open>workerSockets\<close> and the handlers share, so they live in a heap; \<open>close()\<close> on one makes its \<open>close\<close> event a later
  step.  What \<open>JSON.parse\<close> makes of a decrypted text and what \<open>JSON.stringify\<close> makes of a reply, the \<open>crypto\<close>
  functions and the fresh keys and identifiers are parameters.  A message carries the fields that its type declares.
  Log output, the HTTP server, mDNS and the timers themselves are not modelled.
\<close>

subsection \<open>Data\<close>

record socket =
  so_open :: bool
  so_workerDeviceId :: "string option"
  so_remoteAddress :: string

record discovered_worker =
  dw_deviceId :: string
  dw_deviceName :: string
  dw_host :: string
  dw_port :: int
  dw_lastSeenMs :: ms
  dw_capabilityProfile :: "capability_profile option"

datatype worker_message =
    DISCOVERY_BEACON string string "string option" "int option" "capability_profile option"
  | PAIRING_INIT string string string string
  | PAIRING_CONFIRM confirmation "capability_profile option"
  | PAIRING_REJECT string "string option"
  | ENCRYPTED_TELEMETRY "string option" encrypted_envelope
  | TASK_STAGE "string option" "execution_stage option" "stage_details option" string
  | TASK_RESULT "string option" encrypted_envelope string
  | REVOKE_TRUST string
  | OtherMessage string

record worker_result =
  wr_taskId :: "string option"
  wr_outputData :: payload
  wr_executionTimeMs :: "int option"
  wr_attemptNumber :: "int option"
  wr_itemCount :: "int option"
  wr_workerHostname :: "string option"
  wr_workerPid :: "int option"

datatype transport_error =
    PairingFailed pairing_error
  | ManagerFailed manager_error
  | ResultFailed handle_error
  | BadPayload

datatype outgoing =
    PairingRequest string string string
  | ExecuteTask string encrypted_envelope
  | DiscoveryAck
  | PairingSasReady string string string
  | PairingSuccess string string
  | PairingRejected string string
  | TelemetryAck encrypted_envelope
  | TaskStageAck string
  | TaskResultAck string bool
  | ErrorReply transport_error
  | UnhandledReply string

text \<open>What \<open>setImmediate\<close> defers.  \<open>tr_calls\<close> records the completion listeners that the results called.\<close>

datatype immediate = StartPairing string | MarkReady string

record transport =
  tr_port :: int
  tr_pairing :: pairing_service
  tr_workers :: worker_manager
  tr_pipeline :: workload_pipeline
  tr_discovered :: "(string, discovered_worker) jsmap"
  tr_workerSockets :: "(string, nat) jsmap"
  tr_sockets :: "socket list"
  tr_sent :: "(nat \<times> outgoing) list"
  tr_immediates :: "immediate list"
  tr_calls :: calls

record transport_env =
  te_environment :: environment
  te_crypto :: crypto_env
  te_validators :: validator_env
  te_parse_telemetry :: "buffer \<Rightarrow> worker_telemetry option"
  te_parse_result :: "buffer \<Rightarrow> worker_result option"
  te_ack :: "ms \<Rightarrow> bool \<Rightarrow> buffer"
  te_task :: "string \<Rightarrow> nat \<Rightarrow> string \<Rightarrow> string \<Rightarrow> string \<Rightarrow> int \<Rightarrow> buffer"

text \<open>The values that are drawn afresh while one event is handled.\<close>

record fresh_values =
  fv_now :: ms
  fv_uuid :: string
  fv_ivSalt :: buffer
  fv_privateKey :: buffer
  fv_publicKeyDer :: buffer

abbreviation tr_store :: "transport \<Rightarrow> task_store" where
  "tr_store t \<equiv> wp_taskStore (tr_pipeline t)"

definition set_store :: "transport \<Rightarrow> task_store \<Rightarrow> transport" where
  "set_store t s = t\<lparr>tr_pipeline := (tr_pipeline t)\<lparr>wp_taskStore := s\<rparr>\<rparr>"

subsection \<open>Sockets\<close>

definition update_socket :: "transport \<Rightarrow> nat \<Rightarrow> (socket \<Rightarrow> socket) \<Rightarrow> transport" where
  "update_socket t ws f = t\<lparr>tr_sockets := (tr_sockets t)[ws := f (tr_sockets t ! ws)]\<rparr>"

definition close_socket :: "transport \<Rightarrow> nat \<Rightarrow> transport" where
  "close_socket t ws = update_socket t ws (so_open_update (\<lambda>_. False))"

definition set_device :: "transport \<Rightarrow> nat \<Rightarrow> string \<Rightarrow> transport" where
  "set_device t ws d = update_socket t ws (so_workerDeviceId_update (\<lambda>_. Some d))"

definition is_open :: "transport \<Rightarrow> nat \<Rightarrow> bool" where
  "is_open t ws \<longleftrightarrow> so_open (tr_sockets t ! ws)"

text \<open>\<open>ws.send\<close> on a socket that is closing or closed drops the message.\<close>

definition send_to :: "transport \<Rightarrow> nat \<Rightarrow> outgoing \<Rightarrow> transport" where
  "send_to t ws m = (if is_open t ws then t\<lparr>tr_sent := tr_sent t @ [(ws, m)]\<rparr> else t)"

definition open_socket_of :: "transport \<Rightarrow> string \<Rightarrow> nat option" where
  "open_socket_of t deviceId =
     (case jget (tr_workerSockets t) deviceId of Some ws \<Rightarrow> if is_open t ws then Some ws else None | None \<Rightarrow> None)"

subsection \<open>Discovery\<close>

definition addDiscoveredWorker :: "transport \<Rightarrow> ms \<Rightarrow> discovered_worker \<Rightarrow> transport" where
  "addDiscoveredWorker t now worker =
     t\<lparr>tr_discovered := jset (tr_discovered t) (dw_deviceId worker) (worker\<lparr>dw_lastSeenMs := now\<rparr>)\<rparr>"

definition getDiscoveredWorkers :: "transport \<Rightarrow> ms \<Rightarrow> transport \<times> discovered_worker list" where
  "getDiscoveredWorkers t now =
     (let live = filter (\<lambda>(_, w). \<not> now - dw_lastSeenMs w > 30000) (tr_discovered t);
          connectedIds = set (map ws_deviceId (listWorkers (tr_workers t)))
      in (t\<lparr>tr_discovered := live\<rparr>, filter (\<lambda>d. dw_deviceId d \<notin> connectedIds) (jvalues live)))"

subsection \<open>Sending\<close>

definition sendPairingRequest :: "transport \<Rightarrow> string \<Rightarrow> string \<times> string \<times> string \<Rightarrow> transport \<times> bool" where
  "sendPairingRequest t workerDeviceId initiation =
     (case initiation of (hostDeviceId, hostPublicKeyHex, initiationId) \<Rightarrow>
        case open_socket_of t workerDeviceId of
          None \<Rightarrow> (t, False)
        | Some ws \<Rightarrow> (send_to t ws (PairingRequest initiationId hostDeviceId hostPublicKeyHex), True))"

text \<open>The details of a stage report that names a task only.\<close>

definition task_details :: "string \<Rightarrow> stage_details" where
  "task_details i = \<lparr>sd_currentTaskId = Some i, sd_currentChunkIndex = None, sd_totalChunks = None,
     sd_startFrameIndex = None, sd_frameCount = None, sd_executionTimeMs = None, sd_lastCompletedTaskId = None,
     sd_pipelineStages = None\<rparr>"

definition sendExecuteTask ::
  "transport_env \<Rightarrow> transport \<Rightarrow> ms \<Rightarrow> string \<Rightarrow> task \<Rightarrow> string option \<Rightarrow> int option \<Rightarrow> transport \<times> (transport_error + bool)" where
  "sendExecuteTask te t now workerDeviceId task inputData itemCount =
     (case open_socket_of t workerDeviceId of
        None \<Rightarrow> (t, Inr False)
      | Some ws \<Rightarrow>
          let taskPayload = te_task te (t_id task) (t_retryCount task + 1) (t_computationDescriptor task) (t_inputRef task)
                (str_or inputData (t_inputRef task))
                (case num_or_undef itemCount of None \<Rightarrow> 1 | Some n \<Rightarrow> n)
          in (case encryptEnvelope (te_crypto te) (tr_pairing t) workerDeviceId taskPayload of
                (ps, Inl e) \<Rightarrow> (t\<lparr>tr_pairing := ps\<rparr>, Inl (PairingFailed e))
              | (ps, Inr envelope) \<Rightarrow>
                  let t1 = t\<lparr>tr_pairing := ps,
                         tr_workers := fst (updateWorkerStage (tr_workers t) now workerDeviceId Stage_FETCHING
                                              (Some (task_details (t_id task))))\<rparr>
                  in (send_to t1 ws (ExecuteTask (t_id task) envelope), Inr True)))"

subsection \<open>Messages of the workers\<close>

text \<open>\<open>msg.deviceId || msg.workerDeviceId\<close>.\<close>

fun msg_sender :: "worker_message \<Rightarrow> string option" where
  "msg_sender (DISCOVERY_BEACON d _ _ _ _) = or_undef (Some d)"
| "msg_sender (PAIRING_INIT _ d _ _) = or_undef (Some d)"
| "msg_sender (PAIRING_CONFIRM c _) = or_undef (Some (co_workerDeviceId c))"
| "msg_sender (PAIRING_REJECT d _) = or_undef (Some d)"
| "msg_sender (ENCRYPTED_TELEMETRY d _) = or_undef d"
| "msg_sender (TASK_STAGE d _ _ _) = or_undef d"
| "msg_sender (TASK_RESULT d _ _) = or_undef d"
| "msg_sender (REVOKE_TRUST d) = or_undef (Some d)"
| "msg_sender (OtherMessage _) = None"

definition or_else :: "'a option \<Rightarrow> 'a option \<Rightarrow> 'a option" where
  "or_else x y = (case x of None \<Rightarrow> y | Some v \<Rightarrow> Some v)"

definition socket_device :: "transport \<Rightarrow> nat \<Rightarrow> string option" where
  "socket_device t ws = or_undef (so_workerDeviceId (tr_sockets t ! ws))"

definition is_loopback :: "string \<Rightarrow> bool" where
  "is_loopback a \<longleftrightarrow> a \<in> {''127.0.0.1'', ''::1'', ''::ffff:127.0.0.1'', ''localhost''}"

definition handle_beacon ::
  "transport \<Rightarrow> ms \<Rightarrow> nat \<Rightarrow> string \<Rightarrow> string \<Rightarrow> string option \<Rightarrow> int option \<Rightarrow> capability_profile option \<Rightarrow> transport" where
  "handle_beacon t now ws deviceId deviceName host port profile =
     (let t1 = addDiscoveredWorker t now
            \<lparr>dw_deviceId = deviceId, dw_deviceName = deviceName, dw_host = str_or host ''127.0.0.1'',
             dw_port = (case num_or_undef port of None \<Rightarrow> tr_port t | Some p \<Rightarrow> p), dw_lastSeenMs = now,
             dw_capabilityProfile = profile\<rparr>
      in if is_loopback (str_or (Some (so_remoteAddress (tr_sockets t ! ws))) ''127.0.0.1'') \<and>
            getWorker (tr_workers t1) deviceId = None
         then t1\<lparr>tr_immediates := tr_immediates t1 @ [StartPairing deviceId]\<rparr>
         else t1)"

definition handle_confirm ::
  "transport_env \<Rightarrow> transport \<Rightarrow> fresh_values \<Rightarrow> nat \<Rightarrow> confirmation \<Rightarrow> capability_profile option \<Rightarrow>
   transport \<times> (transport_error + outgoing option)" where
  "handle_confirm te t fv ws c profile =
     (case confirmPairing (te_crypto te) (tr_pairing t) (fv_now fv) c (fv_uuid fv) (fv_ivSalt fv) of
        (ps, Inl e) \<Rightarrow> (t\<lparr>tr_pairing := ps\<rparr>, Inl (PairingFailed e))
      | (ps, Inr session) \<Rightarrow>
          let t1 = t\<lparr>tr_pairing := ps\<rparr>;
              finish = (\<lambda>t2.
                ((case or_undef (Some (co_workerDeviceId c)) of
                    None \<Rightarrow> t2
                  | Some d \<Rightarrow> t2\<lparr>tr_workerSockets := jset (tr_workerSockets t2) d ws\<rparr>),
                 Inr (Some (PairingSuccess (se_sessionId session) (co_workerDeviceId c)))))
          in (case profile of
                None \<Rightarrow> finish t1
              | Some p \<Rightarrow>
                  (case registerWorker (tr_workers t1) (fv_now fv) p of
                     Inl e \<Rightarrow> (t1, Inl (ManagerFailed e))
                   | Inr (m, _) \<Rightarrow> finish (t1\<lparr>tr_workers := m\<rparr>))))"

definition handle_telemetry ::
  "transport_env \<Rightarrow> transport \<Rightarrow> ms \<Rightarrow> nat \<Rightarrow> encrypted_envelope \<Rightarrow> transport \<times> (transport_error + outgoing option)" where
  "handle_telemetry te t now ws envelope =
     (case decryptEnvelope (te_crypto te) (tr_pairing t) envelope of
        (ps, Inl e) \<Rightarrow> (t\<lparr>tr_pairing := ps\<rparr>, Inl (PairingFailed e))
      | (ps, Inr bytes) \<Rightarrow>
          let t1 = t\<lparr>tr_pairing := ps\<rparr>
          in (case te_parse_telemetry te bytes of
                None \<Rightarrow> (t1, Inl BadPayload)
              | Some telemetry \<Rightarrow>
                  let devId = tm_deviceId telemetry;
                      t2 = (if devId = [] then t1
                            else (set_device t1 ws devId)\<lparr>tr_workerSockets := jset (tr_workerSockets t1) devId ws\<rparr>)
                  in (case updateTelemetry (te_environment te) (tr_workers t2) now telemetry of
                        Inl e \<Rightarrow> (t2, Inl (ManagerFailed e))
                      | Inr (m, worker) \<Rightarrow>
                          let t3 = set_store (t2\<lparr>tr_workers := m\<rparr>)
                                (fst (renewWorkerLeases (tr_store t2) devId DEFAULT_LEASE_DURATION_MS now))
                          in (case encryptEnvelope (te_crypto te) (tr_pairing t3) (en_sessionId envelope)
                                    (te_ack te now (ws_isEligible worker)) of
                                (ps', Inl e) \<Rightarrow> (t3\<lparr>tr_pairing := ps'\<rparr>, Inl (PairingFailed e))
                              | (ps', Inr ack) \<Rightarrow> (t3\<lparr>tr_pairing := ps'\<rparr>, Inr (Some (TelemetryAck ack)))))))"

text \<open>The task that a result is about, and the report of its completion to the worker manager.\<close>

definition result_task :: "worker_result \<Rightarrow> string \<Rightarrow> string" where
  "result_task r taskId = str_or (wr_taskId r) taskId"

definition completed_details :: "string \<Rightarrow> int option \<Rightarrow> stage_details" where
  "completed_details i ms = (task_details i)\<lparr>sd_currentTaskId := None, sd_lastCompletedTaskId := Some i, sd_executionTimeMs := ms\<rparr>"

definition report_completed :: "transport \<Rightarrow> ms \<Rightarrow> string option \<Rightarrow> worker_result \<Rightarrow> string \<Rightarrow> transport" where
  "report_completed t now target r taskId =
     (case target of
        None \<Rightarrow> t
      | Some w \<Rightarrow>
          t\<lparr>tr_workers := fst (updateWorkerStage (tr_workers t) now w Stage_COMPLETED
              (Some (completed_details (result_task r taskId) (wr_executionTimeMs r)))),
            tr_immediates := tr_immediates t @ [MarkReady w]\<rparr>)"

text \<open>A worker id that is \<open>undefined\<close> is the text of that name.\<close>

definition result_payload :: "worker_result \<Rightarrow> string \<Rightarrow> string option \<Rightarrow> task_result_payload" where
  "result_payload r taskId target =
     \<lparr>rp_taskId = result_task r taskId, rp_workerId = (case target of None \<Rightarrow> ''undefined'' | Some w \<Rightarrow> w),
      rp_outputData = wr_outputData r,
      rp_executionTimeMs = (case wr_executionTimeMs r of None \<Rightarrow> 0 | Some ms \<Rightarrow> ms),
      rp_attemptNumber = wr_attemptNumber r, rp_itemCount = wr_itemCount r,
      rp_workerHostname = wr_workerHostname r, rp_workerPid = wr_workerPid r\<rparr>"

definition handle_result ::
  "transport_env \<Rightarrow> transport \<Rightarrow> ms \<Rightarrow> nat \<Rightarrow> string option \<Rightarrow> encrypted_envelope \<Rightarrow> string \<Rightarrow>
   transport \<times> (transport_error + outgoing option)" where
  "handle_result te t now ws workerDeviceId envelope taskId =
     (case decryptEnvelope (te_crypto te) (tr_pairing t) envelope of
        (ps, Inl e) \<Rightarrow> (t\<lparr>tr_pairing := ps\<rparr>, Inl (PairingFailed e))
      | (ps, Inr bytes) \<Rightarrow>
          let t1 = t\<lparr>tr_pairing := ps\<rparr>
          in (case te_parse_result te bytes of
                None \<Rightarrow> (t1, Inl BadPayload)
              | Some r \<Rightarrow>
                  let target = or_else (or_undef workerDeviceId) (socket_device t1 ws);
                      t2 = report_completed t1 now target r taskId
                  in (case handleTaskResult (te_validators te) (tr_pipeline t2) now (result_payload r taskId target) of
                        Inl e \<Rightarrow> (t2, Inl (ResultFailed e))
                      | Inr (p, processing, calls) \<Rightarrow>
                          (t2\<lparr>tr_pipeline := p, tr_calls := tr_calls t2 @ calls\<rparr>, Inr (Some (TaskResultAck taskId (pr_success processing)))))))"

text \<open>What is left of a worker whose trust is revoked, whose socket closed or whose heartbeat stopped.\<close>

definition drop_worker :: "transport \<Rightarrow> ms \<Rightarrow> string \<Rightarrow> transport" where
  "drop_worker t now deviceId =
     set_store (t\<lparr>tr_workers := fst (unregisterWorker (tr_workers t) deviceId)\<rparr>)
       (fst (recoverWorkerLoss (tr_store t) now deviceId DEFAULT_MAX_RETRIES))"

fun handleWorkerMessage ::
  "transport_env \<Rightarrow> transport \<Rightarrow> fresh_values \<Rightarrow> nat \<Rightarrow> worker_message \<Rightarrow>
   transport \<times> (transport_error + outgoing option)" where
  "handleWorkerMessage te t fv ws (DISCOVERY_BEACON deviceId deviceName host port profile) =
     (handle_beacon t (fv_now fv) ws deviceId deviceName host port profile, Inr (Some DiscoveryAck))"
| "handleWorkerMessage te t fv ws (PAIRING_INIT initiationId workerDeviceId workerPublicKeyHex workerSaltHex) =
     (case processWorkerHandshake (te_crypto te) (tr_pairing t) (fv_now fv) initiationId workerDeviceId workerPublicKeyHex
             workerSaltHex of
        Inl e \<Rightarrow> (t, Inl (PairingFailed e))
      | Inr (ps, code) \<Rightarrow> (t\<lparr>tr_pairing := ps\<rparr>, Inr (Some (PairingSasReady initiationId workerDeviceId code))))"
| "handleWorkerMessage te t fv ws (PAIRING_CONFIRM c profile) = handle_confirm te t fv ws c profile"
| "handleWorkerMessage te t fv ws (PAIRING_REJECT workerDeviceId reason) =
     (t, Inr (Some (PairingRejected workerDeviceId (str_or reason ''USER_REJECTED''))))"
| "handleWorkerMessage te t fv ws (ENCRYPTED_TELEMETRY d envelope) = handle_telemetry te t (fv_now fv) ws envelope"
| "handleWorkerMessage te t fv ws (TASK_STAGE workerDeviceId stage details taskId) =
     ((case (or_else (or_undef workerDeviceId) (socket_device t ws), stage) of
         (Some w, Some st) \<Rightarrow> t\<lparr>tr_workers := fst (updateWorkerStage (tr_workers t) (fv_now fv) w st details)\<rparr>
       | _ \<Rightarrow> t),
      Inr (Some (TaskStageAck taskId)))"
| "handleWorkerMessage te t fv ws (TASK_RESULT workerDeviceId envelope taskId) =
     handle_result te t (fv_now fv) ws workerDeviceId envelope taskId"
| "handleWorkerMessage te t fv ws (REVOKE_TRUST deviceId) =
     (close_socket (drop_worker (t\<lparr>tr_pairing := fst (revokeWorker (tr_pairing t) deviceId)\<rparr>) (fv_now fv) deviceId) ws,
      Inr None)"
| "handleWorkerMessage te t fv ws (OtherMessage type) = (t, Inr (Some (UnhandledReply type)))"

subsection \<open>Events\<close>

text \<open>The sender of a message takes over the device's entry in \<open>workerSockets\<close>; another socket that held it is closed.\<close>

definition bind_sender :: "transport \<Rightarrow> nat \<Rightarrow> worker_message \<Rightarrow> transport" where
  "bind_sender t ws msg =
     (case or_else (msg_sender msg) (socket_device t ws) of
        None \<Rightarrow> t
      | Some devId \<Rightarrow>
          let t1 = (case jget (tr_workerSockets t) devId of
                      Some old \<Rightarrow> if old = ws then t else close_socket t old
                    | None \<Rightarrow> t)
          in (set_device t1 ws devId)\<lparr>tr_workerSockets := jset (tr_workerSockets t1) devId ws\<rparr>)"

definition on_message :: "transport_env \<Rightarrow> transport \<Rightarrow> fresh_values \<Rightarrow> nat \<Rightarrow> worker_message \<Rightarrow> transport" where
  "on_message te t fv ws msg =
     (case handleWorkerMessage te (bind_sender t ws msg) fv ws msg of
        (t', Inl e) \<Rightarrow> send_to t' ws (ErrorReply e)
      | (t', Inr None) \<Rightarrow> t'
      | (t', Inr (Some reply)) \<Rightarrow> send_to t' ws reply)"

definition on_connection :: "transport \<Rightarrow> string \<Rightarrow> transport" where
  "on_connection t remoteAddress =
     t\<lparr>tr_sockets := tr_sockets t @ [\<lparr>so_open = True, so_workerDeviceId = None, so_remoteAddress = remoteAddress\<rparr>]\<rparr>"

text \<open>The \<open>close\<close> event of a socket.\<close>

definition on_close :: "transport \<Rightarrow> ms \<Rightarrow> nat \<Rightarrow> transport" where
  "on_close t now ws =
     (let t0 = close_socket t ws
      in case socket_device t0 ws of
           None \<Rightarrow> t0
         | Some devId \<Rightarrow>
             let t1 = (if jget (tr_workerSockets t0) devId = Some ws
                       then t0\<lparr>tr_workerSockets := jdelete (tr_workerSockets t0) devId\<rparr> else t0)
             in drop_worker t1 now devId)"

definition HEARTBEAT_TIMEOUT_MS :: ms where
  "HEARTBEAT_TIMEOUT_MS = 10000"

definition is_dead :: "transport \<Rightarrow> ms \<Rightarrow> worker_state \<Rightarrow> bool" where
  "is_dead t now worker \<longleftrightarrow> open_socket_of t (ws_deviceId worker) = None \<or> now - ws_lastHeartbeatMs worker > HEARTBEAT_TIMEOUT_MS"

definition simulated :: "string \<Rightarrow> bool" where
  "simulated deviceId \<longleftrightarrow> take 11 deviceId = ''sim-worker-''"

definition sweep_worker :: "ms \<Rightarrow> worker_state \<Rightarrow> transport \<Rightarrow> transport" where
  "sweep_worker now worker t =
     (if simulated (ws_deviceId worker) \<or> \<not> is_dead t now worker then t
      else
        let t1 = t\<lparr>tr_workerSockets := jdelete (tr_workerSockets t) (ws_deviceId worker)\<rparr>;
            t2 = (case open_socket_of t (ws_deviceId worker) of Some ws \<Rightarrow> close_socket t1 ws | None \<Rightarrow> t1)
        in drop_worker t2 now (ws_deviceId worker))"

definition sweepDeadWorkers :: "transport \<Rightarrow> ms \<Rightarrow> transport" where
  "sweepDeadWorkers t now = fold (sweep_worker now) (listWorkers (tr_workers t)) t"

definition watchdog :: "transport \<Rightarrow> ms \<Rightarrow> transport" where
  "watchdog t now =
     sweepDeadWorkers (set_store t (fst (recoverExpiredLeases (tr_store t) now DEFAULT_MAX_RETRIES))) now"

text \<open>The callback of \<open>setImmediate\<close> that is due first.\<close>

definition run_immediate :: "transport_env \<Rightarrow> transport \<Rightarrow> fresh_values \<Rightarrow> transport" where
  "run_immediate te t fv =
     (case tr_immediates t of
        [] \<Rightarrow> t
      | StartPairing deviceId # rest \<Rightarrow>
          let t1 = t\<lparr>tr_immediates := rest\<rparr>
          in (case createPairingInitiation (te_crypto te) (tr_pairing t1) (fv_now fv) deviceId ''swarmx-host''
                    (fv_privateKey fv) (fv_publicKeyDer fv) (fv_uuid fv) of
                (ps, initiation) \<Rightarrow> fst (sendPairingRequest (t1\<lparr>tr_pairing := ps\<rparr>) deviceId initiation))
      | MarkReady w # rest \<Rightarrow>
          t\<lparr>tr_immediates := rest,
            tr_workers := fst (updateWorkerStage (tr_workers t) (fv_now fv) w Stage_READY None)\<rparr>)"

end
