(* ===== verification/Transport_Theorems.thy ===== *)
theory Transport_Theorems
  imports Transport_Server Pipeline_Theorems Pairing_Theorems Scheduler_Props
begin

text \<open>
  Properties of the transport server, across the components that it connects: the invariant of its events, what a
  closed socket and the watchdog leave behind, and on what the acceptance of a result rests.
\<close>

subsection \<open>The task store seen by the server\<close>

definition store_ok :: "task_store \<Rightarrow> bool" where
  "store_ok s \<longleftrightarrow> ts_open s \<and> distinct (ids s)"

lemma createTask_open: "createTask s now nt = Inr (s', t) \<Longrightarrow> ts_open s' = ts_open s"
  by (auto simp: createTask_def Let_def split: option.splits if_splits)

lemma store_ok_exec: "store_ok s \<Longrightarrow> store_ok (store_exec s now op)"
proof (cases "is_create op")
  case True
  then obtain nt where "op = Create nt" by (cases op) auto
  then show "store_ok s \<Longrightarrow> ?thesis"
    using exec_ids_distinct [of s now op] create_exec [of s now nt] createTask_open [of s now nt]
    by (auto simp: store_ok_def committed_def split: sum.splits)
next
  case False
  then show "store_ok s \<Longrightarrow> ?thesis"
    using exec_ids_distinct [of s now op] exec_rows [of s op now] by (auto simp: store_ok_def rows_step_def)
qed

lemmas store_ok_loss = store_ok_exec [where op = "WorkerLoss w mx" for w mx, unfolded store_exec.simps]
lemmas store_ok_expire = store_ok_exec [where op = "Expire mx" for mx, unfolded store_exec.simps]
lemmas store_ok_renew = store_ok_exec [where op = "RenewWorker w d" for w d, unfolded store_exec.simps]

lemma loss_count:
  assumes "store_ok s"
  shows "getActiveTaskCountForWorker (fst (recoverWorkerLoss s now w mx)) w' =
    (if w' = w then 0 else getActiveTaskCountForWorker s w')"
  using assms by (intro recoverWorkerLoss_count) (simp_all add: store_ok_def)

lemma handleTaskResult_store:
  assumes "handleTaskResult ve p now payload = Inr (p', res, calls)"
  shows "wp_taskStore p' = wp_taskStore p \<or> (\<exists>op. wp_taskStore p' = store_exec (wp_taskStore p) now op)"
proof (cases "begin_result p payload")
  case (Validating task pl v)
  then have fin: "finish_result ve p now task pl v = Inr (p', res, calls)"
    using assms by (auto simp: handleTaskResult_def split: sum.splits)
  show ?thesis
  proof (cases "pr_success res")
    case True
    then show ?thesis using finish_success(2) [OF fin True] completeTask_exec by metis
  next
    case False
    then obtain w reason det mx t
      where "recordTaskFailure (wp_taskStore p) now (t_id task) w reason det mx = Inr (wp_taskStore p', t)"
      using fin by (auto simp: finish_result_def Let_def split: if_splits sum.splits prod.splits)
    then show ?thesis using recordTaskFailure_exec by metis
  qed
qed (use assms in \<open>auto simp: handleTaskResult_def\<close>)

lemma handleTaskResult_store_ok:
  assumes "handleTaskResult ve p now payload = Inr (p', res, calls)" and "store_ok (wp_taskStore p)"
  shows "store_ok (wp_taskStore p')"
  using handleTaskResult_store [OF assms(1)] store_ok_exec [OF assms(2)] assms(2) by metis

subsection \<open>The worker manager seen by the server\<close>

lemmas manager_stage_ok = wm.exec_inv [where op = "(now, Stage d st ds)" for now d st ds, simplified]
lemmas manager_unregister_ok = wm.exec_inv [where op = "(now, Unregister d)" for now d, simplified]

lemma manager_register_ok:
  "manager_ok env m \<Longrightarrow> registerWorker m now p = Inr (m', w) \<Longrightarrow> manager_ok env m'"
  by (rule registerWorker_ok)

subsection \<open>The invariant of the events\<close>

text \<open>Every entry of \<open>workerSockets\<close> points to a socket, the map of workers is well formed, and the store open with
  one row per id.\<close>

definition transport_ok :: "transport_env \<Rightarrow> transport \<Rightarrow> bool" where
  "transport_ok te t \<longleftrightarrow> store_ok (tr_store t) \<and> manager_ok (te_environment te) (tr_workers t) \<and>
     distinct (map fst (tr_workerSockets t)) \<and>
     (\<forall>d ws. jget (tr_workerSockets t) d = Some ws \<longrightarrow> ws < length (tr_sockets t))"

lemma set_store_simps [simp]:
  "tr_store (set_store t s) = s" "tr_workers (set_store t s) = tr_workers t"
  "tr_workerSockets (set_store t s) = tr_workerSockets t" "tr_sockets (set_store t s) = tr_sockets t"
  "tr_pairing (set_store t s) = tr_pairing t" "tr_sent (set_store t s) = tr_sent t"
  "tr_immediates (set_store t s) = tr_immediates t"
  by (simp_all add: set_store_def)

lemma update_socket_simps [simp]:
  "tr_store (update_socket t ws f) = tr_store t" "tr_workers (update_socket t ws f) = tr_workers t"
  "tr_workerSockets (update_socket t ws f) = tr_workerSockets t"
  "length (tr_sockets (update_socket t ws f)) = length (tr_sockets t)"
  "tr_pipeline (update_socket t ws f) = tr_pipeline t" "tr_pairing (update_socket t ws f) = tr_pairing t"
  by (simp_all add: update_socket_def)

lemma send_to_simps [simp]:
  "tr_store (send_to t ws m) = tr_store t" "tr_workers (send_to t ws m) = tr_workers t"
  "tr_workerSockets (send_to t ws m) = tr_workerSockets t" "tr_sockets (send_to t ws m) = tr_sockets t"
  "tr_pipeline (send_to t ws m) = tr_pipeline t" "tr_pairing (send_to t ws m) = tr_pairing t"
  by (simp_all add: send_to_def)

lemma transport_ok_cong:
  assumes "transport_ok te t" and "tr_store t' = tr_store t" and "tr_workers t' = tr_workers t"
    and "tr_workerSockets t' = tr_workerSockets t" and "length (tr_sockets t') = length (tr_sockets t)"
  shows "transport_ok te t'"
  using assms by (simp add: transport_ok_def)

lemma transport_ok_send [simp]: "transport_ok te (send_to t ws m) = transport_ok te t"
  by (simp add: transport_ok_def)

lemma transport_ok_close [simp]: "transport_ok te (close_socket t ws) = transport_ok te t"
  by (simp add: transport_ok_def close_socket_def)

lemma transport_ok_device [simp]: "transport_ok te (set_device t ws d) = transport_ok te t"
  by (simp add: transport_ok_def set_device_def)

lemma transport_ok_update_socket [simp]: "transport_ok te (update_socket t ws f) = transport_ok te t"
  by (simp add: transport_ok_def)

lemma transport_ok_pairing [simp]: "transport_ok te (t\<lparr>tr_pairing := ps\<rparr>) = transport_ok te t"
  by (simp add: transport_ok_def)

lemma transport_ok_immediates [simp]: "transport_ok te (t\<lparr>tr_immediates := xs\<rparr>) = transport_ok te t"
  by (simp add: transport_ok_def)

lemma transport_ok_discovered [simp]: "transport_ok te (t\<lparr>tr_discovered := xs\<rparr>) = transport_ok te t"
  by (simp add: transport_ok_def)

lemma transport_ok_workers:
  "transport_ok te t \<Longrightarrow> manager_ok (te_environment te) m \<Longrightarrow> transport_ok te (t\<lparr>tr_workers := m\<rparr>)"
  by (simp add: transport_ok_def)

lemma transport_ok_manager: "transport_ok te t \<Longrightarrow> manager_ok (te_environment te) (tr_workers t)"
  by (simp add: transport_ok_def)

lemma transport_ok_store: "transport_ok te t \<Longrightarrow> store_ok (tr_store t)"
  by (simp add: transport_ok_def)

lemma transport_ok_set_store: "transport_ok te t \<Longrightarrow> store_ok s \<Longrightarrow> transport_ok te (set_store t s)"
  by (simp add: transport_ok_def)

lemma transport_ok_socket_entry:
  "transport_ok te t \<Longrightarrow> ws < length (tr_sockets t) \<Longrightarrow>
   transport_ok te (t\<lparr>tr_workerSockets := jset (tr_workerSockets t) d ws\<rparr>)"
  by (auto simp: transport_ok_def js_simps distinct_update split: if_splits)

lemma transport_ok_socket_delete:
  "transport_ok te t \<Longrightarrow> transport_ok te (t\<lparr>tr_workerSockets := jdelete (tr_workerSockets t) d\<rparr>)"
  by (auto simp: transport_ok_def js_simps distinct_delete split: if_splits)

lemma transport_ok_drop: "transport_ok te t \<Longrightarrow> transport_ok te (drop_worker t now d)"
  unfolding drop_worker_def
  by (intro transport_ok_set_store transport_ok_workers manager_unregister_ok store_ok_loss)
    (simp_all add: transport_ok_def)

lemma transport_ok_bind:
  assumes "transport_ok te t" and "ws < length (tr_sockets t)"
  shows "transport_ok te (bind_sender t ws msg)"
proof (cases "or_else (msg_sender msg) (socket_device t ws)")
  case (Some d)
  define t1 where "t1 = (case jget (tr_workerSockets t) d of Some old \<Rightarrow> if old = ws then t else close_socket t old | None \<Rightarrow> t)"
  have "transport_ok te t1" "ws < length (tr_sockets t1)" "tr_workerSockets t1 = tr_workerSockets (set_device t1 ws d)"
    using assms by (auto simp: t1_def close_socket_def set_device_def split: option.splits)
  then have "transport_ok te ((set_device t1 ws d)\<lparr>tr_workerSockets := jset (tr_workerSockets (set_device t1 ws d)) d ws\<rparr>)"
    by (intro transport_ok_socket_entry) (simp_all add: set_device_def)
  then show ?thesis
    using Some \<open>tr_workerSockets t1 = _\<close> by (simp add: bind_sender_def t1_def [symmetric] Let_def)
qed (use assms in \<open>simp add: bind_sender_def\<close>)

lemma bind_sender_frame [simp]:
  "length (tr_sockets (bind_sender t ws msg)) = length (tr_sockets t)"
  "tr_workers (bind_sender t ws msg) = tr_workers t" "tr_pipeline (bind_sender t ws msg) = tr_pipeline t"
  "tr_pairing (bind_sender t ws msg) = tr_pairing t"
  by (auto simp: bind_sender_def Let_def close_socket_def set_device_def split: option.splits)

lemma transport_ok_confirm:
  assumes ok: "transport_ok te t" and ws: "ws < length (tr_sockets t)"
  shows "transport_ok te (fst (handle_confirm te t fv ws c profile))"
proof -
  have reg: "transport_ok te (t\<lparr>tr_pairing := ps, tr_workers := m\<rparr>)"
    if "registerWorker (tr_workers t) (fv_now fv) p = Inr (m, w)" for ps p m w
    using ok manager_register_ok [OF transport_ok_manager [OF ok] that] by (intro transport_ok_workers) simp_all
  have entry: "transport_ok te (t'\<lparr>tr_workerSockets := jset (tr_workerSockets t) d ws\<rparr>)"
    if "transport_ok te t'" "tr_sockets t' = tr_sockets t" "tr_workerSockets t' = tr_workerSockets t" for t' d
    using transport_ok_socket_entry [OF that(1), of ws d] ws that(2,3) by simp
  have "transport_ok te (t\<lparr>tr_pairing := ps, tr_workerSockets := jset (tr_workerSockets t) d ws\<rparr>)" for ps d
    using entry [of "t\<lparr>tr_pairing := ps\<rparr>" d] ok by simp
  moreover have "transport_ok te (t\<lparr>tr_pairing := ps, tr_workers := m, tr_workerSockets := jset (tr_workerSockets t) d ws\<rparr>)"
    if "registerWorker (tr_workers t) (fv_now fv) p = Inr (m, w)" for ps p m w d
    using entry [OF reg [OF that], where d = d] by simp
  ultimately show ?thesis
    using ok reg by (auto simp: handle_confirm_def Let_def split: prod.splits sum.splits option.splits)
qed

lemma transport_ok_telemetry:
  assumes ok: "transport_ok te t" and ws: "ws < length (tr_sockets t)"
  shows "transport_ok te (fst (handle_telemetry te t now ws envelope))"
proof (cases "decryptEnvelope (te_crypto te) (tr_pairing t) envelope")
  case (Pair ps r)
  show ?thesis
  proof (cases r)
    case (Inl e)
    then show ?thesis using ok Pair by (simp add: handle_telemetry_def)
  next
    case (Inr bytes)
    show ?thesis
    proof (cases "te_parse_telemetry te bytes")
      case None
      then show ?thesis using ok Pair Inr by (simp add: handle_telemetry_def)
    next
      case (Some tm)
      let ?d = "tm_deviceId tm" and ?t1 = "t\<lparr>tr_pairing := ps\<rparr>"
      define t2 where "t2 = (if ?d = [] then ?t1 else (set_device ?t1 ws ?d)\<lparr>tr_workerSockets := jset (tr_workerSockets ?t1) ?d ws\<rparr>)"
      have ok2: "transport_ok te t2"
      proof (cases "?d = []")
        case False
        have "transport_ok te ((set_device ?t1 ws ?d)\<lparr>tr_workerSockets := jset (tr_workerSockets (set_device ?t1 ws ?d)) ?d ws\<rparr>)"
          using ok ws by (intro transport_ok_socket_entry) (simp_all add: set_device_def)
        then show ?thesis using False by (simp add: t2_def set_device_def)
      qed (use ok in \<open>simp add: t2_def\<close>)
      have res: "handle_telemetry te t now ws envelope =
        (case updateTelemetry (te_environment te) (tr_workers t2) now tm of
           Inl e \<Rightarrow> (t2, Inl (ManagerFailed e))
         | Inr (m, worker) \<Rightarrow>
             let t3 = set_store (t2\<lparr>tr_workers := m\<rparr>)
                   (fst (renewWorkerLeases (tr_store t2) ?d DEFAULT_LEASE_DURATION_MS now))
             in (case encryptEnvelope (te_crypto te) (tr_pairing t3) (en_sessionId envelope)
                       (te_ack te now (ws_isEligible worker)) of
                   (ps', Inl e) \<Rightarrow> (t3\<lparr>tr_pairing := ps'\<rparr>, Inl (PairingFailed e))
                 | (ps', Inr ack) \<Rightarrow> (t3\<lparr>tr_pairing := ps'\<rparr>, Inr (Some (TelemetryAck ack)))))"
        by (simp only: handle_telemetry_def Pair Inr Some prod.case sum.case option.case Let_def t2_def)
      show ?thesis
      proof (cases "updateTelemetry (te_environment te) (tr_workers t2) now tm")
        case (Inr mw)
        obtain m w where mw: "mw = (m, w)" by (cases mw)
        have "transport_ok te (set_store (t2\<lparr>tr_workers := m\<rparr>)
            (fst (renewWorkerLeases (tr_store t2) ?d DEFAULT_LEASE_DURATION_MS now)))"
          using ok2 updateTelemetry_ok [OF transport_ok_manager [OF ok2] Inr [unfolded mw]]
          by (intro transport_ok_set_store transport_ok_workers store_ok_renew transport_ok_store)
        then show ?thesis using res Inr mw by (auto simp: Let_def split: prod.splits sum.splits)
      qed (use ok2 res in simp)
    qed
  qed
qed

lemma transport_ok_result:
  assumes ok: "transport_ok te t"
  shows "transport_ok te (fst (handle_result te t now ws d envelope i))"
proof -
  have rep: "transport_ok te (report_completed t' now target r i)" "tr_pipeline (report_completed t' now target r i) = tr_pipeline t'"
    if "transport_ok te t'" for t' target r
    using that by (auto simp: report_completed_def split: option.splits
        intro!: transport_ok_workers manager_stage_ok transport_ok_manager)
  have pipe: "transport_ok te (t'\<lparr>tr_pipeline := p', tr_calls := cs\<rparr>)"
    if "transport_ok te t'" "handleTaskResult ve (tr_pipeline t') now pl = Inr (p', res, calls)" for t' ve pl p' res calls cs
    using that handleTaskResult_store_ok [OF that(2)] by (simp add: transport_ok_def)
  show ?thesis
    using ok rep pipe by (auto simp: handle_result_def Let_def split: prod.splits sum.splits option.splits)
qed

lemma transport_ok_handle:
  assumes ok: "transport_ok te t" and ws: "ws < length (tr_sockets t)"
  shows "transport_ok te (fst (handleWorkerMessage te t fv ws msg))"
proof (cases msg)
  case (PAIRING_CONFIRM c p)
  then show ?thesis using transport_ok_confirm [OF assms] by simp
next
  case (ENCRYPTED_TELEMETRY d e)
  then show ?thesis using transport_ok_telemetry [OF assms] by simp
next
  case (TASK_RESULT d e i)
  then show ?thesis using transport_ok_result [OF ok] by simp
next
  case (TASK_STAGE d st ds i)
  then show ?thesis
    using ok by (auto split: option.splits intro!: transport_ok_workers manager_stage_ok transport_ok_manager)
qed (use ok in \<open>auto simp: handle_beacon_def addDiscoveredWorker_def Let_def transport_ok_drop split: sum.splits\<close>)

lemma transport_ok_message:
  assumes "transport_ok te t" and "ws < length (tr_sockets t)"
  shows "transport_ok te (on_message te t fv ws msg)"
proof -
  have "transport_ok te (fst (handleWorkerMessage te (bind_sender t ws msg) fv ws msg))"
    using assms by (intro transport_ok_handle transport_ok_bind) simp_all
  then show ?thesis by (auto simp: on_message_def split: prod.splits sum.splits option.splits)
qed

lemma transport_ok_on_close: "transport_ok te t \<Longrightarrow> transport_ok te (on_close t now ws)"
  by (auto simp: on_close_def Let_def close_socket_def intro!: transport_ok_drop split: option.splits)
    (use transport_ok_socket_delete [of te "close_socket t ws"] in \<open>simp add: close_socket_def\<close>)

lemma transport_ok_sweep_worker: "transport_ok te t \<Longrightarrow> transport_ok te (sweep_worker now w t)"
  using transport_ok_socket_delete [of te t]
  by (auto simp: sweep_worker_def Let_def intro!: transport_ok_drop split: option.splits)

lemma transport_ok_sweep: "transport_ok te t \<Longrightarrow> transport_ok te (fold (sweep_worker now) ws t)"
  by (induction ws arbitrary: t) (simp_all add: transport_ok_sweep_worker)

lemma transport_ok_watchdog: "transport_ok te t \<Longrightarrow> transport_ok te (watchdog t now)"
  unfolding watchdog_def sweepDeadWorkers_def
  by (intro transport_ok_sweep transport_ok_set_store store_ok_expire) (simp_all add: transport_ok_def)

lemma transport_ok_immediate: "transport_ok te t \<Longrightarrow> transport_ok te (run_immediate te t fv)"
  by (auto simp: run_immediate_def Let_def sendPairingRequest_def intro!: transport_ok_workers manager_stage_ok
      transport_ok_manager split: list.splits immediate.splits prod.splits option.splits)

lemma transport_ok_execute: "transport_ok te t \<Longrightarrow> transport_ok te (fst (sendExecuteTask te t now w task i n))"
  by (auto simp: sendExecuteTask_def Let_def intro!: transport_ok_workers manager_stage_ok transport_ok_manager
      split: prod.splits option.splits sum.splits)

text \<open>The events of the server, and the operations of the rest of the program on the shared store.\<close>

datatype transport_event =
    Connects string
  | MessageFrom fresh_values nat worker_message
  | Closes ms nat
  | WatchdogTick ms
  | ImmediateDue fresh_values
  | Dispatches ms string task "string option" "int option"
  | ListsDiscovered ms
  | StoreCall ms store_op

fun transport_exec :: "transport_env \<Rightarrow> transport_event \<Rightarrow> transport \<Rightarrow> transport" where
  "transport_exec te (Connects a) t = on_connection t a"
| "transport_exec te (MessageFrom fv ws msg) t = (if ws < length (tr_sockets t) then on_message te t fv ws msg else t)"
| "transport_exec te (Closes now ws) t = (if ws < length (tr_sockets t) then on_close t now ws else t)"
| "transport_exec te (WatchdogTick now) t = watchdog t now"
| "transport_exec te (ImmediateDue fv) t = run_immediate te t fv"
| "transport_exec te (Dispatches now w task i n) t = fst (sendExecuteTask te t now w task i n)"
| "transport_exec te (ListsDiscovered now) t = fst (getDiscoveredWorkers t now)"
| "transport_exec te (StoreCall now op) t = set_store t (store_exec (tr_store t) now op)"

interpretation tm: machine "transport_exec te" "transport_ok te" for te
proof
  fix t :: transport and ev :: transport_event
  assume ok: "transport_ok te t"
  show "transport_ok te (transport_exec te ev t)"
  proof (cases ev)
    case (Connects a)
    then show ?thesis using ok by (auto simp: on_connection_def transport_ok_def less_Suc_eq)
  next
    case (StoreCall now op)
    then show ?thesis using ok by (auto intro!: transport_ok_set_store store_ok_exec simp: transport_ok_def)
  qed (use ok in \<open>auto simp: transport_ok_message transport_ok_on_close transport_ok_watchdog transport_ok_immediate
      transport_ok_execute getDiscoveredWorkers_def Let_def\<close>)
qed

definition new_transport :: "int \<Rightarrow> pairing_service \<Rightarrow> workload_pipeline \<Rightarrow> transport" where
  "new_transport port ps p = \<lparr>tr_port = port, tr_pairing = ps, tr_workers = [],
     tr_pipeline = p, tr_discovered = [], tr_workerSockets = [], tr_sockets = [], tr_sent = [], tr_immediates = [], tr_calls = []\<rparr>"

lemma transport_run_ok:
  assumes "store_ok (wp_taskStore p)"
  shows "transport_ok te (fold (transport_exec te) evs (new_transport port ps p))"
  by (rule tm.run_inv) (use assms in \<open>simp add: transport_ok_def new_transport_def manager_ok_def\<close>)

subsection \<open>What a sweep does\<close>



lemma drop_worker_simps [simp]:
  "tr_workers (drop_worker t now d) = jdelete (tr_workers t) d"
  "tr_store (drop_worker t now d) = fst (recoverWorkerLoss (tr_store t) now d DEFAULT_MAX_RETRIES)"
  "tr_workerSockets (drop_worker t now d) = tr_workerSockets t" "tr_sockets (drop_worker t now d) = tr_sockets t"
  by (simp_all add: drop_worker_def unregisterWorker_def)








subsection \<open>Properties\<close>

text \<open>A concrete server: the device of the pairing example confirms over its socket and is registered.\<close>

definition demo_te :: transport_env where
  "demo_te = \<lparr>te_environment = (\<lambda>_. None), te_crypto = demo_crypto, te_validators = demo_env,
     te_parse_telemetry = (\<lambda>_. None), te_parse_result = (\<lambda>b. Some \<lparr>wr_taskId = None, wr_outputData = Bytes b,
       wr_executionTimeMs = None, wr_attemptNumber = None, wr_itemCount = None, wr_workerHostname = None,
       wr_workerPid = None\<rparr>), te_ack = (\<lambda>_ _. []), te_task = (\<lambda>_ _ _ _ _ _. [])\<rparr>"

definition demo_pipeline :: workload_pipeline where
  "demo_pipeline = new_pipeline empty_store (new_scheduler DEFAULT_SCHEDULER_WEIGHTS)"

definition demo_fv :: "ms \<Rightarrow> fresh_values" where
  "demo_fv now = \<lparr>fv_now = now, fv_uuid = ''sid'', fv_ivSalt = [7, 7, 7, 7], fv_privateKey = [], fv_publicKeyDer = []\<rparr>"

definition demo_events :: "transport_event list" where
  "demo_events = [Connects ''10.0.0.2'', MessageFrom (demo_fv 2) 0 (PAIRING_CONFIRM demo_confirmation (Some (demo_profile ''phone'' 4)))]"

definition demo_transport :: transport where
  "demo_transport = fold (transport_exec demo_te) demo_events (new_transport 7890 demo_initiated demo_pipeline)"

lemma demo_store_ok: "store_ok (wp_taskStore demo_pipeline)"
  by (simp add: store_ok_def empty_store_def demo_pipeline_def new_pipeline_def)

lemma demo_transport_state:
  "tr_sockets demo_transport = [\<lparr>so_open = True, so_workerDeviceId = Some ''phone'', so_remoteAddress = ''10.0.0.2''\<rparr>]"
  "tr_workerSockets demo_transport = [(''phone'', 0)]" "tr_pairing demo_transport = demo_paired"
  "\<exists>w. tr_workers demo_transport = [(''phone'', w)] \<and> ws_lastHeartbeatMs w = 2"
  "tr_pipeline demo_transport = demo_pipeline"
proof -
  have c: "confirmPairing (te_crypto demo_te) demo_initiated 2 demo_confirmation ''sid'' [7, 7, 7, 7] =
      (demo_paired, Inr (ps_sessions demo_paired ! 0))"
    using demo_confirm by (simp add: demo_te_def)
  have d: "co_workerDeviceId demo_confirmation = ''phone''" by (simp add: demo_confirmation_def)
  note defs = demo_transport_def demo_events_def new_transport_def on_connection_def on_message_def bind_sender_def
    or_else_def set_device_def update_socket_def handle_confirm_def demo_fv_def c d send_to_def is_open_def
    registerWorker_def demo_profile_def CAPABILITY_SCHEMA_VERSION_def Let_def
  show "tr_sockets demo_transport = [\<lparr>so_open = True, so_workerDeviceId = Some ''phone'', so_remoteAddress = ''10.0.0.2''\<rparr>]"
    "tr_workerSockets demo_transport = [(''phone'', 0)]" "tr_pairing demo_transport = demo_paired" "tr_pipeline demo_transport = demo_pipeline"
    by (simp_all add: defs)
  show "\<exists>w. tr_workers demo_transport = [(''phone'', w)] \<and> ws_lastHeartbeatMs w = 2"
    by (simp add: defs)
qed

text \<open>C23. A closed connection releases its worker: in every run, when the socket of a device closes, the device is
  no longer registered, the socket is not its entry any more, its in-flight tasks are taken away from it, and the
  tasks of every other worker stay where they are.\<close>

theorem closed_worker_released:
  assumes "store_ok (wp_taskStore p)" and "t = fold (transport_exec te) evs (new_transport port ps p)"
    and "ws < length (tr_sockets t)" and "socket_device t ws = Some d"
  shows "getWorker (tr_workers (on_close t now ws)) d = None \<and>
     jget (tr_workerSockets (on_close t now ws)) d \<noteq> Some ws \<and>
     getActiveTaskCountForWorker (tr_store (on_close t now ws)) w =
       (if w = d then 0 else getActiveTaskCountForWorker (tr_store t) w)"
proof -
  have ok: "transport_ok te t" unfolding assms(2) using assms(1) by (rule transport_run_ok)
  have dev: "socket_device (close_socket t ws) ws = Some d"
    using assms(3,4) by (simp add: socket_device_def close_socket_def update_socket_def)
  define t1 where "t1 = (if jget (tr_workerSockets (close_socket t ws)) d = Some ws
      then (close_socket t ws)\<lparr>tr_workerSockets := jdelete (tr_workerSockets (close_socket t ws)) d\<rparr> else close_socket t ws)"
  have "on_close t now ws = drop_worker t1 now d" using dev by (simp add: on_close_def Let_def t1_def)
  moreover have "tr_workers t1 = tr_workers t" "tr_store t1 = tr_store t" "jget (tr_workerSockets t1) d \<noteq> Some ws"
    by (simp_all add: t1_def close_socket_def js_simps)
  ultimately show ?thesis
    using loss_count [OF transport_ok_store [OF ok]] by (simp add: getWorker_def js_simps)
qed

theorem closed_worker_released_witness:
  "getWorker (tr_workers (on_close demo_transport 5 0)) ''phone'' = None \<and>
   jget (tr_workerSockets (on_close demo_transport 5 0)) ''phone'' \<noteq> Some 0"
proof -
  have "socket_device demo_transport 0 = Some ''phone''" by (simp add: socket_device_def demo_transport_state)
  moreover have "0 < length (tr_sockets demo_transport)" by (simp add: demo_transport_state)
  ultimately show ?thesis using closed_worker_released [OF demo_store_ok demo_transport_def] by blast
qed



text \<open>A message whose envelope does not decrypt - an unknown or revoked session, a replay, a forged text - has no
  effect on the workers, the task store, the pipeline or the sessions.\<close>

theorem forged_envelope_ignored:
  assumes "decryptEnvelope (te_crypto te) (tr_pairing t) envelope = (ps, Inl err)"
    and "msg = TASK_RESULT d envelope i \<or> msg = ENCRYPTED_TELEMETRY d envelope"
  shows "tr_workers (on_message te t fv ws msg) = tr_workers t \<and> tr_pipeline (on_message te t fv ws msg) = tr_pipeline t \<and>
     tr_pairing (on_message te t fv ws msg) = tr_pairing t"
proof -
  have "ps = tr_pairing t"
    using assms(1) by (auto simp: decryptEnvelope_def split: option.splits if_splits)
  then show ?thesis
    using assms by (auto simp: on_message_def handle_result_def handle_telemetry_def)
qed

theorem forged_envelope_ignored_witness:
  "tr_pipeline (on_message demo_te demo_transport (demo_fv 3) 0 (TASK_RESULT (Some ''phone'') (demo_envelope\<lparr>en_sessionId := ''x''\<rparr>) ''t'')) =
     tr_pipeline demo_transport"
proof -
  have "session_of demo_paired ''x'' = None"
    by (simp add: session_of_def demo_simps demo_crypto_def)
  then have "decryptEnvelope (te_crypto demo_te) (tr_pairing demo_transport) (demo_envelope\<lparr>en_sessionId := ''x''\<rparr>) =
      (tr_pairing demo_transport, Inl (UnknownSession ''x''))"
    by (simp add: decryptEnvelope_def demo_transport_state)
  then show ?thesis using forged_envelope_ignored by blast
qed

text \<open>A result is credited to the worker that the clear text of the message names: once the envelope decrypts in
  some session, the pipeline treats the payload as a result of that worker, whichever device the session belongs to.\<close>

theorem result_credited_to_claimed_sender:
  assumes "decryptEnvelope (te_crypto te) (tr_pairing t) envelope = (ps, Inr bytes)"
    and "te_parse_result te bytes = Some r" and "w \<noteq> []"
  shows "tr_pipeline (fst (handle_result te t now ws (Some w) envelope i)) =
     (case handleTaskResult (te_validators te) (tr_pipeline t) now (result_payload r i (Some w)) of
        Inl e \<Rightarrow> tr_pipeline t | Inr (p, _, _) \<Rightarrow> p)"
proof -
  have "or_undef (Some w) = Some w" using assms(3) by (rule or_undef_nonempty)
  then show ?thesis
    using assms(1,2)
    by (simp add: handle_result_def Let_def or_else_def report_completed_def split: sum.splits prod.splits)
qed

theorem result_credited_to_claimed_sender_witness:
  "tr_pipeline (fst (handle_result demo_te demo_transport 5 0 (Some ''laptop'') demo_envelope ''t'')) = tr_pipeline demo_transport"
proof -
  obtain ps where "decryptEnvelope (te_crypto demo_te) (tr_pairing demo_transport) demo_envelope = (ps, Inr [5, 6])"
    using demo_accepts by (metis demo_te_def demo_transport_state(3) prod.collapse transport_env.select_convs(2))
  moreover define r where "r = the (te_parse_result demo_te [5, 6])"
  then have "te_parse_result demo_te [5, 6] = Some r" "wr_taskId r = None" by (simp_all add: demo_te_def)
  moreover from this(2) have "handleTaskResult (te_validators demo_te) (tr_pipeline demo_transport) 5
      (result_payload r ''t'' (Some ''laptop'')) = Inl (NotFoundError ''t'')"
    by (simp add: handleTaskResult_def begin_result_def result_payload_def result_task_def demo_transport_state
        demo_pipeline_def new_pipeline_def empty_store_def getTask_def str_or_def find_row_def)
  ultimately show ?thesis
    using result_credited_to_claimed_sender [of demo_te demo_transport demo_envelope ps "[5, 6]" r "''laptop''" 5 0 "''t''"]
    by simp
qed




end
