(* ===== verification/Decision_Engine.thy ===== *)
theory Decision_Engine
  imports Scheduler Kernel_Registry
begin

text \<open>
  \<open>DistributionDecisionEngine\<close> of \<^verbatim>\<open>core/src/decision_engine.ts\<close>: the reservations of workers, the calibration of
  throughputs and the decision whether a workload runs locally or on the swarm.  Rates and ratios are rationals; an
  estimate that is \<open>Infinity\<close> is \<open>None\<close>; the texts of the reasons are constructors with the values they show.  A rate of
  the configuration that is a divisor is taken to be positive, as the defaults are.
\<close>

subsection \<open>Data\<close>

record decision_config =
  minGainThreshold :: rat
  defaultLanBandwidthBytesPerSec :: rat
  defaultLocalThroughputBytesPerSec :: rat
  defaultWorkerThroughputBytesPerSec :: rat
  ipcOverheadMs :: rat
  coordinationOverheadMs :: rat

definition DEFAULT_DECISION_CONFIG :: decision_config where
  "DEFAULT_DECISION_CONFIG = \<lparr>minGainThreshold = 5 / 4, defaultLanBandwidthBytesPerSec = 25 * 1024 * 1024,
     defaultLocalThroughputBytesPerSec = 12 * 1024 * 1024, defaultWorkerThroughputBytesPerSec = 35 * 1024 * 1024,
     ipcOverheadMs = 2, coordinationOverheadMs = 5\<rparr>"

record worker_candidate_load =
  wc_deviceId :: string
  wc_capabilityProfile :: "capability_profile option"
  wc_telemetry :: "worker_telemetry option"
  wc_inFlightTasks :: "int option"

record decision_engine =
  dn_config :: decision_config
  dn_registry :: kernel_registry
  dn_localCalibration :: "(string, rat) jsmap"
  dn_workerCalibration :: "(string, rat) jsmap"
  dn_workerInFlight :: "(string, int) jsmap"

definition new_decision_engine :: "decision_config \<Rightarrow> kernel_registry \<Rightarrow> decision_engine" where
  "new_decision_engine config registry = \<lparr>dn_config = config, dn_registry = registry, dn_localCalibration = [],
     dn_workerCalibration = [], dn_workerInFlight = []\<rparr>"

subsection \<open>Reservations\<close>

definition getInFlightCount :: "decision_engine \<Rightarrow> string \<Rightarrow> int" where
  "getInFlightCount e deviceId = (case num_or_undef (jget (dn_workerInFlight e) deviceId) of None \<Rightarrow> 0 | Some n \<Rightarrow> n)"

definition acquireReservation :: "decision_engine \<Rightarrow> string \<Rightarrow> decision_engine" where
  "acquireReservation e deviceId =
     e\<lparr>dn_workerInFlight := jset (dn_workerInFlight e) deviceId (getInFlightCount e deviceId + 1)\<rparr>"

definition releaseReservation :: "decision_engine \<Rightarrow> string \<Rightarrow> decision_engine" where
  "releaseReservation e deviceId =
     (let current = getInFlightCount e deviceId
      in if current \<le> 1 then e\<lparr>dn_workerInFlight := jdelete (dn_workerInFlight e) deviceId\<rparr>
         else e\<lparr>dn_workerInFlight := jset (dn_workerInFlight e) deviceId (current - 1)\<rparr>)"

subsection \<open>Calibration\<close>

definition recordLocalCalibration :: "decision_engine \<Rightarrow> string \<Rightarrow> rat \<Rightarrow> decision_engine" where
  "recordLocalCalibration e kernelId r =
     (if 0 < r then e\<lparr>dn_localCalibration := jset (dn_localCalibration e) kernelId r\<rparr> else e)"

definition calibration_key :: "string \<Rightarrow> string \<Rightarrow> string" where
  "calibration_key deviceId kernelId = deviceId @ '':'' @ kernelId"

definition recordWorkerCalibration :: "decision_engine \<Rightarrow> string \<Rightarrow> string \<Rightarrow> rat \<Rightarrow> decision_engine" where
  "recordWorkerCalibration e deviceId kernelId r =
     (if 0 < r then e\<lparr>dn_workerCalibration := jset (dn_workerCalibration e) (calibration_key deviceId kernelId) r\<rparr> else e)"

definition getLocalThroughput :: "decision_engine \<Rightarrow> string \<Rightarrow> rat" where
  "getLocalThroughput e kernelId =
     (case jget (dn_localCalibration e) kernelId of None \<Rightarrow> defaultLocalThroughputBytesPerSec (dn_config e) | Some r \<Rightarrow> r)"

definition getWorkerThroughput :: "decision_engine \<Rightarrow> string \<Rightarrow> string \<Rightarrow> bool \<Rightarrow> rat" where
  "getWorkerThroughput e deviceId kernelId hasGpu =
     (case jget (dn_workerCalibration e) (calibration_key deviceId kernelId) of
        Some r \<Rightarrow> r
      | None \<Rightarrow>
          let base = defaultWorkerThroughputBytesPerSec (dn_config e)
          in if hasGpu then base * (3 / 2) else base)"

definition getPredictedQueueTimeMs :: "decision_engine \<Rightarrow> string \<Rightarrow> string \<Rightarrow> int \<Rightarrow> int" where
  "getPredictedQueueTimeMs e deviceId kernelId payloadBytes =
     (let throughput = getWorkerThroughput e deviceId kernelId False;
          computeMs = of_int payloadBytes / max 1 throughput * 1000
      in js_round (of_int (getInFlightCount e deviceId) * computeMs))"

subsection \<open>The decision\<close>

datatype run_where = SWARM | LOCAL

datatype choice_reason =
    NotCertified string
  | BelowMinimum int int
  | NoEligibleWorkers
  | FasterRemote string
  | QueueSaturation string int
  | BelowThreshold rat

record decision_result =
  dr_decision :: run_where
  dr_estimatedLocalTimeMs :: int
  dr_estimatedSwarmTimeMs :: "int option"
  dr_estimatedQueueTimeMs :: "int option"
  dr_estimatedTransferTimeMs :: "int option"
  dr_estimatedComputeTimeMs :: "int option"
  dr_estimatedGain :: rat
  dr_reason :: choice_reason
  dr_selectedWorkerCount :: nat
  dr_selectedWorkerId :: "string option"
  dr_calibratedLocalThroughputMBs :: "rat option"
  dr_calibratedSwarmThroughputMBs :: "rat option"

definition to_fixed2 :: "rat \<Rightarrow> rat" where
  "to_fixed2 x = of_int (js_round (x * 100)) / 100"

definition megabytes :: "rat \<Rightarrow> rat option" where
  "megabytes r = Some (to_fixed2 (r / (1024 * 1024)))"

definition local_result ::
  "int \<Rightarrow> int option \<Rightarrow> rat \<Rightarrow> choice_reason \<Rightarrow> rat option \<Rightarrow> decision_result" where
  "local_result localMs swarmMs gain reason mbs = \<lparr>dr_decision = LOCAL, dr_estimatedLocalTimeMs = localMs,
     dr_estimatedSwarmTimeMs = swarmMs, dr_estimatedQueueTimeMs = None, dr_estimatedTransferTimeMs = None,
     dr_estimatedComputeTimeMs = None, dr_estimatedGain = gain, dr_reason = reason, dr_selectedWorkerCount = 0,
     dr_selectedWorkerId = None, dr_calibratedLocalThroughputMBs = mbs, dr_calibratedSwarmThroughputMBs = None\<rparr>"

definition candidate_eligible :: "environment \<Rightarrow> kernel_registry \<Rightarrow> string \<Rightarrow> worker_candidate_load \<Rightarrow> bool" where
  "candidate_eligible env registry kernelId w \<longleftrightarrow>
     (case wc_telemetry w of
        None \<Rightarrow> True
      | Some t \<Rightarrow>
          if 90 / 100 \<le> tm_cpuUtilization t then False
          else if 2 \<le> thermal_code (tm_thermalState t) then False
          else if \<not> ignore_battery env \<and> \<not> tm_isCharging t \<and> tm_batteryLevel t < 20 / 100 then False
          else True) \<and>
     (case wc_capabilityProfile w of None \<Rightarrow> True | Some p \<Rightarrow> isPlatformSupported registry kernelId (cp_osType p))"

record worker_evaluation =
  wv_deviceId :: string
  wv_computeMs :: int
  wv_queueMs :: int
  wv_transferMs :: int
  wv_effectiveSwarmMs :: int
  wv_inFlight :: int
  wv_workerRate :: rat

definition transfer_time :: "decision_engine \<Rightarrow> int \<Rightarrow> int" where
  "transfer_time e payloadBytes =
     js_round (of_int (2 * payloadBytes) / defaultLanBandwidthBytesPerSec (dn_config e) * 1000)"

definition evaluate_worker :: "decision_engine \<Rightarrow> string \<Rightarrow> int \<Rightarrow> worker_candidate_load \<Rightarrow> worker_evaluation" where
  "evaluate_worker e kernelId payloadBytes w =
     (let workerRate = getWorkerThroughput e (wc_deviceId w) kernelId
            (case wc_capabilityProfile w of None \<Rightarrow> False | Some p \<Rightarrow> cp_hasGpu p);
          computeMs = js_round (of_int payloadBytes / max 1 workerRate * 1000);
          inFlight = (case wc_inFlightTasks w of Some n \<Rightarrow> n | None \<Rightarrow> getInFlightCount e (wc_deviceId w));
          queueMs = inFlight * computeMs;
          transferTimeMs = transfer_time e payloadBytes;
          effectiveSwarmMs = ipcOverheadMs (dn_config e) + of_int transferTimeMs + of_int queueMs + of_int computeMs
            + coordinationOverheadMs (dn_config e)
      in \<lparr>wv_deviceId = wc_deviceId w, wv_computeMs = computeMs, wv_queueMs = queueMs, wv_transferMs = transferTimeMs,
          wv_effectiveSwarmMs = js_round effectiveSwarmMs, wv_inFlight = inFlight, wv_workerRate = workerRate\<rparr>)"

definition local_time :: "decision_engine \<Rightarrow> string \<Rightarrow> int \<Rightarrow> rat" where
  "local_time e kernelId payloadBytes = of_int payloadBytes / getLocalThroughput e kernelId * 1000"

definition decide_best ::
  "decision_engine \<Rightarrow> rat \<Rightarrow> int \<Rightarrow> nat \<Rightarrow> worker_evaluation \<Rightarrow> decision_result" where
  "decide_best e localThroughput localMs eligibleCount best =
     (let swarmMs = wv_effectiveSwarmMs best;
          estimatedGain = (if 0 < swarmMs then of_int localMs / of_int swarmMs else 0 :: rat);
          result = \<lparr>dr_decision = SWARM, dr_estimatedLocalTimeMs = localMs, dr_estimatedSwarmTimeMs = Some swarmMs,
            dr_estimatedQueueTimeMs = Some (wv_queueMs best), dr_estimatedTransferTimeMs = Some (wv_transferMs best),
            dr_estimatedComputeTimeMs = Some (wv_computeMs best), dr_estimatedGain = to_fixed2 estimatedGain,
            dr_reason = FasterRemote (wv_deviceId best), dr_selectedWorkerCount = eligibleCount,
            dr_selectedWorkerId = Some (wv_deviceId best), dr_calibratedLocalThroughputMBs = megabytes localThroughput,
            dr_calibratedSwarmThroughputMBs = megabytes (wv_workerRate best)\<rparr>
      in if minGainThreshold (dn_config e) \<le> estimatedGain then result
         else result\<lparr>dr_decision := LOCAL,
                dr_reason := (if 0 < wv_queueMs best \<and> localMs < wv_queueMs best + wv_transferMs best + wv_computeMs best
                              then QueueSaturation (wv_deviceId best) (wv_inFlight best)
                              else BelowThreshold (to_fixed2 estimatedGain))\<rparr>)"

definition evaluate ::
  "environment \<Rightarrow> decision_engine \<Rightarrow> string \<Rightarrow> int \<Rightarrow> worker_candidate_load list \<Rightarrow> decision_result" where
  "evaluate env e kernelId payloadBytes connectedWorkers =
     (if \<not> isCertified (dn_registry e) kernelId then local_result 0 None 0 (NotCertified kernelId) None
      else
        let kernel = the (getKernel (dn_registry e) kernelId);
            localThroughput = getLocalThroughput e kernelId;
            localMs = local_time e kernelId payloadBytes
        in if payloadBytes < kd_minBeneficialBytes kernel
           then local_result (js_round localMs) (Some (js_round (localMs * 2))) (1 / 2)
                  (BelowMinimum payloadBytes (kd_minBeneficialBytes kernel)) (megabytes localThroughput)
           else
             let eligibleWorkers = filter (candidate_eligible env (dn_registry e) kernelId) connectedWorkers
             in (case sort_key wv_effectiveSwarmMs (map (evaluate_worker e kernelId payloadBytes) eligibleWorkers) of
                   [] \<Rightarrow> local_result (js_round localMs) None 0 NoEligibleWorkers (megabytes localThroughput)
                 | best # _ \<Rightarrow> decide_best e localThroughput (js_round localMs) (length eligibleWorkers) best))"

end
