(* ===== verification/Decision_Theorems.thy ===== *)
theory Decision_Theorems
  imports Decision_Engine Scheduler_Props
begin

text \<open>
  Properties of the decision engine: when it chooses the swarm and which worker, what its reservations count, and
  that its gate on the telemetry is the one of the worker manager and of the scheduler.
\<close>

subsection \<open>The first of the fastest\<close>

lemma find_filter: "find P xs = (case filter P xs of [] \<Rightarrow> None | y # _ \<Rightarrow> Some y)"
  by (induction xs) auto

lemma sort_key_first:
  fixes f :: "'a \<Rightarrow> 'b::linorder"
  assumes "sort_key f xs = b # rest"
  shows "Min (f ` set xs) = f b" and "find (\<lambda>x. f x = f b) xs = Some b"
proof -
  have set: "set xs = set (b # rest)" using assms set_sort [of f xs] by simp
  have srt: "sorted (map f (b # rest))" using assms sorted_sort_key [of f xs] by simp
  show "Min (f ` set xs) = f b" unfolding set using srt by (intro Min_eqI) auto
  have "filter (\<lambda>x. f x = f b) xs = filter (\<lambda>x. f x = f b) (b # rest)"
    using sort_key_stable [of f "f b" xs] assms by simp
  then show "find (\<lambda>x. f x = f b) xs = Some b" by (simp add: find_filter)
qed

subsection \<open>The decision\<close>

definition effective_ms :: "decision_engine \<Rightarrow> string \<Rightarrow> int \<Rightarrow> worker_candidate_load \<Rightarrow> int" where
  "effective_ms e kernelId payloadBytes w = wv_effectiveSwarmMs (evaluate_worker e kernelId payloadBytes w)"

definition gain_over :: "int \<Rightarrow> int \<Rightarrow> rat" where
  "gain_over localMs swarmMs = (if 0 < swarmMs then of_int localMs / of_int swarmMs else 0)"

lemma decide_best_simps:
  "dr_decision (decide_best e r l n b) = SWARM \<longleftrightarrow> minGainThreshold (dn_config e) \<le> gain_over l (wv_effectiveSwarmMs b)"
  "dr_selectedWorkerId (decide_best e r l n b) = Some (wv_deviceId b)"
  "dr_estimatedSwarmTimeMs (decide_best e r l n b) = Some (wv_effectiveSwarmMs b)"
  by (simp_all add: decide_best_def Let_def gain_over_def)

lemma evaluate_worker_device [simp]: "wv_deviceId (evaluate_worker e k n w) = wc_deviceId w"
  by (simp add: evaluate_worker_def Let_def)

lemma find_map: "find P (map f xs) = map_option f (find (P \<circ> f) xs)"
  by (induction xs) auto

text \<open>C24. The decision is exact: a workload is sent to the swarm precisely when its kernel is certified, its payload
  reaches the kernel's minimum, some candidate is eligible, and the local time over the smallest effective time of
  the eligible candidates reaches the required gain; the candidate named is the first one with that smallest time.\<close>

theorem evaluate_exact:
  "let eligible = filter (candidate_eligible env (dn_registry e) k) ws;
       gates = (isCertified (dn_registry e) k \<and> kd_minBeneficialBytes (the (getKernel (dn_registry e) k)) \<le> n \<and> eligible \<noteq> []);
       fastest = Min (effective_ms e k n ` set eligible)
   in (dr_decision (evaluate env e k n ws) = SWARM \<longleftrightarrow>
         gates \<and> minGainThreshold (dn_config e) \<le> gain_over (js_round (local_time e k n)) fastest) \<and>
      dr_selectedWorkerId (evaluate env e k n ws) =
        (if gates then map_option wc_deviceId (find (\<lambda>w. effective_ms e k n w = fastest) eligible) else None)"
proof -
  define el where "el = filter (candidate_eligible env (dn_registry e) k) ws"
  define srt where "srt = sort_key wv_effectiveSwarmMs (map (evaluate_worker e k n) el)"
  have nil: "srt = [] \<longleftrightarrow> el = []"
  proof -
    have "length srt = length el" by (simp add: srt_def)
    then show ?thesis by (metis length_0_conv)
  qed
  have unf: "evaluate env e k n ws =
     (if \<not> isCertified (dn_registry e) k then local_result 0 None 0 (NotCertified k) None
      else if n < kd_minBeneficialBytes (the (getKernel (dn_registry e) k))
      then local_result (js_round (local_time e k n)) (Some (js_round (local_time e k n * 2))) (1 / 2)
             (BelowMinimum n (kd_minBeneficialBytes (the (getKernel (dn_registry e) k)))) (megabytes (getLocalThroughput e k))
      else (case srt of
              [] \<Rightarrow> local_result (js_round (local_time e k n)) None 0 NoEligibleWorkers (megabytes (getLocalThroughput e k))
            | b # _ \<Rightarrow> decide_best e (getLocalThroughput e k) (js_round (local_time e k n)) (length el) b))"
    unfolding evaluate_def Let_def srt_def el_def by (rule refl)
  show ?thesis
  proof (cases srt)
    case Nil
    then show ?thesis using nil unfolding Let_def el_def [symmetric] unf by (simp add: local_result_def)
  next
    case (Cons b rest)
    then have ne: "el \<noteq> []" using nil by auto
    note f = sort_key_first [OF Cons [unfolded srt_def]]
    have eff: "effective_ms e k n = wv_effectiveSwarmMs \<circ> evaluate_worker e k n"
      by (simp add: effective_ms_def fun_eq_iff)
    have m: "Min (effective_ms e k n ` set el) = wv_effectiveSwarmMs b"
      using f(1) by (simp add: eff image_comp)
    have "map_option (evaluate_worker e k n) (find (\<lambda>w. effective_ms e k n w = wv_effectiveSwarmMs b) el) = Some b"
      using f(2) by (simp add: find_map comp_def effective_ms_def)
    then obtain w where "find (\<lambda>w. effective_ms e k n w = wv_effectiveSwarmMs b) el = Some w" "wc_deviceId w = wv_deviceId b"
      by auto
    then show ?thesis
      using ne unfolding Let_def el_def [symmetric] unf m
      by (simp add: Cons decide_best_simps) (simp add: local_result_def not_le)
  qed
qed

subsection \<open>Reservations\<close>

datatype reservation_op = Acquire string | Release string

fun reservation_exec :: "reservation_op \<Rightarrow> decision_engine \<Rightarrow> decision_engine" where
  "reservation_exec (Acquire d) e = acquireReservation e d"
| "reservation_exec (Release d) e = releaseReservation e d"

text \<open>The specification: one counter per device that never falls below zero.\<close>

fun counter_exec :: "reservation_op \<Rightarrow> (string \<Rightarrow> nat) \<Rightarrow> (string \<Rightarrow> nat)" where
  "counter_exec (Acquire d) c = c(d := c d + 1)"
| "counter_exec (Release d) c = c(d := c d - 1)"

definition reservations_ok :: "decision_engine \<Rightarrow> bool" where
  "reservations_ok e \<longleftrightarrow> (\<forall>d n. jget (dn_workerInFlight e) d = Some n \<longrightarrow> 0 < n)"

definition counters_of :: "decision_engine \<Rightarrow> string \<Rightarrow> nat" where
  "counters_of e d = nat (getInFlightCount e d)"

lemma inFlight_nonneg: "reservations_ok e \<Longrightarrow> 0 \<le> getInFlightCount e d"
  by (cases "jget (dn_workerInFlight e) d") (fastforce simp: getInFlightCount_def reservations_ok_def num_or_undef_def)+

lemma inFlight_set: "0 < n \<Longrightarrow> getInFlightCount (e\<lparr>dn_workerInFlight := jset (dn_workerInFlight e) d n\<rparr>) d' =
    (if d' = d then n else getInFlightCount e d')"
  by (simp add: getInFlightCount_def js_simps num_or_undef_def)

lemma inFlight_delete: "getInFlightCount (e\<lparr>dn_workerInFlight := jdelete (dn_workerInFlight e) d\<rparr>) d' =
    (if d' = d then 0 else getInFlightCount e d')"
  by (simp add: getInFlightCount_def js_simps num_or_undef_def)

interpretation rm: refining_machine reservation_exec reservations_ok counter_exec counters_of
proof
  fix e :: decision_engine and op :: reservation_op
  assume ok: "reservations_ok e"
  note pos = inFlight_nonneg [OF ok]
  have put: "reservations_ok (e\<lparr>dn_workerInFlight := jset (dn_workerInFlight e) d n\<rparr>)" if "0 < n" for d n
    using ok that by (simp add: reservations_ok_def js_simps)
  have del: "reservations_ok (e\<lparr>dn_workerInFlight := jdelete (dn_workerInFlight e) d\<rparr>)" for d
    using ok by (simp add: reservations_ok_def js_simps)
  show "reservations_ok (reservation_exec op e)"
    using put del pos by (cases op) (simp_all add: acquireReservation_def releaseReservation_def Let_def add_nonneg_pos)
  show "counters_of (reservation_exec op e) = counter_exec op (counters_of e)"
  proof (cases op)
    case (Acquire d)
    then show ?thesis using pos [of d] by (auto simp: counters_of_def acquireReservation_def inFlight_set fun_eq_iff)
  next
    case (Release d)
    then show ?thesis using pos [of d]
      by (auto simp: counters_of_def releaseReservation_def inFlight_set inFlight_delete fun_eq_iff Let_def)
  qed
qed

text \<open>The reservations implement one counter per worker: after any sequence of acquisitions and releases,
  \<open>getInFlightCount\<close> gives for every device what counting up and, never below zero, down gives; a release too many
  changes nothing and no entry of the map is zero or negative.\<close>

theorem reservations_refine_counters:
  "getInFlightCount (fold reservation_exec ops (new_decision_engine config registry)) d = int (fold counter_exec ops (\<lambda>_. 0) d)"
proof -
  let ?e = "new_decision_engine config registry"
  have ok: "reservations_ok ?e" by (simp add: reservations_ok_def new_decision_engine_def)
  have "counters_of ?e = (\<lambda>_. 0)"
    by (simp add: counters_of_def getInFlightCount_def new_decision_engine_def num_or_undef_def fun_eq_iff)
  then have "counters_of (fold reservation_exec ops ?e) = fold counter_exec ops (\<lambda>_. 0)"
    using rm.run_refines [OF ok, of ops] by simp
  then show ?thesis
    using inFlight_nonneg [OF rm.run_inv [OF ok], of ops d] by (simp add: counters_of_def fun_eq_iff) (metis nat_0_le)
qed

subsection \<open>One gate in three places\<close>

text \<open>The three hard gates agree: the worker manager's eligibility, the scheduler's telemetry gate and the
  decision engine's filter accept exactly the same telemetry in the same environment, so no worker that one of them
  passes is refused by another for its battery, its temperature or its load.\<close>

theorem telemetry_gates_agree:
  "telemetry_gate env (Some t) = evaluateEligibility env t \<and>
   candidate_eligible env registry k \<lparr>wc_deviceId = d, wc_capabilityProfile = None, wc_telemetry = Some t, wc_inFlightTasks = n\<rparr>
     = evaluateEligibility env t"
  by (cases "tm_thermalState t")
    (auto simp: telemetry_gate_def evaluateEligibility_def candidate_eligible_def Let_def less_thermal_state_def)

end
