(* ===== verification/Chunk_Dispatch.thy ===== *)
theory Chunk_Dispatch
  imports Transport_Server Decision_Engine
begin

text \<open>
  The dispatchers of \<^verbatim>\<open>core/src/ipc_server.ts\<close>: \<open>dispatchChunkWithRetry\<close> and its variants for images and videos, and
  the path of \<open>executeWorkload\<close> that runs a workload as a single task.  A dispatcher places its task, assigns it, reserves
  the worker and sends the task; then it awaits a promise that the completion listener or a timer resolves, and either
  returns, throws or tries again.  Many of them run at once, so a dispatcher is a value with a state and each
  stretch between two awaits is a step.  A listener is a number that is drawn for each attempt.

  What a simulated worker answers is an argument of the step in which it answers.
\<close>

subsection \<open>Data\<close>

datatype job_kind = MatrixJob | ImageJob | VideoJob | SingleJob

text \<open>What a dispatcher is called with: the argument of \<open>createTask\<close>, the payload and the fields of the chunk that
  it reports.\<close>

record job =
  jb_kind :: job_kind
  jb_workloadId :: string
  jb_chunkIndex :: int
  jb_totalChunks :: int
  jb_startFrameIndex :: int
  jb_itemCount :: int
  jb_task :: new_task
  jb_payload :: buffer
  jb_payloadBytes :: int

text \<open>How the promise is resolved: by the listener, at a time, or by the timer.\<close>

datatype completion = Heard task_processing_result ms | TimedOut

datatype last_error =
    NoWorkerFound
  | ResultRejected result_error
  | WaitTimedOut
  | ExecutionFailedOn string

datatype dispatch_error =
    NotPlaced scheduling_status nat
  | StoreThrew store_error
  | TransportThrew transport_error
  | SendRefused string
  | AttemptsExhausted nat last_error
  | WorkerFailed last_error

datatype dispatch_state =
    Placing
  | Awaiting string listener ms ms "completion option"
  | Returned payload string int
  | Threw dispatch_error

record dispatch =
  dp_job :: job
  dp_task :: task
  dp_attempt :: nat
  dp_lastError :: last_error
  dp_state :: dispatch_state

text \<open>The objects that the IPC server shares, the running calls of \<open>SimulationWorkerAdapter.executeTask\<close> (by
  dispatcher and worker) and the dispatchers.\<close>

record core =
  co_transport :: transport
  co_engine :: decision_engine
  co_simulation :: bool
  co_simulations :: "(nat \<times> string) list"
  co_listeners :: listener
  co_dispatches :: "dispatch list"

record dispatch_env =
  di_transport :: transport_env
  di_parse :: "string \<Rightarrow> json option"
  di_parseInt :: "string \<Rightarrow> int option"
  di_base64 :: "buffer \<Rightarrow> string"
  di_message :: "last_error \<Rightarrow> string"
  di_result_message :: "handle_error \<Rightarrow> string"

abbreviation co_pipeline :: "core \<Rightarrow> workload_pipeline" where
  "co_pipeline c \<equiv> tr_pipeline (co_transport c)"

abbreviation co_store :: "core \<Rightarrow> task_store" where
  "co_store c \<equiv> tr_store (co_transport c)"

abbreviation co_workers :: "core \<Rightarrow> worker_manager" where
  "co_workers c \<equiv> tr_workers (co_transport c)"

definition with_store :: "core \<Rightarrow> task_store \<Rightarrow> core" where
  "with_store c s = c\<lparr>co_transport := set_store (co_transport c) s\<rparr>"

definition with_pipeline :: "core \<Rightarrow> workload_pipeline \<Rightarrow> core" where
  "with_pipeline c p = c\<lparr>co_transport := (co_transport c)\<lparr>tr_pipeline := p\<rparr>\<rparr>"

definition release :: "core \<Rightarrow> string \<Rightarrow> core" where
  "release c w = c\<lparr>co_engine := releaseReservation (co_engine c) w\<rparr>"

definition report_stage :: "core \<Rightarrow> ms \<Rightarrow> string \<Rightarrow> execution_stage \<Rightarrow> stage_details option \<Rightarrow> core" where
  "report_stage c now w stage details =
     c\<lparr>co_transport := (co_transport c)\<lparr>tr_workers := fst (updateWorkerStage (co_workers c) now w stage details)\<rparr>\<rparr>"

definition mark_ready :: "core \<Rightarrow> string \<Rightarrow> core" where
  "mark_ready c w = c\<lparr>co_transport := (co_transport c)\<lparr>tr_immediates := tr_immediates (co_transport c) @ [MarkReady w]\<rparr>\<rparr>"

text \<open>Only the dispatcher for videos reports the stages of the worker.\<close>

definition video_stage :: "job \<Rightarrow> core \<Rightarrow> ms \<Rightarrow> string \<Rightarrow> execution_stage \<Rightarrow> stage_details option \<Rightarrow> core" where
  "video_stage j c now w stage details = (if jb_kind j = VideoJob then report_stage c now w stage details else c)"

subsection \<open>Placement and lease\<close>

definition SIM_DEVICE_ID :: string where
  "SIM_DEVICE_ID = ''sim-worker-virtual-m3''"

definition in_simulator :: "string \<Rightarrow> bool" where
  "in_simulator w \<longleftrightarrow> w = SIM_DEVICE_ID \<or> take 19 w = ''sim-worker-virtual-''"

definition MAX_CHUNK_RETRIES :: nat where
  "MAX_CHUNK_RETRIES = 2"

definition place :: "dispatch_env \<Rightarrow> core \<Rightarrow> task \<Rightarrow> scheduling_status + string" where
  "place env c task =
     (let r = scheduleTask (wp_scheduler (co_pipeline c)) (te_environment (di_transport env)) (di_parse env) task
                (listWorkers (co_workers c)) (Some (co_store c))
      in case (de_status r, de_selectedWorker r) of
           (DECIDED_ASSIGNED, Some w) \<Rightarrow> Inr (ws_deviceId w)
         | _ \<Rightarrow> if co_simulation c then Inr SIM_DEVICE_ID else Inl (de_status r))"

definition timeout_ms :: "dispatch_env \<Rightarrow> job \<Rightarrow> ms" where
  "timeout_ms env j =
     (let envTimeoutMs = (case or_undef (te_environment (di_transport env) ''SWARMX_WORKLOAD_TIMEOUT_MS'') of
            None \<Rightarrow> 0
          | Some s \<Rightarrow> (case di_parseInt env s of None \<Rightarrow> 0 | Some n \<Rightarrow> n))
      in if 0 < envTimeoutMs then envTimeoutMs
         else max 30000 (30000 + js_round (of_int (jb_payloadBytes j) / (1024 * 1024) * 1500)))"

subsection \<open>One attempt, up to the await\<close>

definition time_details :: "int \<Rightarrow> stage_details" where
  "time_details ms = (task_details [])\<lparr>sd_currentTaskId := None, sd_executionTimeMs := Some ms\<rparr>"

definition video_details :: "job \<Rightarrow> string \<Rightarrow> stage_details" where
  "video_details j i = (task_details i)\<lparr>sd_currentChunkIndex := Some (jb_chunkIndex j),
     sd_totalChunks := Some (jb_totalChunks j), sd_startFrameIndex := Some (jb_startFrameIndex j),
     sd_frameCount := Some (jb_itemCount j)\<rparr>"

text \<open>Sending to a worker over the transport.  An exception leaves the \<open>try\<close>, whose \<open>finally\<close> releases the worker.\<close>

definition send_attempt :: "dispatch_env \<Rightarrow> ms \<Rightarrow> core \<Rightarrow> dispatch \<Rightarrow> string \<Rightarrow> core \<times> dispatch" where
  "send_attempt env now c d target =
     (case sendExecuteTask (di_transport env) (co_transport c) now target (dp_task d)
             (Some (di_base64 env (jb_payload (dp_job d)))) (Some (jb_itemCount (dp_job d))) of
        (t, Inl e) \<Rightarrow> (release (c\<lparr>co_transport := t\<rparr>) target, d\<lparr>dp_state := Threw (TransportThrew e)\<rparr>)
      | (t, Inr sent) \<Rightarrow>
          let c1 = c\<lparr>co_transport := t\<rparr>
          in if sent then (c1, d)
             else
               let c2 = video_stage (dp_job d) c1 now target Stage_FAILED None
               in (case recordTaskFailure (co_store c2) now (t_id (dp_task d)) target ''TRANSPORT_SEND_FAILED'' (Some (JObj []))
                         DEFAULT_MAX_RETRIES of
                     Inl e \<Rightarrow> (release c2 target, d\<lparr>dp_state := Threw (StoreThrew e)\<rparr>)
                   | Inr (s, _) \<Rightarrow> (release (with_store c2 s) target, d\<lparr>dp_state := Threw (SendRefused target)\<rparr>)))"

definition start_attempt :: "dispatch_env \<Rightarrow> ms \<Rightarrow> nat \<Rightarrow> core \<Rightarrow> dispatch \<Rightarrow> core \<times> dispatch" where
  "start_attempt env now k c d =
     (case place env c (dp_task d) of
        Inl status \<Rightarrow> (c, d\<lparr>dp_state := Threw (NotPlaced status (dp_attempt d + 1))\<rparr>)
      | Inr target \<Rightarrow>
          (case assignTask (co_store c) now (t_id (dp_task d)) target (timeout_ms env (dp_job d)) of
             Inl e \<Rightarrow> (c, d\<lparr>dp_state := Threw (StoreThrew e)\<rparr>)
           | Inr (s, _) \<Rightarrow>
               let c1 = with_store c s;
                   c2 = c1\<lparr>co_engine := acquireReservation (co_engine c1) target\<rparr>;
                   c3 = video_stage (dp_job d) c2 now target Stage_FETCHING (Some (video_details (dp_job d) (t_id (dp_task d))));
                   l = co_listeners c;
                   c4 = (with_pipeline c3 (onTaskFinished (co_pipeline c3) (t_id (dp_task d)) l))\<lparr>co_listeners := l + 1\<rparr>;
                   d1 = d\<lparr>dp_task := (dp_task d)\<lparr>t_assignedWorkerId := Some target\<rparr>,
                          dp_state := Awaiting target l now (now + timeout_ms env (dp_job d)) None\<rparr>
               in if in_simulator target
                  then ((video_stage (dp_job d) c4 now target Stage_EXECUTING None)
                          \<lparr>co_simulations := co_simulations c4 @ [(k, target)]\<rparr>, d1)
                  else send_attempt env now c4 d1 target))"

text \<open>The start of a dispatcher.  A chunk whose task is already in the store goes on with it; a single task is
  new.  A \<open>createTask\<close> that throws ends the dispatcher before it has done anything.\<close>

definition open_task :: "core \<Rightarrow> ms \<Rightarrow> job \<Rightarrow> store_error + (core \<times> task)" where
  "open_task c now j =
     (case (if jb_kind j = SingleJob then None else getTask (co_store c) (nt_id (jb_task j))) of
        Some task \<Rightarrow> Inr (c, task)
      | None \<Rightarrow>
          (case createTask (co_store c) now (jb_task j) of
             Inl e \<Rightarrow> Inl e
           | Inr (s, task) \<Rightarrow> Inr (with_store c s, task)))"

definition start_dispatch :: "dispatch_env \<Rightarrow> ms \<Rightarrow> job \<Rightarrow> core \<Rightarrow> core" where
  "start_dispatch env now j c =
     (case open_task c now j of
        Inl e \<Rightarrow> c
      | Inr (c1, task) \<Rightarrow>
          let c2 = (if jb_kind j = SingleJob then c1
                    else with_pipeline c1 (trackTaskInWorkload (co_pipeline c1) (jb_workloadId j) (nt_id (jb_task j))));
              d = \<lparr>dp_job = j, dp_task = task, dp_attempt = 0, dp_lastError = NoWorkerFound, dp_state = Placing\<rparr>
          in (case start_attempt env now (length (co_dispatches c2)) c2 d of
                (c3, d1) \<Rightarrow> c3\<lparr>co_dispatches := co_dispatches c3 @ [d1]\<rparr>))"

subsection \<open>The promise\<close>

text \<open>The calls of completion listeners: a promise is resolved once, by the listener of the attempt that it belongs to.\<close>

definition settle_dispatch :: "listener \<Rightarrow> completion \<Rightarrow> dispatch \<Rightarrow> dispatch" where
  "settle_dispatch l outcome d =
     (case dp_state d of
        Awaiting target l' start deadline None \<Rightarrow>
          if l' = l then d\<lparr>dp_state := Awaiting target l start deadline (Some outcome)\<rparr> else d
      | _ \<Rightarrow> d)"

definition deliver :: "ms \<Rightarrow> calls \<Rightarrow> core \<Rightarrow> core" where
  "deliver now calls c =
     c\<lparr>co_dispatches := fold (\<lambda>(l, r). map (settle_dispatch l (Heard r now))) calls (co_dispatches c)\<rparr>"

definition timer_fires :: "ms \<Rightarrow> nat \<Rightarrow> core \<Rightarrow> core" where
  "timer_fires now k c =
     (case dp_state (co_dispatches c ! k) of
        Awaiting target l start deadline None \<Rightarrow>
          if deadline \<le> now
          then c\<lparr>co_dispatches := (co_dispatches c)[k := settle_dispatch l TimedOut (co_dispatches c ! k)]\<rparr>
          else c
      | _ \<Rightarrow> c)"

text \<open>The output of a completed task: \<open>res.outputData || res.task.resultDestination\<close> for a chunk, which must not be empty;
  a single task takes whatever is defined.\<close>

definition completed_output :: "job_kind \<Rightarrow> completion \<Rightarrow> payload option" where
  "completed_output kind outcome =
     (case outcome of
        TimedOut \<Rightarrow> None
      | Heard r _ \<Rightarrow>
          if \<not> pr_success r then None
          else
            let dest = Text (t_resultDestination (pr_task r))
            in if kind = SingleJob then Some (case pr_outputData r of None \<Rightarrow> dest | Some p \<Rightarrow> p)
               else truthy_payload (Some (case truthy_payload (pr_outputData r) of None \<Rightarrow> dest | Some p \<Rightarrow> p)))"

definition execution_time :: "completion \<Rightarrow> ms \<Rightarrow> ms \<Rightarrow> int" where
  "execution_time outcome start now =
     (case outcome of
        TimedOut \<Rightarrow> now - start
      | Heard r heard \<Rightarrow>
          (case num_or_undef (pr_executionTimeMs r) of
             Some n \<Rightarrow> n
           | None \<Rightarrow> if heard - start = 0 then now - start else heard - start))"

definition failure_of :: "completion \<Rightarrow> string \<Rightarrow> last_error" where
  "failure_of outcome target =
     (case outcome of
        TimedOut \<Rightarrow> WaitTimedOut
      | Heard r _ \<Rightarrow> (case pr_error r of Some e \<Rightarrow> ResultRejected e | None \<Rightarrow> ExecutionFailedOn target))"

text \<open>After the await.  \<open>recordTaskFailure\<close> is called although a failed validation has recorded the failure already.\<close>

definition after_await :: "dispatch_env \<Rightarrow> ms \<Rightarrow> nat \<Rightarrow> core \<Rightarrow> dispatch \<Rightarrow> string \<Rightarrow> ms \<Rightarrow> completion \<Rightarrow> core \<times> dispatch" where
  "after_await env now k c d target start outcome =
     (case completed_output (jb_kind (dp_job d)) outcome of
        Some out \<Rightarrow>
          let ms = execution_time outcome start now;
              c1 = video_stage (dp_job d) c now target Stage_COMPLETED
                     (Some (time_details ms))
          in (release (if jb_kind (dp_job d) = VideoJob then mark_ready c1 target else c1) target,
              d\<lparr>dp_state := Returned out target ms\<rparr>)
      | None \<Rightarrow>
          let e = failure_of outcome target
          in if jb_kind (dp_job d) = SingleJob then (release c target, d\<lparr>dp_state := Threw (WorkerFailed e)\<rparr>)
             else
               let c1 = video_stage (dp_job d) c now target Stage_FAILED None;
                   d1 = d\<lparr>dp_lastError := e\<rparr>
               in (case recordTaskFailure (co_store c1) now (t_id (dp_task d)) target ''EXECUTION_FAILED''
                         (Some (JObj [(''error'', JStr (di_message env e))])) DEFAULT_MAX_RETRIES of
                     Inl se \<Rightarrow> (release c1 target, d1\<lparr>dp_state := Threw (StoreThrew se)\<rparr>)
                   | Inr (s, _) \<Rightarrow>
                       let c2 = release (with_store c1 s) target
                       in if dp_attempt d < MAX_CHUNK_RETRIES
                          then start_attempt env now k c2 (d1\<lparr>dp_attempt := dp_attempt d + 1\<rparr>)
                          else (c2, d1\<lparr>dp_state := Threw (AttemptsExhausted (MAX_CHUNK_RETRIES + 1) e)\<rparr>)))"

definition resume :: "dispatch_env \<Rightarrow> ms \<Rightarrow> nat \<Rightarrow> core \<Rightarrow> core" where
  "resume env now k c =
     (case dp_state (co_dispatches c ! k) of
        Awaiting target l start deadline (Some outcome) \<Rightarrow>
          (case after_await env now k c (co_dispatches c ! k) target start outcome of
             (c1, d) \<Rightarrow> c1\<lparr>co_dispatches := (co_dispatches c1)[k := d]\<rparr>)
      | _ \<Rightarrow> c)"

subsection \<open>The answer of a simulated worker\<close>

text \<open>The callbacks on \<open>executeTask(..)\<close>.  An exception of \<open>recordTaskFailure\<close> in the last of them is lost.\<close>

definition simulation_failed :: "ms \<Rightarrow> job \<Rightarrow> string \<Rightarrow> string \<Rightarrow> string \<Rightarrow> core \<Rightarrow> core" where
  "simulation_failed now j i target message c =
     (let c1 = video_stage j c now target Stage_FAILED None
      in case recordTaskFailure (co_store c1) now i target
                (if jb_kind j = SingleJob then ''SIMULATION_EXECUTION_FAILED'' else ''SIMULATION_ERROR'')
                (Some (JObj [(''error'', JStr message)])) DEFAULT_MAX_RETRIES of
           Inl _ \<Rightarrow> c1
         | Inr (s, _) \<Rightarrow> with_store c1 s)"

definition simulation_answers :: "dispatch_env \<Rightarrow> ms \<Rightarrow> job \<Rightarrow> string \<Rightarrow> string \<Rightarrow> string + task_result_payload \<Rightarrow> core \<Rightarrow> core" where
  "simulation_answers env now j i target answer c =
     (case answer of
        Inl message \<Rightarrow> simulation_failed now j i target message c
      | Inr payload \<Rightarrow>
          let c1 = video_stage j c now target Stage_TRANSMITTING None
          in (case handleTaskResult (te_validators (di_transport env)) (co_pipeline c1) now payload of
                Inl e \<Rightarrow> simulation_failed now j i target (di_result_message env e) c1
              | Inr (p, _, calls) \<Rightarrow>
                  let c2 = with_pipeline c1 p;
                      c3 = video_stage j c2 now target Stage_COMPLETED None
                  in deliver now calls (if jb_kind j = VideoJob then mark_ready c3 target else c3)))"

definition answer :: "dispatch_env \<Rightarrow> ms \<Rightarrow> nat \<Rightarrow> string + task_result_payload \<Rightarrow> core \<Rightarrow> core" where
  "answer env now n a c =
     (case co_simulations c ! n of
        (k, target) \<Rightarrow>
          let d = co_dispatches c ! k
          in simulation_answers env now (dp_job d) (t_id (dp_task d)) target a
               (c\<lparr>co_simulations := take n (co_simulations c) @ drop (Suc n) (co_simulations c)\<rparr>))"

end
