(* ===== verification/Dispatch_Theorems.thy ===== *)
theory Dispatch_Theorems
  imports Chunk_Dispatch Transport_Theorems Decision_Theorems
begin

text \<open>
  Properties of the dispatchers of the IPC server, across the task store, the pipeline, the transport and the decision
  engine: what they hold reserved, whose completion they hear, and what becomes of their retries.
\<close>

subsection \<open>The events of the core\<close>

datatype core_event =
    Submits ms job
  | TimerFires ms nat
  | Resumes ms nat
  | Answers ms nat "string + task_result_payload"
  | Serves ms transport_event

definition serve :: "dispatch_env \<Rightarrow> ms \<Rightarrow> transport_event \<Rightarrow> core \<Rightarrow> core" where
  "serve env now ev c =
     (let t = transport_exec (di_transport env) ev ((co_transport c)\<lparr>tr_calls := []\<rparr>)
      in deliver now (tr_calls t) (c\<lparr>co_transport := t\<rparr>))"

fun core_exec :: "dispatch_env \<Rightarrow> core_event \<Rightarrow> core \<Rightarrow> core" where
  "core_exec env (Submits now j) c = start_dispatch env now j c"
| "core_exec env (TimerFires now k) c = (if k < length (co_dispatches c) then timer_fires now k c else c)"
| "core_exec env (Resumes now k) c = (if k < length (co_dispatches c) then resume env now k c else c)"
| "core_exec env (Answers now n a) c = (if n < length (co_simulations c) then answer env now n a c else c)"
| "core_exec env (Serves now ev) c = serve env now ev c"

definition start_core :: "transport \<Rightarrow> decision_config \<Rightarrow> kernel_registry \<Rightarrow> bool \<Rightarrow> core" where
  "start_core t config registry simulation = \<lparr>co_transport = t, co_engine = new_decision_engine config registry,
     co_simulation = simulation, co_simulations = [], co_listeners = 0, co_dispatches = []\<rparr>"

subsection \<open>What the steps leave alone\<close>

lemma with_simps [simp]:
  "co_engine (with_store c s) = co_engine c" "co_engine (with_pipeline c p) = co_engine c"
  "co_engine (report_stage c now w st ds) = co_engine c" "co_engine (mark_ready c w) = co_engine c"
  "co_dispatches (with_store c s) = co_dispatches c" "co_dispatches (with_pipeline c p) = co_dispatches c"
  "co_dispatches (report_stage c now w st ds) = co_dispatches c" "co_dispatches (mark_ready c w) = co_dispatches c"
  "co_dispatches (release c w) = co_dispatches c" "co_engine (release c w) = releaseReservation (co_engine c) w"
  by (simp_all add: with_store_def with_pipeline_def report_stage_def mark_ready_def release_def)

lemma video_stage_simps [simp]:
  "co_engine (video_stage j c now w st ds) = co_engine c" "co_dispatches (video_stage j c now w st ds) = co_dispatches c"
  by (simp_all add: video_stage_def)

lemma simulation_simps [simp]:
  "co_engine (simulation_failed now j i w m c) = co_engine c"
  "co_dispatches (simulation_failed now j i w m c) = co_dispatches c"
  "co_engine (deliver now cs c) = co_engine c"
  by (simp_all add: simulation_failed_def deliver_def Let_def split: sum.splits prod.splits)

lemma open_task_frame:
  "open_task c now j = Inr (c', task) \<Longrightarrow> co_engine c' = co_engine c \<and> co_dispatches c' = co_dispatches c"
  by (auto simp: open_task_def split: option.splits sum.splits if_splits)

abbreviation fresh_dispatch :: "job \<Rightarrow> task \<Rightarrow> dispatch" where
  "fresh_dispatch j task \<equiv> \<lparr>dp_job = j, dp_task = task, dp_attempt = 0, dp_lastError = NoWorkerFound, dp_state = Placing\<rparr>"

abbreviation tracking :: "job \<Rightarrow> core \<Rightarrow> core" where
  "tracking j c \<equiv> (if jb_kind j = SingleJob then c
     else with_pipeline c (trackTaskInWorkload (co_pipeline c) (jb_workloadId j) (nt_id (jb_task j))))"

lemma start_dispatch_cases:
  obtains (refused) e where "open_task c now j = Inl e" "start_dispatch env now j c = c"
  | (started) c1 task c2 c3 d where "open_task c now j = Inr (c1, task)" "c2 = tracking j c1"
      "start_attempt env now (length (co_dispatches c2)) c2 (fresh_dispatch j task) = (c3, d)"
      "start_dispatch env now j c = c3\<lparr>co_dispatches := co_dispatches c3 @ [d]\<rparr>"
proof (cases "open_task c now j")
  case (Inl e)
  then show ?thesis using refused by (simp add: start_dispatch_def)
next
  case (Inr r)
  obtain c1 task where r: "r = (c1, task)" by fastforce
  obtain c3 d where "start_attempt env now (length (co_dispatches (tracking j c1))) (tracking j c1) (fresh_dispatch j task) = (c3, d)"
    by fastforce
  then show ?thesis using started [of c1 task "tracking j c1" c3 d] Inr r by (simp add: start_dispatch_def Let_def)
qed

lemma start_attempt_dispatches: "start_attempt env now k c d = (c', d') \<Longrightarrow> co_dispatches c' = co_dispatches c"
  by (auto simp: start_attempt_def send_attempt_def Let_def split: sum.splits prod.splits if_splits)

lemma after_await_dispatches: "after_await env now k c d w s x = (c', d') \<Longrightarrow> co_dispatches c' = co_dispatches c"
  by (auto simp: after_await_def Let_def dest: start_attempt_dispatches split: option.splits sum.splits prod.splits if_splits)

subsection \<open>Reservations\<close>

fun awaits :: "dispatch_state \<Rightarrow> string option" where
  "awaits (Awaiting w _ _ _ _) = Some w"
| "awaits _ = None"

definition weight :: "string \<Rightarrow> dispatch \<Rightarrow> nat" where
  "weight w d = (if awaits (dp_state d) = Some w then 1 else 0)"

definition reserved :: "core \<Rightarrow> string \<Rightarrow> nat" where
  "reserved c w = sum_list (map (weight w) (co_dispatches c))"

definition balanced :: "core \<Rightarrow> bool" where
  "balanced c \<longleftrightarrow> reservations_ok (co_engine c) \<and> (\<forall>w. counters_of (co_engine c) w = reserved c w)"

lemmas acquire_counts = rm.exec_refines [where op = "Acquire d" for d, simplified] rm.exec_inv [where op = "Acquire d" for d, simplified]
lemmas release_counts = rm.exec_refines [where op = "Release d" for d, simplified] rm.exec_inv [where op = "Release d" for d, simplified]

lemma send_attempt_balance:
  assumes "send_attempt env now c d target = (c', d')" and ok: "reservations_ok (co_engine c)"
    and "0 < counters_of (co_engine c) target" and "awaits (dp_state d) = Some target"
  shows "reservations_ok (co_engine c') \<and> co_dispatches c' = co_dispatches c \<and>
    (\<forall>w. counters_of (co_engine c') w + (if w = target then 1 else 0) = counters_of (co_engine c) w + weight w d')"
  using assms release_counts [OF ok, of target]
  by (auto simp: send_attempt_def Let_def weight_def split: prod.splits sum.splits if_splits)

lemma start_attempt_balance:
  assumes "start_attempt env now k c d = (c', d')" and ok: "reservations_ok (co_engine c)"
  shows "reservations_ok (co_engine c') \<and> co_dispatches c' = co_dispatches c \<and>
    (\<forall>w. counters_of (co_engine c') w = counters_of (co_engine c) w + weight w d')"
proof (cases "place env c (dp_task d)")
  case (Inl st)
  then show ?thesis using assms by (auto simp: start_attempt_def weight_def)
next
  case (Inr target)
  show ?thesis
  proof (cases "assignTask (co_store c) now (t_id (dp_task d)) target (timeout_ms env (dp_job d))")
    case (Inl e)
    then show ?thesis using assms Inr by (auto simp: start_attempt_def weight_def)
  next
    case (Inr r)
    note acq = acquire_counts [OF ok, of target]
    show ?thesis
    proof (cases "in_simulator target")
      case True
      then show ?thesis using assms(1) \<open>place env c (dp_task d) = Inr target\<close> Inr acq
        by (auto simp: start_attempt_def weight_def Let_def split: prod.splits)
    next
      case False
      then obtain c1 d1 where send: "send_attempt env now c1 d1 target = (c', d')"
        and c1: "co_engine c1 = acquireReservation (co_engine c) target" "co_dispatches c1 = co_dispatches c"
        and d1: "awaits (dp_state d1) = Some target"
        using assms(1) \<open>place env c (dp_task d) = Inr target\<close> Inr by (force simp: start_attempt_def Let_def split: prod.splits)
      show ?thesis
        using send_attempt_balance [OF send _ _ d1] acq unfolding c1 by (simp split: if_splits) metis
    qed
  qed
qed

lemma after_await_balance:
  assumes "after_await env now k c d target start outcome = (c', d')" and ok: "reservations_ok (co_engine c)"
    and "0 < counters_of (co_engine c) target"
  shows "reservations_ok (co_engine c') \<and> co_dispatches c' = co_dispatches c \<and>
    (\<forall>w. counters_of (co_engine c') w + (if w = target then 1 else 0) = counters_of (co_engine c) w + weight w d')"
proof -
  note rel = release_counts [OF ok, of target]
  consider (over) "awaits (dp_state d') = None" "co_engine c' = releaseReservation (co_engine c) target"
      "co_dispatches c' = co_dispatches c"
    | (again) c1 d1 where "start_attempt env now k c1 d1 = (c', d')" "co_engine c1 = releaseReservation (co_engine c) target"
      "co_dispatches c1 = co_dispatches c"
    using assms(1) by (auto simp: after_await_def Let_def split: option.splits sum.splits prod.splits if_splits)
  then show ?thesis
  proof cases
    case over
    then show ?thesis using rel assms(3) by (auto simp: weight_def)
  next
    case again
    then show ?thesis using start_attempt_balance [OF again(1)] rel assms(3) by auto
  qed
qed

lemma weight_settle [simp]: "weight w (settle_dispatch l outcome d) = weight w d"
  by (auto simp: settle_dispatch_def weight_def split: dispatch_state.splits option.splits)

lemma reserved_deliver [simp]: "reserved (deliver now calls c) w = reserved c w"
proof -
  have "sum_list (map (weight w) (fold (\<lambda>(l, r). map (settle_dispatch l (Heard r now))) calls ds)) = sum_list (map (weight w) ds)" for ds
    by (induction calls arbitrary: ds) (auto simp: comp_def split: prod.splits)
  then show ?thesis by (simp add: reserved_def deliver_def)
qed

lemma reserved_frame [simp]:
  "reserved (with_pipeline c p) w = reserved c w" "reserved (mark_ready c v) w = reserved c w"
  "reserved (video_stage j c now v st ds) w = reserved c w" "reserved (simulation_failed now j i v m c) w = reserved c w"
  "reserved (c\<lparr>co_simulations := sims\<rparr>) w = reserved c w" "reserved (c\<lparr>co_transport := t\<rparr>) w = reserved c w"
  by (simp_all add: reserved_def)

lemma answers_frame:
  "co_engine (simulation_answers env now j i target a c) = co_engine c \<and>
   reserved (simulation_answers env now j i target a c) w = reserved c w"
  by (auto simp: simulation_answers_def Let_def split: sum.splits prod.splits)

lemma reserved_update:
  "k < length ds \<Longrightarrow> sum_list (map (weight w) (ds[k := d])) + weight w (ds ! k) = sum_list (map (weight w) ds) + weight w d"
  by (induction ds arbitrary: k) (auto split: nat.splits)

lemma balanced_cong:
  "balanced c \<Longrightarrow> co_engine c' = co_engine c \<Longrightarrow> (\<And>w. reserved c' w = reserved c w) \<Longrightarrow> balanced c'"
  by (simp add: balanced_def)

interpretation reserving: machine "core_exec env" balanced for env
proof
  fix c :: core and ev :: core_event
  assume ok: "balanced c"
  show "balanced (core_exec env ev c)"
  proof (cases ev)
    case (Submits now j)
    show ?thesis
    proof (cases rule: start_dispatch_cases [of c now j env])
      case (refused e)
      then show ?thesis using ok Submits by simp
    next
      case (started c1 task c2 c3 d)
      have "co_engine c2 = co_engine c" "co_dispatches c2 = co_dispatches c"
        using open_task_frame [OF started(1)] started(2) by auto
      then show ?thesis using start_attempt_balance [OF started(3)] ok started(4) Submits
        by (auto simp: balanced_def reserved_def)
    qed
  next
    case (TimerFires now k)
    have "sum_list (map (weight w) ((co_dispatches c)[k := settle_dispatch l x (co_dispatches c ! k)])) =
        sum_list (map (weight w) (co_dispatches c))" if "k < length (co_dispatches c)" for w l x
      using reserved_update [OF that, of w "settle_dispatch l x (co_dispatches c ! k)"] by simp
    then show ?thesis
      using ok TimerFires by (auto simp: timer_fires_def balanced_def reserved_def split: dispatch_state.splits option.splits)
  next
    case (Resumes now k)
    show ?thesis
    proof (cases "k < length (co_dispatches c) \<and>
        (\<exists>w l s dl x. dp_state (co_dispatches c ! k) = Awaiting w l s dl (Some x))")
      case True
      then obtain w l s dl x where k: "k < length (co_dispatches c)"
        and st: "dp_state (co_dispatches c ! k) = Awaiting w l s dl (Some x)" by blast
      obtain c1 d where aft: "after_await env now k c (co_dispatches c ! k) w s x = (c1, d)" by fastforce
      note upd = reserved_update [OF k]
      have wk: "weight v (co_dispatches c ! k) = (if v = w then 1 else 0)" for v using st by (simp add: weight_def)
      have "weight w (co_dispatches c ! k) \<le> reserved c w"
        unfolding reserved_def by (rule member_le_sum_list) (use k in simp_all)
      then have "0 < counters_of (co_engine c) w" using ok wk by (simp add: balanced_def)
      note aw = after_await_balance [OF aft _ this]
      have a: "reservations_ok (co_engine c1)" "co_dispatches c1 = co_dispatches c" using aw ok by (simp_all add: balanced_def)
      have a3: "counters_of (co_engine c1) v + weight v (co_dispatches c ! k) = reserved c v + weight v d" for v
        unfolding wk using aw [THEN conjunct2, THEN conjunct2, THEN spec, of v] ok by (simp add: balanced_def)
      have "counters_of (co_engine c1) v = sum_list (map (weight v) ((co_dispatches c)[k := d]))" for v
        using a3 [of v] upd [of v d] by (simp add: reserved_def)
      then show ?thesis using Resumes k st aft a(1,2) by (simp add: resume_def balanced_def reserved_def)
    qed (use ok Resumes in \<open>auto simp: resume_def split: dispatch_state.splits option.splits\<close>)
  next
    case (Answers now n a)
    obtain k target where "co_simulations c ! n = (k, target)" by fastforce
    then show ?thesis
      using ok Answers by (auto simp: answer_def Let_def answers_frame elim!: balanced_cong)
  next
    case (Serves now ev')
    then show ?thesis using ok by (auto simp: serve_def Let_def elim!: balanced_cong)
  qed
qed

lemma reserved_length: "sum_list (map (weight w) ds) = length (filter (\<lambda>d. awaits (dp_state d) = Some w) ds)"
  by (induction ds) (simp_all add: weight_def)

text \<open>Reservations and waits agree: in every run of the core, whatever the interleaving of its dispatchers with the
  events of the workers and whichever way they end (with a result, with an exception on any path, by a timeout or in the
  middle of their retries), the number of reservations that the decision engine counts for a worker is the number of
  dispatchers that await a result of it.  No reservation leaks and none is released twice.\<close>

theorem reservations_match_waits:
  "let c = fold (core_exec env) evs (start_core t config registry simulation)
   in getInFlightCount (co_engine c) w =
        int (length (filter (\<lambda>d. awaits (dp_state d) = Some w) (co_dispatches c)))"
proof -
  let ?c0 = "start_core t config registry simulation"
  have "balanced ?c0"
    by (auto simp: balanced_def start_core_def reserved_def reservations_ok_def counters_of_def getInFlightCount_def
        new_decision_engine_def num_or_undef_def)
  then have ok: "balanced (fold (core_exec env) evs ?c0)" by (rule reserving.run_inv)
  have "reserved c w = length (filter (\<lambda>d. awaits (dp_state d) = Some w) (co_dispatches c))" for c
    using reserved_length [of w "co_dispatches c"] by (simp only: reserved_def)
  then show ?thesis
    using ok inFlight_nonneg [of "co_engine (fold (core_exec env) evs ?c0)" w]
    unfolding Let_def balanced_def counters_of_def by (metis nat_0_le)
qed

end
