(* ===== verification/Dispatch_Retries.thy ===== *)
theory Dispatch_Retries
  imports Dispatch_Theorems
begin

text \<open>
  What becomes of the retries of a dispatcher.  The events of the core change the task store by its operations only, so
  a property that every operation keeps is kept by every event; one such property is that the retry count of a task
  never falls.
\<close>

lemma co_store_simps [simp]:
  "co_store (with_store c s) = s" "co_store (with_pipeline c p) = wp_taskStore p"
  "co_store (report_stage c now w st ds) = co_store c" "co_store (mark_ready c w) = co_store c"
  "co_store (release c w) = co_store c" "co_store (deliver now cs c) = co_store c"
  "co_store (video_stage j c now w st ds) = co_store c"
  by (simp_all add: with_store_def with_pipeline_def report_stage_def mark_ready_def release_def deliver_def video_stage_def)

lemma track_store [simp]: "wp_taskStore (trackTaskInWorkload p w i) = wp_taskStore p" "wp_taskStore (onTaskFinished p i l) = wp_taskStore p"
  by (simp_all add: trackTaskInWorkload_def onTaskFinished_def split: option.splits)

subsection \<open>Properties of the store that its operations keep\<close>

locale store_property =
  fixes P :: "task_store \<Rightarrow> bool"
  assumes exec: "P s \<Longrightarrow> P (store_exec s now op)"
begin

lemmas loss = exec [where op = "WorkerLoss w mx" for w mx, unfolded store_exec.simps]
lemmas expire = exec [where op = "Expire mx" for mx, unfolded store_exec.simps]
lemmas renew = exec [where op = "RenewWorker w d" for w d, unfolded store_exec.simps]

lemma created: "createTask s now nt = Inr (s', t) \<Longrightarrow> P s \<Longrightarrow> P s'"
  using exec [of s now "Create nt"] by (simp add: committed_def)

lemma assigned: "assignTask s now i w d = Inr (s', t) \<Longrightarrow> P s \<Longrightarrow> P s'"
  using exec [of s now "Assign i w d"] by (simp add: committed_def)

lemma failure: "recordTaskFailure s now i w reason det mx = Inr (s', t) \<Longrightarrow> P s \<Longrightarrow> P s'"
  using exec [of s now "RecordFailure i w reason det mx"] by (simp add: committed_def)

lemma dropped: "P (tr_store t) \<Longrightarrow> P (tr_store (drop_worker t now d))"
  by (simp add: drop_worker_def loss)

lemma swept: "P (tr_store t) \<Longrightarrow> P (tr_store (fold (sweep_worker now) ws t))"
proof (induction ws arbitrary: t)
  case (Cons w ws)
  have "P (tr_store (sweep_worker now w t))"
    using Cons.prems by (auto simp: sweep_worker_def Let_def close_socket_def intro!: loss split: option.splits)
  then show ?case using Cons.IH by simp
qed simp

lemma watched: "P (tr_store t) \<Longrightarrow> P (tr_store (watchdog t now))"
  unfolding watchdog_def sweepDeadWorkers_def by (intro swept) (simp add: expire)

lemma result: "handleTaskResult ve p now payload = Inr (p', res, calls) \<Longrightarrow> P (wp_taskStore p) \<Longrightarrow> P (wp_taskStore p')"
  using handleTaskResult_store [of ve p now payload p' res calls] exec by metis

lemma closed: "P (tr_store t) \<Longrightarrow> P (tr_store (on_close t now ws))"
  by (auto simp: on_close_def Let_def close_socket_def intro!: loss split: option.splits)

lemma bound: "tr_store (bind_sender t ws msg) = tr_store t"
  by (auto simp: bind_sender_def Let_def close_socket_def set_device_def split: option.splits)

lemma telemetry: "P (tr_store t) \<Longrightarrow> P (tr_store (fst (handle_telemetry te t now ws envelope)))"
  by (auto simp: handle_telemetry_def Let_def set_device_def intro!: renew split: prod.splits sum.splits option.splits)

lemma task_result: "P (tr_store t) \<Longrightarrow> P (tr_store (fst (handle_result te t now ws d envelope i)))"
  by (auto simp: handle_result_def report_completed_def Let_def intro: result split: prod.splits sum.splits option.splits)

lemma confirm: "P (tr_store t) \<Longrightarrow> P (tr_store (fst (handle_confirm te t fv ws c profile)))"
  by (auto simp: handle_confirm_def Let_def split: prod.splits sum.splits option.splits)

lemma handled: "P (tr_store t) \<Longrightarrow> P (tr_store (fst (handleWorkerMessage te t fv ws msg)))"
  by (cases msg) (auto simp: handle_beacon_def addDiscoveredWorker_def Let_def close_socket_def
      intro: telemetry task_result confirm loss split: prod.splits sum.splits option.splits)

lemma message: "P (tr_store t) \<Longrightarrow> P (tr_store (on_message te t fv ws msg))"
  using handled [of "bind_sender t ws msg" te fv ws msg] bound [of t ws msg]
  by (auto simp: on_message_def split: prod.splits sum.splits option.splits)

lemma sent: "tr_store (fst (sendExecuteTask te t now w task i n)) = tr_store t"
  by (auto simp: sendExecuteTask_def Let_def split: prod.splits sum.splits option.splits)

lemma transport: "P (tr_store t) \<Longrightarrow> P (tr_store (transport_exec te ev t))"
proof (cases ev)
  case (ImmediateDue fv)
  then show "P (tr_store t) \<Longrightarrow> ?thesis"
    by (auto simp: run_immediate_def sendPairingRequest_def Let_def split: list.splits immediate.splits prod.splits option.splits)
qed (auto simp: on_connection_def getDiscoveredWorkers_def Let_def sent message closed watched exec)

lemma sending: "P (co_store c) \<Longrightarrow> P (co_store (fst (send_attempt env now c d target)))"
  using sent [of "di_transport env" "co_transport c" now target "dp_task d" "Some (di_base64 env (jb_payload (dp_job d)))"
      "Some (jb_itemCount (dp_job d))"]
  by (auto simp: send_attempt_def Let_def intro: failure split: prod.splits sum.splits)

lemma attempt: "P (co_store c) \<Longrightarrow> P (co_store (fst (start_attempt env now k c d)))"
  by (auto simp: start_attempt_def Let_def dest: assigned intro!: sending split: sum.splits prod.splits)

lemma awaited: "P (co_store c) \<Longrightarrow> P (co_store (fst (after_await env now k c d target start outcome)))"
  by (auto simp: after_await_def Let_def dest: failure intro!: attempt split: option.splits sum.splits prod.splits)

lemma dispatched:
  assumes "P (co_store c)"
  shows "P (co_store (start_dispatch env now j c))"
proof (cases rule: start_dispatch_cases [of c now j env])
  case (started c1 task c2 c3 d)
  have "P (co_store c1)"
    using started(1) assms by (auto simp: open_task_def dest: created split: option.splits sum.splits if_splits)
  then have "P (co_store c2)" using started(2) by simp
  then have "P (co_store c3)" using attempt [of c2 env now _ "fresh_dispatch j task"] started(3) by (metis fst_conv)
  then show ?thesis using started(4) by simp
qed (use assms in simp)

lemma simulation: "P (co_store c) \<Longrightarrow> P (co_store (simulation_failed now j i target m c))"
  by (auto simp: simulation_failed_def Let_def dest: failure split: sum.splits prod.splits)

lemma answered: "P (co_store c) \<Longrightarrow> P (co_store (simulation_answers env now j i target a c))"
  by (auto simp: simulation_answers_def Let_def dest: result intro!: simulation split: sum.splits prod.splits)

lemma core: "P (co_store c) \<Longrightarrow> P (co_store (core_exec env ev c))"
proof (cases ev)
  case (TimerFires now k)
  then show "P (co_store c) \<Longrightarrow> ?thesis" by (auto simp: timer_fires_def split: dispatch_state.splits option.splits)
next
  case (Resumes now k)
  assume "P (co_store c)"
  then have "P (co_store (fst (after_await env now k c (co_dispatches c ! k) w s x)))" for w s x by (rule awaited)
  with Resumes \<open>P (co_store c)\<close> show ?thesis
    by (auto simp: resume_def split: dispatch_state.splits option.splits prod.splits) (metis fst_conv)
next
  case (Answers now n a)
  assume "P (co_store c)"
  with Answers show ?thesis by (auto simp: answer_def Let_def intro!: answered split: prod.splits)
next
  case (Serves now ev')
  then show "P (co_store c) \<Longrightarrow> ?thesis"
    using transport [of "(co_transport c)\<lparr>tr_calls := []\<rparr>" "di_transport env" ev'] by (simp add: serve_def Let_def)
qed (simp add: dispatched)

end

subsection \<open>Retry counts never fall\<close>

definition grew :: "task_store \<Rightarrow> task_store \<Rightarrow> bool" where
  "grew s0 s \<longleftrightarrow> store_ok s \<and> (\<forall>i t0. getTask s0 i = Some t0 \<longrightarrow>
     (\<exists>t. getTask s i = Some t \<and> t_retryCount t0 \<le> t_retryCount t))"

lemma row_step_retries: "row_step b r r' \<Longrightarrow> t_retryCount r \<le> t_retryCount r'"
  by (erule row_stepE) simp_all

lemma rows_step_grew:
  assumes "rows_step b s s'" and "store_ok s'"
  shows "grew s s'"
proof -
  obtain g where g: "ts_rows s' = map g (ts_rows s)" "\<And>r. r \<in> set (ts_rows s) \<Longrightarrow> row_step b r (g r)"
    using assms(1) by (auto simp: rows_step_def)
  have "find_row (ts_rows s') i = map_option g (find_row (ts_rows s) i)" for i
    unfolding g(1) by (rule find_row_map) (use g(2) row_step_frame in blast)
  then show ?thesis
    using assms(2) g(2) row_step_retries by (fastforce simp: grew_def getTask_def dest: find_row_SomeD)
qed

lemma find_row_snoc: "find_row (rows @ [r]) i = (case find_row rows i of None \<Rightarrow> find_row [r] i | Some q \<Rightarrow> Some q)"
  by (induction rows) (simp_all add: find_row_def)

lemma create_grew:
  assumes "createTask s now nt = Inr (s', t)" and "store_ok s'"
  shows "grew s s'"
proof -
  obtain r where "ts_rows s' = ts_rows s @ [r]" using createTask_rows(2) [OF assms(1)] by auto
  then show ?thesis using assms(2) by (auto simp: grew_def getTask_def find_row_snoc)
qed

interpretation growing: store_property "grew s0" for s0
proof
  fix s :: task_store and now op
  assume g: "grew s0 s"
  then have ok: "store_ok (store_exec s now op)" by (simp add: grew_def store_ok_exec)
  have "grew s (store_exec s now op)"
  proof (cases "is_create op")
    case True
    then obtain nt where "op = Create nt" by (cases op) auto
    then show ?thesis
      using create_exec [of s now nt] create_grew [of s now nt] ok g by (auto simp: grew_def)
  next
    case False
    then show ?thesis using exec_rows [of s op now] g ok by (intro rows_step_grew) (auto simp: grew_def store_ok_def)
  qed
  then show "grew s0 (store_exec s now op)" using g by (fastforce simp: grew_def)
qed

subsection \<open>A dispatcher and the retry count of its task\<close>

text \<open>The dispatcher keeps the task that it read first, and the count in the store is ahead of it by its retries.\<close>

definition behind :: "task_store \<Rightarrow> dispatch \<Rightarrow> bool" where
  "behind s d \<longleftrightarrow> (\<exists>t. getTask s (t_id (dp_task d)) = Some t \<and> t_retryCount (dp_task d) + dp_attempt d \<le> t_retryCount t)"

lemma behind_grew: "grew s s' \<Longrightarrow> behind s d \<Longrightarrow> behind s' d"
  by (fastforce simp: behind_def grew_def)

lemma behind_same:
  "t_id (dp_task d') = t_id (dp_task d) \<Longrightarrow> t_retryCount (dp_task d') = t_retryCount (dp_task d) \<Longrightarrow>
   dp_attempt d' = dp_attempt d \<Longrightarrow> behind s d' = behind s d"
  by (simp add: behind_def)

lemma grew_refl: "store_ok s \<Longrightarrow> grew s s"
  by (auto simp: grew_def)

lemma start_attempt_same:
  "start_attempt env now k c d = (c', d') \<Longrightarrow> t_id (dp_task d') = t_id (dp_task d) \<and>
     t_retryCount (dp_task d') = t_retryCount (dp_task d) \<and> dp_attempt d' = dp_attempt d"
  by (auto simp: start_attempt_def send_attempt_def Let_def split: sum.splits prod.splits if_splits)

lemma start_attempt_behind:
  assumes "start_attempt env now k c d = (c', d')" and "store_ok (co_store c)" and "behind (co_store c) d"
  shows "behind (co_store c') d'"
proof -
  have "grew (co_store c) (co_store c')"
    using growing.attempt [OF grew_refl [OF assms(2)], of env now k d] assms(1) by simp
  then show ?thesis using assms(3) start_attempt_same [OF assms(1)] behind_grew behind_same by metis
qed

lemma failure_counts:
  assumes "recordTaskFailure s now i w reason det mx = Inr (s', t')" and "getTask s i = Some t"
  shows "getTask s' i = Some t' \<and> t_retryCount t' = Suc (t_retryCount t)"
  using assms by (auto simp: recordTaskFailure_def reread_def getTask_def sql_update_def Let_def find_row_map
      dest: find_row_SomeD split: option.splits)

lemma after_await_behind:
  assumes "after_await env now k c d target start outcome = (c', d')" and ok: "store_ok (co_store c)"
    and b: "behind (co_store c) d"
  shows "behind (co_store c') d'"
proof -
  have grew: "grew (co_store c) (co_store c')"
    using growing.awaited [OF grew_refl [OF ok], of env now k d target start outcome] assms(1) by simp
  consider (over) "dp_task d' = dp_task d" "dp_attempt d' = dp_attempt d"
    | (again) c1 d1 reason det t' where "start_attempt env now k c1 d1 = (c', d')" "dp_task d1 = dp_task d"
      "dp_attempt d1 = dp_attempt d + 1"
      "recordTaskFailure (co_store c) now (t_id (dp_task d)) target reason det DEFAULT_MAX_RETRIES = Inr (co_store c1, t')"
    using assms(1) by (auto simp: after_await_def Let_def split: option.splits sum.splits prod.splits if_splits)
  then show ?thesis
  proof cases
    case over
    then show ?thesis using behind_grew [OF grew b] by (simp add: behind_def)
  next
    case again
    obtain t where t: "getTask (co_store c) (t_id (dp_task d)) = Some t" "t_retryCount (dp_task d) + dp_attempt d \<le> t_retryCount t"
      using b by (auto simp: behind_def)
    have "store_ok (co_store c1)" using growing.failure [OF again(4) grew_refl [OF ok]] by (simp add: grew_def)
    moreover have "behind (co_store c1) d1"
      using failure_counts [OF again(4) t(1)] t(2) again(2,3) by (simp add: behind_def)
    ultimately show ?thesis by (rule start_attempt_behind [OF again(1)])
  qed
qed

lemma open_task_cases:
  assumes "open_task c now j = Inr (c', task)"
  obtains (found) "c' = c" "getTask (co_store c) (nt_id (jb_task j)) = Some task"
  | (created) s where "createTask (co_store c) now (jb_task j) = Inr (s, task)" "c' = with_store c s"
proof (cases "if jb_kind j = SingleJob then None else getTask (co_store c) (nt_id (jb_task j))")
  case None
  then show ?thesis using assms created by (auto simp: open_task_def split: sum.splits)
next
  case (Some t)
  then show ?thesis using assms found by (simp add: open_task_def split: if_splits)
qed

lemma open_task_behind:
  assumes "open_task c now j = Inr (c', task)" and "store_ok (co_store c)"
  shows "behind (co_store c') (fresh_dispatch j task) \<and> store_ok (co_store c')"
  using assms(1)
proof (cases rule: open_task_cases)
  case found
  then have "t_id task = nt_id (jb_task j)" by (auto simp: getTask_def dest: find_row_SomeD)
  with found assms(2) show ?thesis by (simp add: behind_def)
next
  case (created s)
  note create = created(1) and c' = created(2)
  have "store_ok s" using growing.created [OF create grew_refl [OF assms(2)]] by (simp add: grew_def)
  moreover have "getTask s (t_id task) = Some (mapRowToTask (task\<lparr>t_assignedWorkerId := or_undef (t_assignedWorkerId task)\<rparr>))"
  proof -
    have id: "t_id task = nt_id (jb_task j)" using createTask_rows(1) [OF create] by simp
    have "find_row (ts_rows (co_store c)) (t_id task) = None"
      unfolding find_row_None id by (rule createTask_rows(3) [OF create])
    moreover have "ts_rows s = ts_rows (co_store c) @ [task\<lparr>t_assignedWorkerId := or_undef (nt_assignedWorkerId (jb_task j))\<rparr>]"
      using createTask_rows(1,2) [OF create] by simp
    moreover have "t_assignedWorkerId task = nt_assignedWorkerId (jb_task j)"
      unfolding createTask_rows(1) [OF create] by (simp add: full_task_def)
    ultimately show ?thesis by (simp add: getTask_def find_row_snoc) (simp add: find_row_def)
  qed
  ultimately show ?thesis using c' by (simp add: behind_def)
qed

definition retries_ok :: "core \<Rightarrow> bool" where
  "retries_ok c \<longleftrightarrow> store_ok (co_store c) \<and> (\<forall>d\<in>set (co_dispatches c). behind (co_store c) d)"

lemma behind_settle [simp]: "behind s (settle_dispatch l outcome d) = behind s d"
  by (rule behind_same) (auto simp: settle_dispatch_def split: dispatch_state.splits option.splits)

text \<open>The promises that are resolved change no dispatcher as far as its retries go.\<close>

definition alike :: "dispatch list \<Rightarrow> dispatch list \<Rightarrow> bool" where
  "alike ds ds' \<longleftrightarrow> (\<forall>d'\<in>set ds'. \<exists>d\<in>set ds. \<forall>s. behind s d' = behind s d)"

lemma alike_refl [simp]: "alike ds ds"
  by (auto simp: alike_def)

lemma alike_deliver [simp]: "alike (co_dispatches c) (co_dispatches (deliver now cs c))"
proof -
  have "alike ds (fold (\<lambda>(l, r). map (settle_dispatch l (Heard r now))) cs ds)" for ds
    by (induction cs arbitrary: ds) (fastforce simp: alike_def)+
  then show ?thesis by (simp add: deliver_def)
qed

lemma alike_answers: "alike (co_dispatches c) (co_dispatches (simulation_answers env now j i w a c))"
  using alike_deliver [where c = "c\<lparr>co_dispatches := co_dispatches c\<rparr>"]
  by (auto simp: simulation_answers_def Let_def deliver_def split: sum.splits prod.splits)

lemma core_behind:
  assumes "retries_ok c" and "d' \<in> set (co_dispatches (core_exec env ev c))"
  shows "(\<exists>d\<in>set (co_dispatches c). \<forall>s. behind s d' = behind s d) \<or> behind (co_store (core_exec env ev c)) d'"
proof (cases ev)
  case (Submits now j)
  show ?thesis
  proof (cases rule: start_dispatch_cases [of c now j env])
    case (started c1 task c2 c3 d)
    have c1: "behind (co_store c1) (fresh_dispatch j task)" "store_ok (co_store c1)"
      using open_task_behind [OF started(1)] assms(1) by (simp_all add: retries_ok_def)
    then have "behind (co_store c3) d"
      using start_attempt_behind [OF started(3)] started(2) by simp
    moreover have "co_dispatches c3 = co_dispatches c"
      using start_attempt_dispatches [OF started(3)] started(2) open_task_frame [OF started(1)] by simp
    ultimately show ?thesis using started(4) assms(2) Submits by auto
  qed (use assms(2) Submits in auto)
next
  case (TimerFires now k)
  then show ?thesis
    using assms(2) by (auto simp: timer_fires_def dest!: set_update_subset_insert [THEN subsetD]
        split: dispatch_state.splits option.splits if_splits)
next
  case (Resumes now k)
  show ?thesis
  proof (cases "core_exec env ev c = c")
    case False
    then obtain w l s dl x where k: "k < length (co_dispatches c)"
      and st: "dp_state (co_dispatches c ! k) = Awaiting w l s dl (Some x)"
      using Resumes by (auto simp: resume_def split: if_splits dispatch_state.splits option.splits)
    obtain c1 d where aft: "after_await env now k c (co_dispatches c ! k) w s x = (c1, d)" by fastforce
    have "behind (co_store c1) d"
      using after_await_behind [OF aft] assms(1) k by (simp add: retries_ok_def)
    moreover have "co_dispatches c1 = co_dispatches c" by (rule after_await_dispatches [OF aft])
    moreover have "core_exec env ev c = c1\<lparr>co_dispatches := (co_dispatches c1)[k := d]\<rparr>"
      using Resumes k st aft by (simp add: resume_def)
    ultimately show ?thesis using assms(2) by (auto dest!: set_update_subset_insert [THEN subsetD])
  qed (use assms(2) in auto)
next
  case (Answers now n a)
  show ?thesis
  proof (cases "n < length (co_simulations c)")
    case True
    obtain k target where "co_simulations c ! n = (k, target)" by fastforce
    then have "\<exists>d\<in>set (co_dispatches c). \<forall>s. behind s d' = behind s d"
      using assms(2) Answers True alike_answers [where c = "c\<lparr>co_simulations := take n (co_simulations c) @ drop (Suc n) (co_simulations c)\<rparr>"]
      by (auto simp: answer_def Let_def alike_def)
    then show ?thesis ..
  qed (use assms(2) Answers in auto)
next
  case (Serves now ev')
  then show ?thesis
    using assms(2) alike_deliver [where c = "c\<lparr>co_transport := _\<rparr>"] by (simp add: serve_def Let_def alike_def)
qed

interpretation trailing: machine "core_exec env" retries_ok for env
proof
  fix c :: core and ev :: core_event
  assume ok: "retries_ok c"
  then have grew: "grew (co_store c) (co_store (core_exec env ev c))"
    by (intro growing.core grew_refl) (simp add: retries_ok_def)
  show "retries_ok (core_exec env ev c)"
    unfolding retries_ok_def
  proof (intro conjI ballI)
    fix d'
    assume "d' \<in> set (co_dispatches (core_exec env ev c))"
    then show "behind (co_store (core_exec env ev c)) d'"
      using core_behind [OF ok, of d' env ev] ok behind_grew [OF grew] by (auto simp: retries_ok_def)
  qed (use grew in \<open>simp add: grew_def\<close>)
qed

lemma start_retries_ok: "store_ok (tr_store t) \<Longrightarrow> retries_ok (start_core t config registry simulation)"
  by (simp add: retries_ok_def start_core_def)

text \<open>C37. A retry is never heard: \<open>sendExecuteTask\<close> tells the worker the attempt number \<open>task.retryCount + 1\<close> of the task
  object that the dispatcher read before its first attempt, while the pipeline compares a result with the retry count in
  the store, which each failed attempt has raised.  So in every run, a result that echoes the number that the worker
  was told for a second or third attempt is ignored, whatever it contains; the dispatcher can only time out.\<close>

theorem retries_go_unheard:
  assumes "store_ok (tr_store t)" and "c = fold (core_exec env) evs (start_core t config registry simulation)"
    and "d \<in> set (co_dispatches c)" and "0 < dp_attempt d"
    and "rp_taskId payload = t_id (dp_task d)" and "rp_attemptNumber payload = Some (int (t_retryCount (dp_task d) + 1))"
  shows "\<exists>r. begin_result (co_pipeline c) payload = Ignored r \<and> \<not> pr_success r"
proof -
  have "retries_ok c" unfolding assms(2) by (rule trailing.run_inv) (rule start_retries_ok [OF assms(1)])
  then obtain task where "getTask (co_store c) (t_id (dp_task d)) = Some task"
    "t_retryCount (dp_task d) + dp_attempt d \<le> t_retryCount task"
    using assms(3) by (auto simp: retries_ok_def behind_def)
  then show ?thesis using assms(4-6) by (auto simp: begin_result_def ignored_def)
qed

text \<open>A matrix chunk on a simulated worker that does not answer in time, twice.\<close>

definition demo_job :: job where
  "demo_job = \<lparr>jb_kind = MatrixJob, jb_workloadId = ''w'', jb_chunkIndex = 0, jb_totalChunks = 1, jb_startFrameIndex = 0,
     jb_itemCount = 1, jb_task = race_task, jb_payload = [], jb_payloadBytes = 0\<rparr>"

definition demo_dispatch_env :: dispatch_env where
  "demo_dispatch_env = \<lparr>di_transport = demo_te, di_parse = (\<lambda>_. None), di_parseInt = (\<lambda>_. None), di_base64 = (\<lambda>_. []),
     di_message = (\<lambda>_. []), di_result_message = (\<lambda>_. [])\<rparr>"

abbreviation demo_core :: core where
  "demo_core \<equiv> start_core (new_transport 1 new_service demo_pipeline) DEFAULT_DECISION_CONFIG [] True"

definition demo_events :: "core_event list" where
  "demo_events = [Submits 0 demo_job, TimerFires 30000 0, Resumes 30001 0]"

lemma demo_retry:
  "map (\<lambda>d. (dp_attempt d, t_id (dp_task d), t_retryCount (dp_task d)))
     (co_dispatches (fold (core_exec demo_dispatch_env) demo_events demo_core)) = [(1, ''t'', 0)]"
  by code_simp

theorem retries_go_unheard_witness:
  "\<exists>r. begin_result (co_pipeline (fold (core_exec demo_dispatch_env) demo_events demo_core))
      ((race_result ''good'')\<lparr>rp_attemptNumber := Some 1\<rparr>) = Ignored r \<and> \<not> pr_success r"
proof -
  obtain d where d: "co_dispatches (fold (core_exec demo_dispatch_env) demo_events demo_core) = [d]"
    and facts: "dp_attempt d = 1" "t_id (dp_task d) = ''t''" "t_retryCount (dp_task d) = 0"
    using demo_retry by auto
  show ?thesis
  proof (rule retries_go_unheard [OF _ refl])
    show "store_ok (tr_store (new_transport 1 new_service demo_pipeline))"
      by (simp add: store_ok_def new_transport_def demo_pipeline_def new_pipeline_def empty_store_def)
    show "d \<in> set (co_dispatches (fold (core_exec demo_dispatch_env) demo_events demo_core))" by (simp add: d)
  qed (simp_all add: facts race_result_def)
qed

end
