(* ===== verification/Chunk_Jobs.thy ===== *)
theory Chunk_Jobs
  imports Chunk_Dispatch Matrix_Chunks Image_Chunks Video_Chunks Binary_Framing
begin

text \<open>
  The jobs that \<open>dispatchChunkWithRetry\<close> and its variants for images and videos of \<^verbatim>\<open>core/src/ipc_server.ts\<close> make of a
  chunk: the id of its task, the descriptor and the constraints.  The id of a matrix chunk ends in the time and a random
  text, here one argument; the ids of image and video chunks are made of the workload id and the index alone.
\<close>

definition int_text :: "int \<Rightarrow> string" where
  "int_text i = (if i < 0 then ''-'' @ decimal (nat (- i)) else decimal (nat i))"

text \<open>\<open>String(i).padStart(2, '0')\<close>.\<close>

definition pad2 :: "int \<Rightarrow> string" where
  "pad2 i = (let s = int_text i in replicate (2 - length s) (CHR ''0'') @ s)"

definition chunk_task :: "json_codec \<Rightarrow> string \<Rightarrow> string \<Rightarrow> json \<Rightarrow> string \<Rightarrow> new_task" where
  "chunk_task jc i inputRef descriptor parentWorkloadId =
     \<lparr>nt_id = i, nt_inputRef = inputRef, nt_computationDescriptor = jc_stringify jc descriptor,
      nt_requiredResources = Some (no_resources\<lparr>minCpuCores := Some 1, minRamMb := Some 64\<rparr>),
      nt_dependencies = Some [], nt_executionConstraints = Some [(''parentWorkloadId'', JStr parentWorkloadId)],
      nt_resultDestination = Some ''memory'', nt_assignedWorkerId = None, nt_status = Some PENDING\<rparr>"

definition jint :: "int \<Rightarrow> json" where
  "jint i = JNum (of_int i)"

definition kernel_descriptor :: "string \<Rightarrow> (string \<times> json) list \<Rightarrow> json" where
  "kernel_descriptor kernelId parameters = JObj [(''kernelId'', JStr kernelId), (''parameters'', JObj parameters)]"

definition matrix_descriptor :: "matrix_chunk_spec \<Rightarrow> json" where
  "matrix_descriptor spec =
     (let m = ms_metadata spec
      in kernel_descriptor ''matrix_multiply_v1''
           [(''M'', jint (mm_rowCount m)), (''K'', jint (mm_K m)), (''N'', jint (mm_N m)),
            (''chunkIndex'', jint (mm_chunkIndex m)), (''totalChunks'', jint (mm_totalChunks m)),
            (''rowStart'', jint (mm_rowStart m)), (''rowEnd'', jint (mm_rowEnd m))])"

definition matrix_job :: "json_codec \<Rightarrow> string \<Rightarrow> matrix_chunk_spec \<Rightarrow> job" where
  "matrix_job jc fresh spec =
     (let m = ms_metadata spec; parentWorkloadId = mm_parentWorkloadId m
      in \<lparr>jb_kind = MatrixJob, jb_workloadId = parentWorkloadId, jb_chunkIndex = mm_chunkIndex m,
          jb_totalChunks = mm_totalChunks m, jb_startFrameIndex = 0, jb_itemCount = 1,
          jb_task = chunk_task jc (parentWorkloadId @ ''-c'' @ int_text (mm_chunkIndex m) @ ''-'' @ fresh) ''inline_payload''
            (matrix_descriptor spec) parentWorkloadId,
          jb_payload = ms_payload spec, jb_payloadBytes = int (length (ms_payload spec))\<rparr>)"

text \<open>The variants take the parent id from the workload, with a constant when the workload has none.\<close>

definition image_parent :: "string option \<Rightarrow> string" where
  "image_parent workloadId = str_or workloadId ''wkl-image-parent''"

definition image_descriptor :: "image_chunk_spec \<Rightarrow> json" where
  "image_descriptor spec =
     (let m = is_metadata spec
      in kernel_descriptor ''image_filter_box_blur_v1''
           [(''width'', jint (im_width m)), (''height'', jint (im_inRowCount m)), (''radius'', jint (im_radius m)),
            (''mode'', JStr (im_mode m)), (''channels'', jint (im_channels m)),
            (''chunkIndex'', jint (im_chunkIndex m)), (''totalChunks'', jint (im_totalChunks m))])"

definition image_job :: "json_codec \<Rightarrow> string option \<Rightarrow> image_chunk_spec \<Rightarrow> job" where
  "image_job jc workloadId spec =
     (let m = is_metadata spec; parentWorkloadId = image_parent workloadId
      in \<lparr>jb_kind = ImageJob, jb_workloadId = parentWorkloadId, jb_chunkIndex = im_chunkIndex m,
          jb_totalChunks = im_totalChunks m, jb_startFrameIndex = 0, jb_itemCount = 1,
          jb_task = chunk_task jc (parentWorkloadId @ ''-chunk-'' @ pad2 (im_chunkIndex m)) ''inline_chunk_payload''
            (image_descriptor spec) parentWorkloadId,
          jb_payload = is_payload spec, jb_payloadBytes = int (length (is_payload spec))\<rparr>)"

definition video_parent :: "string option \<Rightarrow> string" where
  "video_parent workloadId = str_or workloadId ''wkl-video-parent''"

definition video_descriptor :: "video_chunk_spec \<Rightarrow> json" where
  "video_descriptor spec =
     (let m = vs_metadata spec
      in kernel_descriptor ''video_frame_analysis_v1''
           [(''width'', jint (vm_width m)), (''height'', jint (vm_height m)), (''channels'', jint (vm_channels m)),
            (''mode'', JStr (vm_mode m)), (''frameCount'', jint (vm_frameCount m)),
            (''startFrameIndex'', jint (vm_startFrameIndex m)),
            (''chunkIndex'', jint (vm_chunkIndex m)), (''totalChunks'', jint (vm_totalChunks m))])"

definition video_job :: "json_codec \<Rightarrow> string option \<Rightarrow> video_chunk_spec \<Rightarrow> job" where
  "video_job jc workloadId spec =
     (let m = vs_metadata spec; parentWorkloadId = video_parent workloadId
      in \<lparr>jb_kind = VideoJob, jb_workloadId = parentWorkloadId, jb_chunkIndex = vm_chunkIndex m,
          jb_totalChunks = vm_totalChunks m, jb_startFrameIndex = vm_startFrameIndex m, jb_itemCount = vm_frameCount m,
          jb_task = chunk_task jc (parentWorkloadId @ ''-chunk-'' @ pad2 (vm_chunkIndex m)) ''inline_chunk_payload''
            (video_descriptor spec) parentWorkloadId,
          jb_payload = vs_payload spec, jb_payloadBytes = int (length (vs_payload spec))\<rparr>)"

text \<open>What a returned chunk contributes: \<open>Buffer.from(data, 'base64')\<close> of a text.\<close>

fun output_bytes :: "(string \<Rightarrow> buffer) \<Rightarrow> payload \<Rightarrow> buffer" where
  "output_bytes unbase64 (Bytes b) = b"
| "output_bytes unbase64 (Text s) = unbase64 s"

fun output_video :: "payload \<Rightarrow> video_output" where
  "output_video (Bytes b) = VBytes b"
| "output_video (Text s) = VText s"

end
