(* ===== verification/Simulation_Worker.thy ===== *)
theory Simulation_Worker
  imports Chunk_Jobs
begin

text \<open>
  \<open>SimulationWorkerAdapter\<close> of \<^verbatim>\<open>core/src/simulation_worker.ts\<close>: its configuration, the pool of worker threads, the
  profiles and telemetry of the virtual workers, the message handler of a thread, and \<open>executeTask\<close> with its fallback to
  the kernels in the process.  Whether a thread can be created, whether it answers within its thirty seconds, the clock
  readings and the process id are arguments.

  The parameters of a task are read as integers; a parameter that is none counts as absent.  \<open>JSON.stringify\<close> and
  \<open>JSON.parse\<close> are parameters, as in the other theories, and so is the memory behind a short \<open>Buffer.from(text)\<close>,
  which the thread transfers whole.
\<close>

subsection \<open>Configuration and threads\<close>

record simulation_config =
  sc_enabled :: bool
  sc_failureMode :: string
  sc_simulatedDelayMs :: int

record partial_config =
  pc_enabled :: "bool option"
  pc_failureMode :: "string option"
  pc_simulatedDelayMs :: "int option"

record virtual_worker =
  vw_deviceId :: string
  vw_deviceName :: string
  vw_cpuCores :: int
  vw_totalRamMb :: int
  vw_gpuModel :: string
  vw_speedMultiplier :: rat

text \<open>The names start with the emoji of a test tube.\<close>

definition test_tube :: string where
  "test_tube = [CHR 0xF0, CHR 0x9F, CHR 0xA7, CHR 0xAA]"

definition VIRTUAL_WORKER_PROFILES :: "virtual_worker list" where
  "VIRTUAL_WORKER_PROFILES =
     [\<lparr>vw_deviceId = ''sim-worker-virtual-m2-air'', vw_deviceName = test_tube @ '' Virtual M2 Air (Simulation Mode)'',
       vw_cpuCores = 8, vw_totalRamMb = 16384, vw_gpuModel = ''Apple M2 GPU (8 cores)'', vw_speedMultiplier = 1\<rparr>,
      \<lparr>vw_deviceId = ''sim-worker-virtual-m2-pro'', vw_deviceName = test_tube @ '' Virtual M2 Pro (Simulation Mode)'',
       vw_cpuCores = 10, vw_totalRamMb = 16384, vw_gpuModel = ''Apple M2 Pro GPU (16 cores)'', vw_speedMultiplier = 13 / 10\<rparr>,
      \<lparr>vw_deviceId = ''sim-worker-virtual-m2-max'', vw_deviceName = test_tube @ '' Virtual M2 Max (Simulation Mode)'',
       vw_cpuCores = 12, vw_totalRamMb = 32768, vw_gpuModel = ''Apple M2 Max GPU (30 cores)'', vw_speedMultiplier = 17 / 10\<rparr>,
      \<lparr>vw_deviceId = ''sim-worker-virtual-m3-ultra'', vw_deviceName = test_tube @ '' Virtual M3 Ultra (Simulation Mode)'',
       vw_cpuCores = 24, vw_totalRamMb = 65536, vw_gpuModel = ''Apple M3 Ultra GPU (60 cores)'', vw_speedMultiplier = 26 / 10\<rparr>]"

text \<open>\<open>find(..) || VIRTUAL_WORKER_PROFILES[0]\<close>.\<close>

definition virtual_worker_for :: "string option \<Rightarrow> virtual_worker" where
  "virtual_worker_for deviceId =
     (case find (\<lambda>p. Some (vw_deviceId p) = deviceId) VIRTUAL_WORKER_PROFILES of
        Some p \<Rightarrow> p
      | None \<Rightarrow> hd VIRTUAL_WORKER_PROFILES)"

record simulation_worker =
  sw_config :: simulation_config
  sw_threadPool :: "(string, nat) jsmap"

definition new_simulation_worker :: simulation_worker where
  "new_simulation_worker = \<lparr>sw_config = \<lparr>sc_enabled = False, sc_failureMode = ''NONE'', sc_simulatedDelayMs = 0\<rparr>, sw_threadPool = []\<rparr>"

definition isEnabled :: "simulation_worker \<Rightarrow> bool" where
  "isEnabled s = sc_enabled (sw_config s)"

text \<open>A thread that cannot be created is left out of the pool.\<close>

definition ensureThreadPool :: "(string \<Rightarrow> bool) \<Rightarrow> simulation_worker \<Rightarrow> simulation_worker" where
  "ensureThreadPool creates s =
     s\<lparr>sw_threadPool := fold (\<lambda>p pool.
         if jhas pool (vw_deviceId p) \<or> \<not> creates (vw_deviceId p) then pool else jset pool (vw_deviceId p) 0)
       VIRTUAL_WORKER_PROFILES (sw_threadPool s)\<rparr>"

definition setConfig :: "(string \<Rightarrow> bool) \<Rightarrow> simulation_worker \<Rightarrow> partial_config \<Rightarrow> simulation_worker \<times> simulation_config" where
  "setConfig creates s newConfig =
     (let old = sw_config s;
          config = \<lparr>sc_enabled = (case pc_enabled newConfig of Some b \<Rightarrow> b | None \<Rightarrow> sc_enabled old),
            sc_failureMode = (case pc_failureMode newConfig of Some m \<Rightarrow> m | None \<Rightarrow> sc_failureMode old),
            sc_simulatedDelayMs = (case pc_simulatedDelayMs newConfig of Some d \<Rightarrow> d | None \<Rightarrow> sc_simulatedDelayMs old)\<rparr>;
          s1 = s\<lparr>sw_config := config\<rparr>
      in (if sc_enabled config then ensureThreadPool creates s1 else s1, config))"

definition getConfig :: "simulation_worker \<Rightarrow> simulation_config" where
  "getConfig s = sw_config s"

definition stop_threads :: "simulation_worker \<Rightarrow> simulation_worker" where
  "stop_threads s = s\<lparr>sw_threadPool := []\<rparr>"

subsection \<open>Profiles and telemetry\<close>

definition virtual_profile :: "virtual_worker \<Rightarrow> capability_profile" where
  "virtual_profile p = \<lparr>cp_capabilitySchemaVersion = 1, cp_deviceId = vw_deviceId p, cp_deviceName = vw_deviceName p,
     cp_osType = Darwin, cp_osVersion = ''15.0 (Virtual)'', cp_cpuArch = ''arm64'', cp_cpuCores = vw_cpuCores p,
     cp_totalRamMb = vw_totalRamMb p, cp_hasGpu = True, cp_gpuModel = Some (vw_gpuModel p),
     cp_gpuAccelerationType = Some ''Metal (Virtual)'',
     cp_supportedKernels = Some [''image_filter_box_blur_v1'', ''matrix_multiply_v1''],
     cp_transferBandwidthBytesPerSec = None\<rparr>"

definition getAllCapabilityProfiles :: "capability_profile list" where
  "getAllCapabilityProfiles = map virtual_profile VIRTUAL_WORKER_PROFILES"

definition getCapabilityProfile :: "string option \<Rightarrow> capability_profile" where
  "getCapabilityProfile deviceId = virtual_profile (virtual_worker_for deviceId)"

definition virtual_telemetry :: "simulation_worker \<Rightarrow> ms \<Rightarrow> virtual_worker \<Rightarrow> worker_telemetry" where
  "virtual_telemetry s now p = \<lparr>tm_deviceId = vw_deviceId p, tm_timestampMs = now, tm_batteryLevel = 95 / 100,
     tm_isCharging = True, tm_thermalState = NOMINAL, tm_cpuUtilization = 1 / 10,
     tm_availableRamMb = js_round (of_int (vw_totalRamMb p) * 8 / 10),
     tm_isEligible = Some (sc_failureMode (sw_config s) \<noteq> ''DISCONNECTED'')\<rparr>"

definition getAllTelemetries :: "simulation_worker \<Rightarrow> ms \<Rightarrow> worker_telemetry list" where
  "getAllTelemetries s now = map (virtual_telemetry s now) VIRTUAL_WORKER_PROFILES"

definition getTelemetry :: "simulation_worker \<Rightarrow> ms \<Rightarrow> string option \<Rightarrow> worker_telemetry" where
  "getTelemetry s now deviceId = virtual_telemetry s now (virtual_worker_for deviceId)"

subsection \<open>The kernels of a thread and of the process\<close>

record simulation_env =
  si_ops :: f32_ops
  si_sqrt :: "rat \<Rightarrow> rat"
  si_codec :: json_codec
  si_parse :: "string \<Rightarrow> json option"
  si_unbase64 :: "string \<Rightarrow> buffer"
  si_base64 :: "buffer \<Rightarrow> string"
  si_backing :: "buffer \<Rightarrow> buffer"
  si_pid :: int

datatype thread_error = Misaligned | InvalidLength

definition contains_text :: "string \<Rightarrow> string \<Rightarrow> bool" where
  "contains_text s t = list_ex (\<lambda>i. take (length t) (drop i s) = t) [0..<Suc (length s)]"

definition int_param :: "json option \<Rightarrow> string \<Rightarrow> int \<Rightarrow> int" where
  "int_param params f d =
     (case json_field params f of
        Some (JNum r) \<Rightarrow> if r = of_int \<lfloor>r\<rfloor> then \<lfloor>r\<rfloor> else d
      | _ \<Rightarrow> d)"

definition mode_of :: "json option \<Rightarrow> string" where
  "mode_of params = (case json_field params ''mode'' of Some (JStr s) \<Rightarrow> s | _ \<Rightarrow> ''RGBA'')"

text \<open>One row of the thread's horizontal pass.  The thread does not look at the length of its input: a byte past the end
  is \<open>undefined\<close>, which turns the running sum into \<open>NaN\<close> for the rest of the row, and \<open>NaN\<close> is stored as 0.\<close>

definition px_or_nan :: "buffer \<Rightarrow> nat \<Rightarrow> nat \<Rightarrow> nat \<Rightarrow> int \<Rightarrow> int option" where
  "px_or_nan src n stride base i =
     (let p = base + clamp_idx n i * stride in if p < length src then Some (uint (src ! p)) else None)"

definition nan_plus :: "int option \<Rightarrow> int option \<Rightarrow> int option" where
  "nan_plus a b = (case (a, b) of (Some x, Some y) \<Rightarrow> Some (x + y) | _ \<Rightarrow> None)"

definition nan_line :: "nat \<Rightarrow> nat \<Rightarrow> nat \<Rightarrow> nat \<Rightarrow> buffer \<Rightarrow> buffer \<Rightarrow> buffer" where
  "nan_line radius n stride base src dst =
     (let windowCount = 2 * int radius + 1;
          mean = (\<lambda>ws. case ws of None \<Rightarrow> 0 | Some s \<Rightarrow> word_of_int (s div windowCount));
          windowSum = fold (\<lambda>k s. nan_plus s (px_or_nan src n stride base k)) [- int radius..int radius] (Some 0)
      in snd (fold (\<lambda>x (ws, d).
           let leftIdx = int x - int radius - 1; rightIdx = int x + int radius;
               ws' = nan_plus ws (nan_plus (px_or_nan src n stride base rightIdx)
                       (map_option uminus (px_or_nan src n stride base leftIdx)))
           in (ws', d[base + x * stride := mean ws'])) [1..<n] (windowSum, dst[base := mean windowSum])))"

definition thread_blur :: "buffer \<Rightarrow> nat \<Rightarrow> nat \<Rightarrow> nat \<Rightarrow> nat \<Rightarrow> buffer" where
  "thread_blur input width height channels radius =
     (let blank = replicate (width * height * channels) 0;
          temp = fold (\<lambda>y. fold (\<lambda>c. nan_line radius width channels (y * width * channels + c) input)
                   [0..<channels]) [0..<height] blank
      in fold (\<lambda>x. fold (\<lambda>c. blur_line radius height (width * channels) (x * channels + c) temp)
           [0..<channels]) [0..<width] blank)"

text \<open>The handler of a message in the worker thread.\<close>

definition run_thread :: "simulation_env \<Rightarrow> string \<Rightarrow> json option \<Rightarrow> buffer \<Rightarrow> thread_error + buffer" where
  "run_thread env kernelId params payload =
     (if contains_text kernelId ''matrix_multiply'' then
        let M = int_param params ''M'' 0; K = int_param params ''K'' 0; N = int_param params ''N'' 0
        in if length payload mod 4 \<noteq> 0 then Inl Misaligned
           else if M * N < 0 then Inl InvalidLength
           else Inr (bytes_of (if 0 < M \<and> 0 < N then gemm_loops (si_ops env) (floats_of payload) (nat M) (nat K) (nat N)
                               else replicate (nat (M * N)) (0, 0, 0, 0)))
      else if kernelId = ''video_frame_analysis_v1'' then
        Inr (si_backing env (json_bytes (si_codec env) (JArr (map metrics_json
          (video_frame_analysis (si_sqrt env) (nat (int_param params ''width'' 512)) (nat (int_param params ''height'' 512))
            (mode_channels (mode_of params)) (nat (int_param params ''frameCount'' 1))
            (nat (int_param params ''startFrameIndex'' 0)) payload)))))
      else
        let width = int_param params ''width'' 0; height = int_param params ''height'' 0;
            channels = mode_channels (mode_of params)
        in if width * height < 0 then Inl InvalidLength
           else if width \<le> 0 \<or> height \<le> 0 then Inr (replicate (nat (width * height) * channels) 0)
           else Inr (thread_blur payload (nat width) (nat height) channels (nat (int_param params ''radius'' 2))))"

definition computeInProcess :: "simulation_env \<Rightarrow> string \<Rightarrow> json option \<Rightarrow> buffer \<Rightarrow> buffer" where
  "computeInProcess env kernelId params inputBuffer =
     (if contains_text kernelId ''matrix_multiply''
      then computeMatrixMultiply (si_ops env) inputBuffer (int_param params ''M'' 0) (int_param params ''K'' 0) (int_param params ''N'' 0)
      else blur_in_process (nat (int_param params ''width'' 0)) (nat (int_param params ''height'' 0))
             (mode_channels (mode_of params)) (nat (int_param params ''radius'' 2)) inputBuffer)"

subsection \<open>Tasks\<close>

text \<open>There is no thread for the worker, or it answers after a time, or it does not answer within its timeout.\<close>

datatype thread_outcome = NoThread | ThreadAnswers int | ThreadStalls

text \<open>\<open>config\<close> is the configuration at the call, \<open>later\<close> that after the simulated delay; \<open>sinceCall\<close> is the time since the call.\<close>

definition executeTask ::
  "simulation_env \<Rightarrow> simulation_config \<Rightarrow> simulation_config \<Rightarrow> task \<Rightarrow> payload option \<Rightarrow> int \<Rightarrow> thread_outcome \<Rightarrow> int \<Rightarrow>
   string + task_result_payload" where
  "executeTask env config later task payloadInput itemCount thread sinceCall =
     (if \<not> sc_enabled config then Inl ''Simulation worker is currently disabled''
      else if sc_failureMode config = ''DISCONNECTED''
      then Inl ''Simulation worker is in simulated DISCONNECTED failure state''
      else if sc_failureMode later = ''TASK_FAILURE'' then
        Inr \<lparr>rp_taskId = t_id task, rp_workerId = str_or (t_assignedWorkerId task) SIM_DEVICE_ID, rp_outputData = Text [],
             rp_executionTimeMs = sinceCall, rp_attemptNumber = None, rp_itemCount = Some itemCount,
             rp_workerHostname = Some (test_tube @ '' Simulated Mac (Virtual Environment)''), rp_workerPid = Some (si_pid env)\<rparr>
      else
        let targetWorker = virtual_worker_for (t_assignedWorkerId task);
            inputBuffer = (case truthy_payload payloadInput of None \<Rightarrow> [] | Some p \<Rightarrow> output_bytes (si_unbase64 env) p);
            desc = si_parse env (t_computationDescriptor task);
            kernelId = (case truthy_str (json_field desc ''kernelId'') of Some k \<Rightarrow> k | None \<Rightarrow> ''image_filter_box_blur_v1'');
            params = json_field desc ''parameters'';
            (outputPayload, executionTimeMs) =
              (if inputBuffer = [] then (Text [], 0)
               else case (thread, run_thread env kernelId params inputBuffer) of
                      (ThreadAnswers elapsed, Inr out) \<Rightarrow> (Bytes out, elapsed)
                    | _ \<Rightarrow> (Bytes (computeInProcess env kernelId params inputBuffer), sinceCall))
        in Inr \<lparr>rp_taskId = t_id task, rp_workerId = str_or (t_assignedWorkerId task) (vw_deviceId targetWorker),
                rp_outputData =
                  (case (payloadInput, outputPayload) of
                     (Some (Bytes _), out) \<Rightarrow> out
                   | (_, Bytes b) \<Rightarrow> Text (si_base64 env b)
                   | (_, out) \<Rightarrow> out),
                rp_executionTimeMs = max 1 (if executionTimeMs = 0 then sinceCall else executionTimeMs),
                rp_attemptNumber = None, rp_itemCount = Some itemCount, rp_workerHostname = Some (vw_deviceName targetWorker),
                rp_workerPid = Some (si_pid env)\<rparr>)"

end
