(* ===== verification/Chunked_Workloads.thy ===== *)
theory Chunked_Workloads
  imports Chunk_Jobs
begin

text \<open>
  \<open>executeChunkedMatMul\<close>, \<open>executeChunkedImageFilter\<close> and \<open>executeChunkedVideoAnalysis\<close> of
  \<^verbatim>\<open>core/src/ipc_server.ts\<close>: a workload is partitioned, its chunks are handed to dispatchers, and when all have
  returned their outputs are assembled.  Matrices and images start all dispatchers at once; a video has a pool of
  consumers that take the next chunk when theirs has returned.  A run is a value with the indexes of the chunks that
  are awaited and of those that have returned, and every arrival of a result is a step.

  Timings that only the telemetry of a response shows are left out.  A dimension that is no integer counts as
  \<open>NaN\<close>.
\<close>

subsection \<open>Workloads and their parameters\<close>

record workload =
  wl_workloadId :: "string option"
  wl_kernelId :: string
  wl_parameters :: "(string \<times> json) list"
  wl_totalPayloadBytes :: int
  wl_rawPayloadBuffer :: "buffer option"
  wl_payloadBase64 :: "string option"
  wl_itemCount :: "int option"
  wl_uri :: "string option"
  wl_batchId :: "json option"

record server_env =
  se_dispatch :: dispatch_env
  se_codec :: json_codec
  se_unbase64 :: "string \<Rightarrow> buffer"
  se_unbase64_text :: "string \<Rightarrow> string"
  se_memory :: "nat \<Rightarrow> byte"

text \<open>A value in a condition.\<close>

fun truthy :: "json option \<Rightarrow> bool" where
  "truthy None = False"
| "truthy (Some JNull) = False"
| "truthy (Some (JBool b)) = b"
| "truthy (Some (JNum r)) = (r \<noteq> 0)"
| "truthy (Some (JStr s)) = (s \<noteq> [])"
| "truthy (Some _) = True"

text \<open>\<open>Number(params.f || params.g || .. || default)\<close>.\<close>

definition number_param :: "json_codec \<Rightarrow> (string \<times> json) list \<Rightarrow> string list \<Rightarrow> int \<Rightarrow> int option" where
  "number_param jc params keys d =
     (let v = (case filter (\<lambda>f. truthy (map_of params f)) keys of [] \<Rightarrow> JNum (of_int d) | f # _ \<Rightarrow> the (map_of params f))
      in case js_number jc v of
           Some r \<Rightarrow> if r = of_int \<lfloor>r\<rfloor> then Some \<lfloor>r\<rfloor> else None
         | None \<Rightarrow> None)"

definition at_least :: "int option \<Rightarrow> int \<Rightarrow> bool" where
  "at_least x n \<longleftrightarrow> (case x of None \<Rightarrow> False | Some v \<Rightarrow> n \<le> v)"

text \<open>\<open>String(params.mode || 'RGBA')\<close>.\<close>

definition mode_param :: "json_codec \<Rightarrow> (string \<times> json) list \<Rightarrow> string" where
  "mode_param jc params =
     (let v = map_of params ''mode''
      in if truthy v then (case the v of JStr s \<Rightarrow> s | j \<Rightarrow> jc_text jc j) else ''RGBA'')"

definition raw_payload :: "server_env \<Rightarrow> workload \<Rightarrow> buffer" where
  "raw_payload env w =
     (case wl_rawPayloadBuffer w of Some b \<Rightarrow> b | None \<Rightarrow> se_unbase64 env (str_or (wl_payloadBase64 w) []))"

subsection \<open>Plans\<close>

datatype plan =
    MatrixPlan int int int "matrix_chunk_spec list"
  | ImagePlan int int int "image_chunk_spec list"
  | VideoPlan int "video_chunk_spec list"

datatype plan_error = MatrixPlanFailed chunk_error | ImagePlanFailed chunk_error | VideoPlanFailed chunk_error | NotANumber

definition effective_workers :: "core \<Rightarrow> int" where
  "effective_workers c = int (length (filter ws_isEligible (listWorkers (co_workers c)))) + (if co_simulation c then 1 else 0)"

definition chunk_count :: "json_codec \<Rightarrow> core \<Rightarrow> (string \<times> json) list \<Rightarrow> int \<Rightarrow> int" where
  "chunk_count jc c params n =
     (let requested = number_param jc params [''chunks'', ''chunkCount''] 0
      in min (if at_least requested 1 then the requested else max 2 (effective_workers c)) n)"

definition plan_matrix :: "server_env \<Rightarrow> core \<Rightarrow> workload \<Rightarrow> string \<Rightarrow> plan_error + plan" where
  "plan_matrix env c w parent =
     (let jc = se_codec env; params = wl_parameters w; rawPayload = raw_payload env w
      in case (number_param jc params [''M''] 0, number_param jc params [''K''] 0, number_param jc params [''N''] 0) of
           (Some M, Some K, Some N) \<Rightarrow>
             (case partitionMatrixMultiply parent M K N (chunk_count jc c params M)
                     (js_subarray rawPayload 0 (M * K * 4)) (js_subarray rawPayload (M * K * 4) (int (length rawPayload))) of
                Inl e \<Rightarrow> Inl (MatrixPlanFailed e)
              | Inr specs \<Rightarrow> Inr (MatrixPlan M K N specs))
         | _ \<Rightarrow> Inl NotANumber)"

definition plan_image :: "server_env \<Rightarrow> core \<Rightarrow> workload \<Rightarrow> string \<Rightarrow> plan_error + plan" where
  "plan_image env c w parent =
     (let jc = se_codec env; params = wl_parameters w; mode = mode_param jc params; channels = int (mode_channels mode)
      in case (number_param jc params [''width''] 0, number_param jc params [''height''] 0, number_param jc params [''radius''] 2) of
           (Some width, Some height, Some radius) \<Rightarrow>
             (case partitionImageFilter parent width height channels mode radius (chunk_count jc c params height)
                     (raw_payload env w) of
                Inl e \<Rightarrow> Inl (ImagePlanFailed e)
              | Inr specs \<Rightarrow> Inr (ImagePlan width height channels specs))
         | _ \<Rightarrow> Inl NotANumber)"

definition plan_video :: "server_env \<Rightarrow> core \<Rightarrow> workload \<Rightarrow> string \<Rightarrow> plan_error + plan" where
  "plan_video env c w parent =
     (let jc = se_codec env; params = wl_parameters w; mode = mode_param jc params; channels = int (mode_channels mode)
      in case (number_param jc params [''width''] 512, number_param jc params [''height''] 512,
               number_param jc params [''totalFrames'', ''frameCount'', ''frames''] 30,
               number_param jc params [''chunkSize'', ''framesPerChunk''] 30) of
           (Some width, Some height, Some totalFrames, Some chunkSize) \<Rightarrow>
             (case partitionVideoFrames parent width height channels mode totalFrames chunkSize (raw_payload env w) of
                Inl e \<Rightarrow> Inl (VideoPlanFailed e)
              | Inr specs \<Rightarrow> Inr (VideoPlan totalFrames specs))
         | _ \<Rightarrow> Inl NotANumber)"

text \<open>The dispatchers' jobs; \<open>fresh\<close> gives the end of the id of a matrix chunk.\<close>

fun plan_jobs :: "json_codec \<Rightarrow> (int \<Rightarrow> string) \<Rightarrow> string option \<Rightarrow> plan \<Rightarrow> job list" where
  "plan_jobs jc fresh workloadId (MatrixPlan M K N specs) =
     map (\<lambda>s. matrix_job jc (fresh (mm_chunkIndex (ms_metadata s))) s) specs"
| "plan_jobs jc fresh workloadId (ImagePlan w h ch specs) = map (image_job jc workloadId) specs"
| "plan_jobs jc fresh workloadId (VideoPlan frames specs) = map (video_job jc workloadId) specs"

subsection \<open>Runs\<close>

datatype failure =
    ChunkFailed dispatch_error
  | ChunkNotStarted store_error
  | AssemblyFailed chunk_error
  | VideoAssemblyFailed video_error
  | ImageLengthMismatch int nat
  | FrameCountMismatch int nat

datatype response_status = RFailed | RLocalFallback

datatype chunked_response =
    Completed payload nat
  | NotCompleted response_status failure

text \<open>\<open>cu_slots\<close> gives the dispatcher of each job that was started, in the order of the jobs; \<open>cu_awaited\<close> and \<open>cu_arrived\<close>
  are the indexes of the jobs whose dispatchers are awaited and whose results have arrived, in the order of arrival.\<close>

record chunked_run =
  cu_workload :: workload
  cu_force :: bool
  cu_decision :: decision_result
  cu_parent :: string
  cu_startTimeMs :: ms
  cu_plan :: plan
  cu_pending :: "job list"
  cu_slots :: "nat list"
  cu_awaited :: "nat list"
  cu_arrived :: "nat list"
  cu_response :: "chunked_response option"

definition reject :: "failure \<Rightarrow> chunked_run \<Rightarrow> chunked_run" where
  "reject f r =
     (case cu_response r of
        None \<Rightarrow> r\<lparr>cu_response := Some (NotCompleted (if cu_force r then RFailed else RLocalFallback) f)\<rparr>
      | Some _ \<Rightarrow> r)"

text \<open>A consumer takes the next chunk, if there is one, and starts its dispatcher.\<close>

definition take_chunk :: "server_env \<Rightarrow> ms \<Rightarrow> core \<times> chunked_run \<Rightarrow> core \<times> chunked_run" where
  "take_chunk env now cr =
     (case cr of (c, r) \<Rightarrow>
        (case cu_pending r of
           [] \<Rightarrow> (c, r)
         | j # rest \<Rightarrow>
             (case open_task c now j of
                Inl e \<Rightarrow> (c, reject (ChunkNotStarted e) (r\<lparr>cu_pending := rest\<rparr>))
              | Inr _ \<Rightarrow>
                  (start_dispatch (se_dispatch env) now j c,
                   r\<lparr>cu_pending := rest, cu_slots := cu_slots r @ [length (co_dispatches c)],
                     cu_awaited := cu_awaited r @ [length (cu_slots r)]\<rparr>))))"

text \<open>Matrices and images start every chunk; a video starts one per effective worker.\<close>

definition concurrency :: "core \<Rightarrow> plan \<Rightarrow> nat \<Rightarrow> nat" where
  "concurrency c p n = (case p of VideoPlan _ _ \<Rightarrow> nat (max 1 (effective_workers c)) | _ \<Rightarrow> n)"

definition start_chunked ::
  "server_env \<Rightarrow> ms \<Rightarrow> (int \<Rightarrow> string) \<Rightarrow> core \<Rightarrow> workload \<Rightarrow> bool \<Rightarrow> decision_result \<Rightarrow> string \<Rightarrow> plan \<Rightarrow> core \<times> chunked_run" where
  "start_chunked env now fresh c w force decision parent p =
     (let jobs = plan_jobs (se_codec env) fresh (wl_workloadId w) p;
          c1 = with_pipeline c (registerWorkload (co_pipeline c) now parent (int (length jobs)));
          r = \<lparr>cu_workload = w, cu_force = force, cu_decision = decision, cu_parent = parent, cu_startTimeMs = now,
               cu_plan = p, cu_pending = jobs, cu_slots = [], cu_awaited = [], cu_arrived = [], cu_response = None\<rparr>
      in (take_chunk env now ^^ concurrency c p (length jobs)) (c1, r))"

text \<open>The result of the dispatcher for job \<open>i\<close> arrives at its consumer.\<close>

definition arrive_chunk :: "server_env \<Rightarrow> ms \<Rightarrow> nat \<Rightarrow> core \<times> chunked_run \<Rightarrow> core \<times> chunked_run" where
  "arrive_chunk env now i cr =
     (case cr of (c, r) \<Rightarrow>
        if i \<notin> set (cu_awaited r) then (c, r)
        else
          let r1 = r\<lparr>cu_awaited := remove1 i (cu_awaited r)\<rparr>
          in (case dp_state (co_dispatches c ! (cu_slots r ! i)) of
                Returned out w ms \<Rightarrow> take_chunk env now (c, r1\<lparr>cu_arrived := cu_arrived r @ [i]\<rparr>)
              | Threw e \<Rightarrow> (c, reject (ChunkFailed e) r1)
              | _ \<Rightarrow> (c, r)))"

text \<open>What the dispatcher of job \<open>i\<close> returned.\<close>

definition returned :: "core \<Rightarrow> chunked_run \<Rightarrow> nat \<Rightarrow> payload \<times> string \<times> int" where
  "returned c r i =
     (case dp_state (co_dispatches c ! (cu_slots r ! i)) of
        Returned out w ms \<Rightarrow> (out, w, ms)
      | _ \<Rightarrow> (Text [], [], 0))"

definition matrix_results :: "server_env \<Rightarrow> core \<Rightarrow> chunked_run \<Rightarrow> matrix_chunk_spec list \<Rightarrow> matrix_chunk_result list" where
  "matrix_results env c r specs =
     map (\<lambda>i. case returned c r i of (out, w, ms) \<Rightarrow> matrix_result (specs ! i) (output_bytes (se_unbase64 env) out) w ms)
       [0..<length specs]"

definition image_results :: "server_env \<Rightarrow> core \<Rightarrow> chunked_run \<Rightarrow> image_chunk_spec list \<Rightarrow> image_chunk_result list" where
  "image_results env c r specs =
     map (\<lambda>i. case returned c r i of (out, w, ms) \<Rightarrow>
         image_result (image_parent (wl_workloadId (cu_workload r))) (specs ! i) (output_bytes (se_unbase64 env) out) w ms)
       [0..<length specs]"

definition video_results :: "core \<Rightarrow> chunked_run \<Rightarrow> video_chunk_spec list \<Rightarrow> video_chunk_result list" where
  "video_results c r specs =
     map (\<lambda>i. case returned c r i of (out, w, ms) \<Rightarrow>
         video_result (video_parent (wl_workloadId (cu_workload r))) (specs ! i) (output_video out) w ms)
       (cu_arrived r)"

text \<open>\<open>isBinaryFrameRequest ? buffer : buffer.toString('base64')\<close>.\<close>

definition response_payload :: "server_env \<Rightarrow> workload \<Rightarrow> buffer \<Rightarrow> payload" where
  "response_payload env w b = (if wl_rawPayloadBuffer w = None then Text (di_base64 (se_dispatch env) b) else Bytes b)"

text \<open>The validator that \<open>executeChunkedMatMul\<close> runs on the product is called for its time only.\<close>

definition assemble :: "server_env \<Rightarrow> core \<Rightarrow> chunked_run \<Rightarrow> failure + buffer" where
  "assemble env c r =
     (case cu_plan r of
        MatrixPlan M K N specs \<Rightarrow>
          (case assembleMatrixChunks (se_memory env) (cu_parent r) M K N (matrix_results env c r specs) of
             Inl e \<Rightarrow> Inl (AssemblyFailed e)
           | Inr b \<Rightarrow> Inr b)
      | ImagePlan w h ch specs \<Rightarrow>
          (case assembleImageChunks (se_memory env) (cu_parent r) w h ch (image_results env c r specs) of
             Inl e \<Rightarrow> Inl (AssemblyFailed e)
           | Inr b \<Rightarrow> if int (length b) \<noteq> w * h * ch then Inl (ImageLengthMismatch (w * h * ch) (length b)) else Inr b)
      | VideoPlan totalFrames specs \<Rightarrow>
          (case assembleVideoAnalysis (di_parse (se_dispatch env)) (se_unbase64_text env) (cu_parent r) (video_results c r specs) of
             Inl e \<Rightarrow> Inl (VideoAssemblyFailed e)
           | Inr ms \<Rightarrow> if int (length ms) \<noteq> totalFrames then Inl (FrameCountMismatch totalFrames (length ms))
                       else Inr (json_bytes (se_codec env) (JArr ms))))"

fun plan_size :: "plan \<Rightarrow> nat" where
  "plan_size (MatrixPlan M K N specs) = length specs"
| "plan_size (ImagePlan w h ch specs) = length specs"
| "plan_size (VideoPlan frames specs) = length specs"

text \<open>All consumers have ended and none of them failed.\<close>

definition finish_run :: "server_env \<Rightarrow> core \<Rightarrow> chunked_run \<Rightarrow> chunked_run" where
  "finish_run env c r =
     (if cu_response r \<noteq> None \<or> cu_awaited r \<noteq> [] then r
      else case assemble env c r of
             Inl f \<Rightarrow> reject f r
           | Inr b \<Rightarrow> r\<lparr>cu_response := Some (Completed (response_payload env (cu_workload r) b) (plan_size (cu_plan r)))\<rparr>)"

end
