(* ===== verification/Chunked_Theorems.thy ===== *)
theory Chunked_Theorems
  imports Chunked_Workloads Dispatch_Theorems Matrix_Theorems Image_Theorems Video_Theorems
begin

text \<open>
  Properties of chunked workloads: what is dispatched when, and that what a run answers is what the kernel computes on
  the whole input, provided the workers answered their chunks.  A run is considered among all events of the core, so
  the chunks of other runs and every fault of the workers interleave with it.
\<close>

subsection \<open>Dispatchers are stable\<close>

text \<open>A dispatcher keeps its index and its job, and once it has returned it stays so.\<close>

definition returned_from :: "dispatch_state \<Rightarrow> bool" where
  "returned_from s \<longleftrightarrow> (\<exists>out w ms. s = Returned out w ms)"

definition stable :: "dispatch list \<Rightarrow> dispatch list \<Rightarrow> bool" where
  "stable ds ds' \<longleftrightarrow> length ds \<le> length ds' \<and>
     (\<forall>k<length ds. dp_job (ds' ! k) = dp_job (ds ! k) \<and> (returned_from (dp_state (ds ! k)) \<longrightarrow> dp_state (ds' ! k) = dp_state (ds ! k)))"

lemma stable_refl [simp]: "stable ds ds"
  by (simp add: stable_def)

lemma stable_trans: "stable a b \<Longrightarrow> stable b c \<Longrightarrow> stable a c"
  by (simp add: stable_def)

lemma stable_append [simp]: "stable ds (ds @ es)"
  by (simp add: stable_def nth_append)

lemma settle_job [simp]: "dp_job (settle_dispatch l x d) = dp_job d"
  by (simp add: settle_dispatch_def split: dispatch_state.splits option.splits)

lemma settle_returned: "returned_from (dp_state d) \<Longrightarrow> settle_dispatch l x d = d"
  by (auto simp: settle_dispatch_def returned_from_def)

lemma stable_map_settle [simp]: "stable ds (map (settle_dispatch l x) ds)"
  by (simp add: stable_def settle_returned)

lemma stable_update:
  assumes "dp_job d = dp_job (ds ! k)" and "\<not> returned_from (dp_state (ds ! k)) \<or> d = ds ! k"
  shows "stable ds (ds[k := d])"
  unfolding stable_def
proof (intro conjI allI impI)
  fix i assume "i < length ds"
  then show "dp_job (ds[k := d] ! i) = dp_job (ds ! i)" using assms by (cases "i = k") simp_all
next
  fix i assume "i < length ds" and "returned_from (dp_state (ds ! i))"
  then show "dp_state (ds[k := d] ! i) = dp_state (ds ! i)" using assms by (cases "i = k") auto
qed simp

lemma stable_deliver [simp]: "stable (co_dispatches c) (co_dispatches (deliver now cs c))"
proof -
  have "stable ds (fold (\<lambda>(l, r). map (settle_dispatch l (Heard r now))) cs ds)" for ds
  proof (induction cs arbitrary: ds)
    case (Cons a cs)
    show ?case using stable_trans [OF stable_map_settle Cons.IH] by (simp add: case_prod_unfold)
  qed simp
  then show ?thesis by (simp add: deliver_def)
qed

lemma start_attempt_job: "start_attempt env now k c d = (c', d') \<Longrightarrow> dp_job d' = dp_job d"
  by (auto simp: start_attempt_def send_attempt_def Let_def split: sum.splits prod.splits if_splits)

lemma after_await_job: "after_await env now k c d w s x = (c', d') \<Longrightarrow> dp_job d' = dp_job d"
  by (auto simp: after_await_def Let_def dest: start_attempt_job split: option.splits sum.splits prod.splits if_splits)

lemma answers_stable: "stable (co_dispatches c) (co_dispatches (simulation_answers env now j i w a c))"
proof -
  have "stable (co_dispatches c) (co_dispatches (deliver now cs c'))" if "co_dispatches c' = co_dispatches c" for cs c'
    using stable_deliver [of c' now cs] that by simp
  then show ?thesis by (auto simp: simulation_answers_def Let_def split: sum.splits prod.splits)
qed

lemma core_stable: "stable (co_dispatches c) (co_dispatches (core_exec env ev c))"
proof (cases ev)
  case (Submits now j)
  show ?thesis
  proof (cases rule: start_dispatch_cases [of c now j env])
    case (started c1 task c2 c3 d)
    have "co_dispatches c3 = co_dispatches c"
      using start_attempt_dispatches [OF started(3)] started(2) open_task_frame [OF started(1)] by simp
    then show ?thesis using started(4) Submits by simp
  qed (simp add: Submits)
next
  case (TimerFires now k)
  then show ?thesis
    by (auto simp: timer_fires_def returned_from_def intro!: stable_update split: dispatch_state.splits option.splits)
next
  case (Resumes now k)
  show ?thesis
  proof (cases "core_exec env ev c = c")
    case False
    then obtain w l s dl x where st: "dp_state (co_dispatches c ! k) = Awaiting w l s dl (Some x)" and k: "k < length (co_dispatches c)"
      using Resumes by (auto simp: resume_def split: if_splits dispatch_state.splits option.splits)
    obtain c1 d where aft: "after_await env now k c (co_dispatches c ! k) w s x = (c1, d)" by fastforce
    then show ?thesis
      using Resumes k st stable_update [of d "co_dispatches c" k] after_await_job [OF aft] after_await_dispatches [OF aft]
      by (simp add: resume_def returned_from_def)
  qed simp
next
  case (Answers now n a)
  obtain k w where "co_simulations c ! n = (k, w)" by fastforce
  then show ?thesis
    using Answers answers_stable [of "c\<lparr>co_simulations := take n (co_simulations c) @ drop (Suc n) (co_simulations c)\<rparr>"]
    by (simp add: answer_def Let_def)
next
  case (Serves now ev')
  then show ?thesis using stable_deliver [where c = "c\<lparr>co_transport := _\<rparr>"] by (simp add: serve_def Let_def)
qed

subsection \<open>The events of a run\<close>

text \<open>A core event (of another run or of a worker), the arrival of the result of job \<open>i\<close> at its consumer, and the end of
  all consumers.\<close>

datatype run_event = OfCore core_event | ChunkArrives ms nat | AllEnded

fun run_exec :: "server_env \<Rightarrow> run_event \<Rightarrow> core \<times> chunked_run \<Rightarrow> core \<times> chunked_run" where
  "run_exec env (OfCore ev) (c, r) = (core_exec (se_dispatch env) ev c, r)"
| "run_exec env (ChunkArrives now i) (c, r) = arrive_chunk env now i (c, r)"
| "run_exec env AllEnded (c, r) = (c, finish_run env c r)"

lemma start_dispatch_new:
  assumes "open_task c now j = Inr x"
  shows "\<exists>d. co_dispatches (start_dispatch env now j c) = co_dispatches c @ [d] \<and> dp_job d = j"
proof (cases rule: start_dispatch_cases [of c now j env])
  case (started c1 task c2 c3 d)
  have "co_dispatches c3 = co_dispatches c"
    using start_attempt_dispatches [OF started(3)] started(2) open_task_frame [OF started(1)] by simp
  then show ?thesis using started(4) start_attempt_job [OF started(3)] by simp
qed (use assms in simp)

text \<open>As long as nothing has been rejected: the jobs of the dispatchers that were started, followed by the pending
  ones, are all the jobs; every started one is either awaited or has arrived, once; the ones that have arrived have
  returned; and the consumers are all busy until no chunk is left for them.\<close>

definition chunks_ok :: "job list \<Rightarrow> nat \<Rightarrow> core \<times> chunked_run \<Rightarrow> bool" where
  "chunks_ok jobs conc cr = (case cr of (c, r) \<Rightarrow> cu_response r = None \<longrightarrow>
     distinct (cu_slots r) \<and> (\<forall>k\<in>set (cu_slots r). k < length (co_dispatches c)) \<and>
     map (\<lambda>k. dp_job (co_dispatches c ! k)) (cu_slots r) @ cu_pending r = jobs \<and>
     mset (cu_awaited r @ cu_arrived r) = mset [0..<length (cu_slots r)] \<and>
     (\<forall>i\<in>set (cu_arrived r). returned_from (dp_state (co_dispatches c ! (cu_slots r ! i)))) \<and>
     length (cu_awaited r) = min conc (length jobs - length (cu_arrived r)))"

lemma chunks_ok_mset:
  assumes "mset (xs @ ys) = mset [0..<n]"
  shows "set xs \<subseteq> {..<n}" "set ys \<subseteq> {..<n}" "length xs + length ys = n"
proof -
  have "set xs \<union> set ys = {..<n}" using arg_cong [OF assms, of set_mset] by (simp add: atLeast0LessThan)
  then show "set xs \<subseteq> {..<n}" "set ys \<subseteq> {..<n}" by auto
  show "length xs + length ys = n" using arg_cong [OF assms, of size] by simp
qed

lemma chunks_okD:
  assumes "chunks_ok jobs conc (c, r)" and "cu_response r = None"
  shows "distinct (cu_slots r)" "\<forall>k\<in>set (cu_slots r). k < length (co_dispatches c)"
    "map (\<lambda>k. dp_job (co_dispatches c ! k)) (cu_slots r) @ cu_pending r = jobs"
    "mset (cu_awaited r @ cu_arrived r) = mset [0..<length (cu_slots r)]"
    "\<forall>i\<in>set (cu_arrived r). returned_from (dp_state (co_dispatches c ! (cu_slots r ! i)))"
    "length (cu_awaited r) = min conc (length jobs - length (cu_arrived r))"
  using assms by (simp_all add: chunks_ok_def)

lemma chunks_okI:
  assumes "cu_response r = None \<Longrightarrow> distinct (cu_slots r)"
    and "cu_response r = None \<Longrightarrow> \<forall>k\<in>set (cu_slots r). k < length (co_dispatches c)"
    and "cu_response r = None \<Longrightarrow> map (\<lambda>k. dp_job (co_dispatches c ! k)) (cu_slots r) @ cu_pending r = jobs"
    and "cu_response r = None \<Longrightarrow> mset (cu_awaited r @ cu_arrived r) = mset [0..<length (cu_slots r)]"
    and "cu_response r = None \<Longrightarrow> \<forall>i\<in>set (cu_arrived r). returned_from (dp_state (co_dispatches c ! (cu_slots r ! i)))"
    and "cu_response r = None \<Longrightarrow> length (cu_awaited r) = min conc (length jobs - length (cu_arrived r))"
  shows "chunks_ok jobs conc (c, r)"
  unfolding chunks_ok_def prod.case using assms by (intro impI conjI)

lemma chunks_ok_settled [simp]: "cu_response r = Some resp \<Longrightarrow> chunks_ok jobs conc (c, r)"
  by (rule chunks_okI) simp_all

lemma chunks_ok_stable:
  assumes ok: "chunks_ok jobs conc (c, r)" and st: "stable (co_dispatches c) (co_dispatches c')"
  shows "chunks_ok jobs conc (c', r)"
proof (rule chunks_okI)
  assume none: "cu_response r = None"
  note o = chunks_okD [OF ok none]
  show "distinct (cu_slots r)" "mset (cu_awaited r @ cu_arrived r) = mset [0..<length (cu_slots r)]"
    "length (cu_awaited r) = min conc (length jobs - length (cu_arrived r))" by (fact o)+
  show "\<forall>k\<in>set (cu_slots r). k < length (co_dispatches c')" using o(2) st by (auto simp: stable_def)
  have "map (\<lambda>k. dp_job (co_dispatches c' ! k)) (cu_slots r) = map (\<lambda>k. dp_job (co_dispatches c ! k)) (cu_slots r)"
    using o(2) st by (auto simp: stable_def)
  then show "map (\<lambda>k. dp_job (co_dispatches c' ! k)) (cu_slots r) @ cu_pending r = jobs" using o(3) by (simp only:)
  show "\<forall>i\<in>set (cu_arrived r). returned_from (dp_state (co_dispatches c' ! (cu_slots r ! i)))"
  proof
    fix i assume "i \<in> set (cu_arrived r)"
    then have "cu_slots r ! i < length (co_dispatches c)" "returned_from (dp_state (co_dispatches c ! (cu_slots r ! i)))"
      using o(2,5) chunks_ok_mset(2) [OF o(4)] by auto
    then show "returned_from (dp_state (co_dispatches c' ! (cu_slots r ! i)))" using st by (simp add: stable_def)
  qed
qed

lemma reject_response: "\<exists>resp. cu_response (reject f r) = Some resp"
  by (simp add: reject_def split: option.splits)

lemma chunks_ok_reject [simp]: "chunks_ok jobs conc (c, reject f r)"
  using reject_response chunks_ok_settled by blast

text \<open>A consumer that takes a chunk is one more consumer at work.\<close>

lemma take_chunk_ok:
  assumes ok: "chunks_ok jobs conc (c, r)"
  shows "chunks_ok jobs (Suc conc) (take_chunk env now (c, r))"
proof (cases "cu_response r")
  case (Some resp)
  then show ?thesis by (simp add: take_chunk_def split: list.splits sum.splits)
next
  case None
  note o = chunks_okD [OF ok None]
  note len = chunks_ok_mset(3) [OF o(4)]
  have jobs: "length jobs = length (cu_slots r) + length (cu_pending r)" unfolding o(3) [symmetric] by simp
  show ?thesis
  proof (cases "cu_pending r")
    case Nil
    have "chunks_ok jobs (Suc conc) (c, r)"
      by (rule chunks_okI) (use o len jobs Nil in \<open>simp_all del: mset_upt\<close>)
    then show ?thesis using Nil by (simp add: take_chunk_def)
  next
    case (Cons j rest)
    show ?thesis
    proof (cases "open_task c now j")
      case (Inl e)
      then show ?thesis using Cons by (simp add: take_chunk_def)
    next
      case (Inr x)
      let ?n = "length (co_dispatches c)" and ?c' = "start_dispatch (se_dispatch env) now j c"
      obtain d where d: "co_dispatches ?c' = co_dispatches c @ [d]" "dp_job d = j"
        using start_dispatch_new [OF Inr] by blast
      let ?r' = "r\<lparr>cu_pending := rest, cu_slots := cu_slots r @ [?n], cu_awaited := cu_awaited r @ [length (cu_slots r)]\<rparr>"
      have "chunks_ok jobs conc (?c', r)" using chunks_ok_stable [OF ok] d(1) by simp
      note o' = chunks_okD [OF this None]
      have "chunks_ok jobs (Suc conc) (?c', ?r')"
      proof (rule chunks_okI)
        show "distinct (cu_slots ?r')" using o(1,2) by auto
        show "\<forall>k\<in>set (cu_slots ?r'). k < length (co_dispatches ?c')" using o'(2) d(1) by simp
        show "map (\<lambda>k. dp_job (co_dispatches ?c' ! k)) (cu_slots ?r') @ cu_pending ?r' = jobs"
          using o'(3) d Cons by simp
        show "mset (cu_awaited ?r' @ cu_arrived ?r') = mset [0..<length (cu_slots ?r')]"
          using o(4) by (simp del: mset_upt)
        show "\<forall>i\<in>set (cu_arrived ?r'). returned_from (dp_state (co_dispatches ?c' ! (cu_slots ?r' ! i)))"
        proof
          fix i assume i: "i \<in> set (cu_arrived ?r')"
          then have "i < length (cu_slots r)" using chunks_ok_mset(2) [OF o(4)] by auto
          then have "cu_slots ?r' ! i = cu_slots r ! i" by (simp add: nth_append)
          then show "returned_from (dp_state (co_dispatches ?c' ! (cu_slots ?r' ! i)))" using o'(5) i by simp
        qed
        show "length (cu_awaited ?r') = min (Suc conc) (length jobs - length (cu_arrived ?r'))"
          using o(6) len jobs Cons by simp
      qed
      then show ?thesis using Cons Inr by (simp add: take_chunk_def)
    qed
  qed
qed

lemma arrive_chunk_ok:
  assumes ok: "chunks_ok jobs conc (c, r)"
  shows "chunks_ok jobs conc (arrive_chunk env now i (c, r))"
proof (cases "cu_response r")
  case (Some resp)
  then show ?thesis
    by (simp add: arrive_chunk_def take_chunk_def Let_def split: dispatch_state.splits list.splits sum.splits)
next
  case None
  note o = chunks_okD [OF ok None]
  show ?thesis
  proof (cases "i \<in> set (cu_awaited r) \<and> returned_from (dp_state (co_dispatches c ! (cu_slots r ! i)))")
    case False
    then show ?thesis using ok
      by (auto simp: arrive_chunk_def returned_from_def Let_def split: dispatch_state.splits)
  next
    case True
    let ?r' = "r\<lparr>cu_awaited := remove1 i (cu_awaited r), cu_arrived := cu_arrived r @ [i]\<rparr>"
    have pos: "0 < length (cu_awaited r)" using True by auto
    then obtain conc' where conc: "conc = Suc conc'" using o(6) by (cases conc) simp_all
    have "chunks_ok jobs conc' (c, ?r')"
    proof (rule chunks_okI)
      show "mset (cu_awaited ?r' @ cu_arrived ?r') = mset [0..<length (cu_slots ?r')]"
        using o(4) True by (simp del: mset_upt) (metis insert_DiffM union_iff set_mset_mset)
      show "length (cu_awaited ?r') = min conc' (length jobs - length (cu_arrived ?r'))"
        using o(6) conc pos True by (simp add: length_remove1)
    qed (use o True in auto)
    from take_chunk_ok [OF this] show ?thesis
      using True conc by (auto simp: arrive_chunk_def returned_from_def Let_def)
  qed
qed

interpretation chunking: machine "run_exec env" "chunks_ok jobs conc" for env jobs conc
proof
  fix cr :: "core \<times> chunked_run" and ev
  assume ok: "chunks_ok jobs conc cr"
  obtain c r where cr: "cr = (c, r)" by fastforce
  show "chunks_ok jobs conc (run_exec env ev cr)"
  proof (cases ev)
    case AllEnded
    then show ?thesis using ok by (auto simp: cr finish_run_def split: sum.splits)
  qed (use ok arrive_chunk_ok chunks_ok_stable [OF _ core_stable] in \<open>auto simp: cr\<close>)
qed

lemma start_chunked_ok:
  "chunks_ok (plan_jobs (se_codec env) fresh (wl_workloadId w) p)
     (concurrency c p (length (plan_jobs (se_codec env) fresh (wl_workloadId w) p)))
     (start_chunked env now fresh c w force decision parent p)"
proof -
  define jobs where "jobs = plan_jobs (se_codec env) fresh (wl_workloadId w) p"
  have takes: "chunks_ok jobs k ((take_chunk env now ^^ k) cr)" if "chunks_ok jobs 0 cr" for k cr
  proof (induction k)
    case (Suc k)
    then show ?case using take_chunk_ok by (cases "(take_chunk env now ^^ k) cr") simp
  qed (use that in simp)
  have "chunks_ok jobs 0 (with_pipeline c (registerWorkload (co_pipeline c) now parent (int (length jobs))),
      \<lparr>cu_workload = w, cu_force = force, cu_decision = decision, cu_parent = parent, cu_startTimeMs = now,
       cu_plan = p, cu_pending = jobs, cu_slots = [], cu_awaited = [], cu_arrived = [], cu_response = None\<rparr>)"
    by (rule chunks_okI) simp_all
  from takes [OF this] show ?thesis unfolding start_chunked_def Let_def jobs_def by (simp only:)
qed

end
