(* ===== verification/Chunked_Results.thy ===== *)
theory Chunked_Results
  imports Chunked_Theorems
begin

text \<open>
  What a chunked run answers: the product, the blurred image and the metrics that the kernel computes on the whole
  input, whatever happened in between, once nobody is awaited and nothing was rejected.
\<close>

subsection \<open>The end of a run\<close>

text \<open>The parts of a run that no event changes.\<close>

definition same_run :: "workload \<times> string \<times> plan \<Rightarrow> core \<times> chunked_run \<Rightarrow> bool" where
  "same_run q cr \<longleftrightarrow> (cu_workload (snd cr), cu_parent (snd cr), cu_plan (snd cr)) = q"

lemma reject_same [simp]:
  "cu_workload (reject f r) = cu_workload r" "cu_parent (reject f r) = cu_parent r" "cu_plan (reject f r) = cu_plan r"
  by (simp_all add: reject_def split: option.splits)

lemma take_chunk_same: "same_run q cr \<Longrightarrow> same_run q (take_chunk env now cr)"
  by (cases cr) (simp add: take_chunk_def same_run_def split: list.splits sum.splits)

lemma arrive_chunk_same: "same_run q (c, r) \<Longrightarrow> same_run q (arrive_chunk env now i (c, r))"
  by (auto simp: arrive_chunk_def Let_def same_run_def [of _ "(_, _)"] intro!: take_chunk_same split: dispatch_state.splits)

interpretation keeping: machine "run_exec env" "same_run q" for env q
proof
  fix cr :: "core \<times> chunked_run" and ev
  assume "same_run q cr"
  then show "same_run q (run_exec env ev cr)"
    using arrive_chunk_same
    by (cases ev; cases cr) (auto simp: same_run_def finish_run_def split: sum.splits)
qed

lemma start_chunked_same: "same_run (w, parent, p) (start_chunked env now fresh c w force decision parent p)"
proof -
  have takes: "same_run q ((take_chunk env now ^^ k) cr)" if "same_run q cr" for q k cr
    by (induction k) (simp_all add: that take_chunk_same)
  show ?thesis unfolding start_chunked_def Let_def by (rule takes) (simp add: same_run_def)
qed

lemma run_same:
  assumes "fold (run_exec env) evs (start_chunked env now fresh c w force decision parent p) = (c', r')"
  shows "cu_workload r' = w" "cu_parent r' = parent" "cu_plan r' = p"
proof -
  have "same_run (w, parent, p) (c', r')"
    unfolding assms [symmetric] by (rule keeping.run_inv) (rule start_chunked_same)
  then show "cu_workload r' = w" "cu_parent r' = parent" "cu_plan r' = p" by (simp_all add: same_run_def)
qed

lemma length_plan_jobs [simp]: "length (plan_jobs jc fresh wid p) = plan_size p"
  by (cases p) simp_all




lemma finish_over:
  assumes "cu_response r = None" and "cu_awaited r = []" and "assemble env c r = Inr b"
  shows "cu_response (finish_run env c r) = Some (Completed (response_payload env (cu_workload r) b) (plan_size (cu_plan r)))"
  using assms by (simp add: finish_run_def)

subsection \<open>Matrices\<close>

lemma js_subarray_split:
  assumes "int (length (js_subarray xs 0 n)) = n"
  shows "js_subarray xs 0 n @ js_subarray xs n (int (length xs)) = xs"
proof -
  have "0 \<le> n" using assms by (metis of_nat_0_le_iff)
  moreover have "n \<le> int (length xs)" using assms by (simp add: js_subarray_def js_index_def split: if_splits)
  ultimately show ?thesis
    by (simp add: js_subarray_def js_index_def subarray_def min_def)
qed

lemma plan_matrix_parts:
  assumes "plan_matrix env c w parent = Inr p"
  obtains M K N specs where "p = MatrixPlan M K N specs"
    "partitionMatrixMultiply parent M K N (chunk_count (se_codec env) c (wl_parameters w) M)
       (js_subarray (raw_payload env w) 0 (M * K * 4))
       (js_subarray (raw_payload env w) (M * K * 4) (int (length (raw_payload env w)))) = Inr specs"
    "js_subarray (raw_payload env w) 0 (M * K * 4) @
       js_subarray (raw_payload env w) (M * K * 4) (int (length (raw_payload env w))) = raw_payload env w"
proof -
  obtain M K N specs where p: "p = MatrixPlan M K N specs"
    and part: "partitionMatrixMultiply parent M K N (chunk_count (se_codec env) c (wl_parameters w) M)
       (js_subarray (raw_payload env w) 0 (M * K * 4))
       (js_subarray (raw_payload env w) (M * K * 4) (int (length (raw_payload env w)))) = Inr specs"
    using assms by (auto simp: plan_matrix_def Let_def split: option.splits sum.splits)
  show ?thesis using that p part js_subarray_split partition_specs(5) [OF part] by blast
qed

text \<open>C1. A distributed matrix product is the local one, end to end: whatever plan \<open>executeChunkedMatMul\<close> makes of a
  workload, and whatever the core does while its chunks run - chunks placed on any workers, retried, answered in any
  order, among the chunks of other workloads and the faults of workers - if no chunk was rejected and none is awaited
  any more, and the dispatchers returned what the matrix kernel computes on their chunks, then the run completes, and the
  client gets, in the encoding of its request, what the kernel computes on the whole payload.\<close>

theorem chunked_matmul_exact:
  assumes plan: "plan_matrix env c w parent = Inr (MatrixPlan M K N specs)"
    and run: "fold (run_exec env) evs (start_chunked env now fresh c w force decision parent (MatrixPlan M K N specs)) = (c', r')"
    and none: "cu_response r' = None" and idle: "cu_awaited r' = []"
    and honest: "\<And>i. i < length specs \<Longrightarrow> output_bytes (se_unbase64 env) (fst (returned c' r' i)) = run_chunk ops (specs ! i)"
  shows "cu_response (finish_run env c' r') =
    Some (Completed (response_payload env w (computeMatrixMultiply ops (raw_payload env w) M K N)) (length specs))"
proof -
  note same = run_same [OF run]
  let ?raw = "raw_payload env w"
  let ?a = "js_subarray ?raw 0 (M * K * 4)" and ?b = "js_subarray ?raw (M * K * 4) (int (length ?raw))"
  have part: "partitionMatrixMultiply parent M K N (chunk_count (se_codec env) c (wl_parameters w) M) ?a ?b = Inr specs"
    and raw: "?a @ ?b = ?raw"
    using plan_matrix_parts [OF plan] by auto
  define wk where "wk = (\<lambda>s :: matrix_chunk_spec. fst (snd (returned c' r' (nat (mm_chunkIndex (ms_metadata s))))))"
  define t where "t = (\<lambda>s :: matrix_chunk_spec. snd (snd (returned c' r' (nat (mm_chunkIndex (ms_metadata s))))))"
  have idx: "nat (mm_chunkIndex (ms_metadata (specs ! i))) = i" if "i < length specs" for i
    using that by (simp add: partition_specs(7) [OF part] row_ranges_eq matrix_spec_def Let_def)
  have "matrix_results env c' r' specs = map (\<lambda>s. matrix_result s (run_chunk ops s) (wk s) (t s)) specs"
  proof (rule nth_equalityI)
    fix i assume "i < length (matrix_results env c' r' specs)"
    then have i: "i < length specs" by (simp add: matrix_results_def)
    show "matrix_results env c' r' specs ! i = map (\<lambda>s. matrix_result s (run_chunk ops s) (wk s) (t s)) specs ! i"
      using i honest [OF i] idx [OF i] by (simp add: matrix_results_def wk_def t_def case_prod_unfold)
  qed (simp add: matrix_results_def)
  then have "assembleMatrixChunks (se_memory env) parent M K N (matrix_results env c' r' specs) =
      Inr (computeMatrixMultiply ops ?raw M K N)"
    using distributed_gemm [OF part, of "matrix_results env c' r' specs" ops wk t "se_memory env"] raw by simp
  then have "assemble env c' r' = Inr (computeMatrixMultiply ops ?raw M K N)" by (simp add: assemble_def same)
  from finish_over [OF none idle this] show ?thesis by (simp add: same)
qed

subsection \<open>Images\<close>


subsection \<open>Videos\<close>





subsection \<open>Workloads without an id\<close>

lemma foreign_image_rejected:
  assumes "foreign \<noteq> parent"
  shows "\<exists>e. assembleImageChunks mem parent w h ch (map (\<lambda>x. image_result foreign (f x) (g x) (d x) (t x)) xs) = Inl e"
proof -
  let ?rs = "map (\<lambda>x. image_result foreign (f x) (g x) (d x) (t x)) xs"
  show ?thesis
  proof (cases "sort_key ir_chunkIndex ?rs")
    case Nil
    then have "?rs = []" by (metis set_empty set_sort)
    then show ?thesis by (simp add: assembleImageChunks_def)
  next
    case (Cons r rs)
    then have "r \<in> set ?rs" by (metis list.set_intros(1) set_sort)
    then have "ir_parentWorkloadId r \<noteq> parent" using assms by (auto simp: image_result_def Let_def)
    then have "assemble_image parent bpr i nr buf (r # rs) = Inl MismatchedWorkload" for bpr i nr buf by simp
    then show ?thesis unfolding assembleImageChunks_def Cons by (simp split: option.split)
  qed
qed

lemma foreign_video_rejected:
  assumes "foreign \<noteq> parent"
  shows "\<exists>e. assembleVideoAnalysis parse unb parent (map (\<lambda>x. video_result foreign (f x) (g x) (d x) (t x)) xs) = Inl e"
proof -
  let ?rs = "map (\<lambda>x. video_result foreign (f x) (g x) (d x) (t x)) xs"
  show ?thesis
  proof (cases "sort_key vr_chunkIndex ?rs")
    case Nil
    then have "?rs = []" by (metis set_empty set_sort)
    then show ?thesis by (simp add: assembleVideoAnalysis_def)
  next
    case (Cons r rs)
    then have "r \<in> set ?rs" by (metis list.set_intros(1) set_sort)
    then have "vr_parentWorkloadId r \<noteq> parent" using assms by (auto simp: video_result_def Let_def)
    then show ?thesis unfolding assembleVideoAnalysis_def Cons by simp
  qed
qed

lemma anonymous_not_assembled:
  assumes "cu_parent r = parent" and "cu_workload r = w"
    and "(\<exists>width height channels specs. cu_plan r = ImagePlan width height channels specs) \<and> image_parent (wl_workloadId w) \<noteq> parent \<or>
      (\<exists>frames specs. cu_plan r = VideoPlan frames specs) \<and> video_parent (wl_workloadId w) \<noteq> parent"
  shows "\<exists>f. assemble env c r = Inl f"
  using assms(3)
proof (elim disjE conjE exE)
  fix width height channels specs
  assume p: "cu_plan r = ImagePlan width height channels specs" and "image_parent (wl_workloadId w) \<noteq> parent"
  from foreign_image_rejected [OF this(2), of "se_memory env" width height channels "\<lambda>i. specs ! i"
      "\<lambda>i. output_bytes (se_unbase64 env) (fst (returned c r i))" "\<lambda>i. fst (snd (returned c r i))" "\<lambda>i. snd (snd (returned c r i))" "[0..<length specs]"]
  show ?thesis using assms(1,2) by (auto simp: assemble_def p image_results_def case_prod_unfold)
next
  fix frames specs
  assume p: "cu_plan r = VideoPlan frames specs" and "video_parent (wl_workloadId w) \<noteq> parent"
  from foreign_video_rejected [OF this(2), of "di_parse (se_dispatch env)" "se_unbase64_text env" "\<lambda>i. specs ! i"
      "\<lambda>i. output_video (fst (returned c r i))" "\<lambda>i. fst (snd (returned c r i))" "\<lambda>i. snd (snd (returned c r i))" "cu_arrived r"]
  show ?thesis using assms(1,2) by (auto simp: assemble_def p video_results_def case_prod_unfold)
qed

fun completed :: "chunked_response option \<Rightarrow> bool" where
  "completed (Some (Completed out n)) = True"
| "completed _ = False"

lemma reject_completed [simp]: "completed (cu_response (reject f r)) \<longleftrightarrow> completed (cu_response r)"
  by (cases "cu_response r") (simp_all add: reject_def)

lemma take_chunk_completed [simp]: "completed (cu_response (snd (take_chunk env now cr))) \<longleftrightarrow> completed (cu_response (snd cr))"
  by (cases cr) (simp add: take_chunk_def split: list.splits sum.splits)

lemma arrive_chunk_completed: "completed (cu_response (snd (arrive_chunk env now i (c, r)))) \<longleftrightarrow> completed (cu_response r)"
  by (simp add: arrive_chunk_def Let_def split: dispatch_state.splits)

definition anonymous :: "workload \<times> string \<times> plan \<Rightarrow> bool" where
  "anonymous q = (case q of (w, parent, p) \<Rightarrow>
     (\<exists>width height channels specs. p = ImagePlan width height channels specs) \<and> image_parent (wl_workloadId w) \<noteq> parent \<or>
     (\<exists>frames specs. p = VideoPlan frames specs) \<and> video_parent (wl_workloadId w) \<noteq> parent)"

interpretation anonymous: machine "run_exec env" "\<lambda>cr. \<exists>q. same_run q cr \<and> anonymous q \<and> \<not> completed (cu_response (snd cr))" for env
proof
  fix cr :: "core \<times> chunked_run" and ev
  assume "\<exists>q. same_run q cr \<and> anonymous q \<and> \<not> completed (cu_response (snd cr))"
  then obtain q where q: "same_run q cr" "anonymous q" "\<not> completed (cu_response (snd cr))" by blast
  obtain c r where cr: "cr = (c, r)" by fastforce
  have "\<exists>f. assemble env c r = Inl f"
    using q(1,2) anonymous_not_assembled [OF refl refl, of r env c] by (auto simp: cr same_run_def anonymous_def)
  then have "\<not> completed (cu_response (snd (run_exec env ev cr)))"
    using q(3) arrive_chunk_completed by (cases ev) (auto simp: cr finish_run_def)
  then show "\<exists>q. same_run q (run_exec env ev cr) \<and> anonymous q \<and> \<not> completed (cu_response (snd (run_exec env ev cr)))"
    using keeping.exec_inv [OF q(1)] q(2) by blast
qed

text \<open>C38. An image or a video that is submitted without a workload id never completes: the chunks are cut under an id made up for
  the run, but their results are labelled \<open>wkl-image-parent\<close> or \<open>wkl-video-parent\<close>, so reassembly takes them for those of
  another workload, whatever the workers computed and however often the client tries.\<close>

theorem anonymous_media_never_complete:
  assumes "p = ImagePlan width height channels specs \<and> image_parent (wl_workloadId w) \<noteq> parent \<or>
      p = VideoPlan frames vspecs \<and> video_parent (wl_workloadId w) \<noteq> parent"
    and "fold (run_exec env) evs (start_chunked env now fresh c w force decision parent p) = (c', r')"
  shows "cu_response r' \<noteq> Some (Completed out n)"
proof -
  let ?start = "start_chunked env now fresh c w force decision parent p"
  have "\<not> completed (cu_response (snd ((take_chunk env now ^^ k) cr)))" if "\<not> completed (cu_response (snd cr))" for k cr
    by (induction k) (simp_all add: that)
  then have "\<not> completed (cu_response (snd ?start))" by (simp add: start_chunked_def Let_def)
  moreover have "anonymous (w, parent, p)" using assms(1) by (auto simp: anonymous_def)
  ultimately have "\<exists>q. same_run q ?start \<and> anonymous q \<and> \<not> completed (cu_response (snd ?start))"
    using start_chunked_same by blast
  from anonymous.run_inv [OF this, of env evs] have "\<not> completed (cu_response r')" by (auto simp: assms(2))
  then show ?thesis by auto
qed

subsection \<open>Concrete runs\<close>

text \<open>A run for the witnesses: a product of two rows in two chunks, both placed on the simulated worker, which answers the
  second one first.\<close>

definition demo_server_env :: server_env where
  "demo_server_env = \<lparr>se_dispatch = \<lparr>di_transport = demo_te, di_parse = (\<lambda>_. None), di_parseInt = (\<lambda>_. None),
       di_base64 = (\<lambda>_. []), di_message = (\<lambda>_. []), di_result_message = (\<lambda>_. [])\<rparr>,
     se_codec = \<lparr>jc_stringify = (\<lambda>_. ''k''), jc_parse = (\<lambda>_. None), jc_decode = (\<lambda>_. []), jc_text = (\<lambda>_. []),
       jc_number = (\<lambda>_. None)\<rparr>,
     se_unbase64 = (\<lambda>_. []), se_unbase64_text = id, se_memory = (\<lambda>_. 0)\<rparr>"

abbreviation demo_core :: core where
  "demo_core \<equiv> start_core (new_transport 1 new_service demo_pipeline) DEFAULT_DECISION_CONFIG [] True"

definition demo_decision :: decision_result where
  "demo_decision = local_result 0 None 0 (NotCertified ''k'') None"

definition demo_workload :: "(string \<times> json) list \<Rightarrow> buffer \<Rightarrow> workload" where
  "demo_workload params payload = \<lparr>wl_workloadId = Some ''w'', wl_kernelId = ''k'', wl_parameters = params,
     wl_totalPayloadBytes = int (length payload), wl_rawPayloadBuffer = Some payload, wl_payloadBase64 = None,
     wl_itemCount = None, wl_uri = None, wl_batchId = None\<rparr>"

definition demo_answer :: "string \<Rightarrow> payload \<Rightarrow> string + task_result_payload" where
  "demo_answer i out = Inr \<lparr>rp_taskId = i, rp_workerId = SIM_DEVICE_ID, rp_outputData = out, rp_executionTimeMs = 1,
     rp_attemptNumber = None, rp_itemCount = None, rp_workerHostname = None, rp_workerPid = None\<rparr>"

text \<open>Both answers, the second chunk first.\<close>

definition demo_rounds :: "string \<Rightarrow> payload \<Rightarrow> string \<Rightarrow> payload \<Rightarrow> run_event list" where
  "demo_rounds i0 out0 i1 out1 =
     [OfCore (Answers 5 1 (demo_answer i1 out1)), OfCore (Resumes 6 1), ChunkArrives 6 1,
      OfCore (Answers 7 0 (demo_answer i0 out0)), OfCore (Resumes 8 0), ChunkArrives 8 0]"

lemma demo_returned:
  assumes "cu_slots r = [0, 1]"
    and "map dp_state (co_dispatches c) = [Returned o0 w0 t0, Returned o1 w1 t1]"
  shows "fst (returned c r 0) = o0" "fst (returned c r (Suc 0)) = o1"
proof -
  have "length (co_dispatches c) = 2" using arg_cong [OF assms(2), of length] by simp
  then have "dp_state (co_dispatches c ! 0) = Returned o0 w0 t0" "dp_state (co_dispatches c ! 1) = Returned o1 w1 t1"
    using arg_cong [OF assms(2), of "\<lambda>xs. xs ! 0"] arg_cong [OF assms(2), of "\<lambda>xs. xs ! 1"] by simp_all
  then show "fst (returned c r 0) = o0" "fst (returned c r (Suc 0)) = o1" by (simp_all add: returned_def assms(1))
qed

definition demo_product :: workload where
  "demo_product = demo_workload [(''M'', JNum 2), (''K'', JNum 1), (''N'', JNum 1), (''chunks'', JNum 2)]
     [1, 2, 3, 4, 5, 6, 7, 8, 9, 10, 11, 12]"

definition demo_product_specs :: "matrix_chunk_spec list" where
  "demo_product_specs = map (matrix_spec ''w'' 2 1 1 2 [1, 2, 3, 4, 5, 6, 7, 8] [9, 10, 11, 12]) [(0, 0, 1), (1, 1, 2)]"

definition demo_product_run :: "core \<times> chunked_run" where
  "demo_product_run = start_chunked demo_server_env 0 (\<lambda>_. ''x'') demo_core demo_product True demo_decision ''w''
     (MatrixPlan 2 1 1 demo_product_specs)"

definition demo_product_events :: "run_event list" where
  "demo_product_events = demo_rounds ''w-c0-x'' (Bytes [9, 20, 33, 48]) ''w-c1-x'' (Bytes [45, 60, 77, 96])"

lemma demo_product_plan:
  "plan_matrix demo_server_env demo_core demo_product ''w'' = Inr (MatrixPlan 2 1 1 demo_product_specs)"
  by code_simp

lemma demo_product_over:
  "(case fold (run_exec demo_server_env) demo_product_events demo_product_run of
     (c, r) \<Rightarrow> (cu_response r, cu_awaited r, cu_slots r, map dp_state (co_dispatches c))) =
   (None, [], [0, 1], [Returned (Bytes [9, 20, 33, 48]) SIM_DEVICE_ID 1, Returned (Bytes [45, 60, 77, 96]) SIM_DEVICE_ID 1])"
  by code_simp

theorem chunked_matmul_exact_witness:
  "\<exists>c r. fold (run_exec demo_server_env) demo_product_events demo_product_run = (c, r) \<and>
     cu_response (finish_run demo_server_env c r) = Some (Completed (Bytes [9, 20, 33, 48, 45, 60, 77, 96]) 2)"
proof -
  obtain c r where run: "fold (run_exec demo_server_env) demo_product_events demo_product_run = (c, r)" by fastforce
  note facts = demo_product_over [unfolded run prod.case prod.inject]
  have n: "length demo_product_specs = 2" by (simp add: demo_product_specs_def)
  have chunks: "run_chunk demo_ops (demo_product_specs ! 0) = [9, 20, 33, 48]" "run_chunk demo_ops (demo_product_specs ! Suc 0) = [45, 60, 77, 96]"
    by code_simp+
  have ret: "fst (returned c r 0) = Bytes [9, 20, 33, 48]" "fst (returned c r (Suc 0)) = Bytes [45, 60, 77, 96]"
    using demo_returned [OF facts [THEN conjunct2, THEN conjunct2, THEN conjunct1] facts [THEN conjunct2, THEN conjunct2, THEN conjunct2]]
    by simp_all
  have honest: "output_bytes (se_unbase64 demo_server_env) (fst (returned c r i)) = run_chunk demo_ops (demo_product_specs ! i)"
    if "i < length demo_product_specs" for i
  proof -
    have "i = 0 \<or> i = Suc 0" using that n by auto
    then show ?thesis using ret chunks by auto
  qed
  have "computeMatrixMultiply demo_ops (raw_payload demo_server_env demo_product) 2 1 1 = [9, 20, 33, 48, 45, 60, 77, 96]"
    by code_simp
  moreover have "response_payload demo_server_env demo_product b = Bytes b" for b
    by (simp add: response_payload_def demo_product_def demo_workload_def)
  ultimately show ?thesis
    using chunked_matmul_exact [OF demo_product_plan run [unfolded demo_product_run_def] _ _ honest] facts run n by simp
qed


text \<open>An image of three rows in two chunks, with and without a workload id.\<close>

definition demo_image :: "string option \<Rightarrow> workload" where
  "demo_image i = (demo_workload [(''width'', JNum 1), (''height'', JNum 3), (''radius'', JNum 1), (''mode'', JStr ''L''),
     (''chunks'', JNum 2)] [10, 40, 100])\<lparr>wl_workloadId := i\<rparr>"

definition demo_image_specs :: "string \<Rightarrow> image_chunk_spec list" where
  "demo_image_specs parent = map (image_spec parent 1 3 1 ''L'' 1 2 [10, 40, 100]) [(0, 0, 2), (1, 2, 3)]"

definition demo_image_run :: "string option \<Rightarrow> string \<Rightarrow> core \<times> chunked_run" where
  "demo_image_run i parent = start_chunked demo_server_env 0 (\<lambda>_. ''x'') demo_core (demo_image i) True demo_decision parent
     (ImagePlan 1 3 1 (demo_image_specs parent))"

definition demo_image_events :: "string \<Rightarrow> run_event list" where
  "demo_image_events parent = demo_rounds (parent @ ''-chunk-00'') (Bytes [20, 50, 80]) (parent @ ''-chunk-01'') (Bytes [60, 80])"



lemma demo_anonymous_over:
  "(case fold (run_exec demo_server_env) (demo_image_events ''wkl-image-parent'') (demo_image_run None ''wkl-boxblur-1'') of
     (c, r) \<Rightarrow> (cu_response r, cu_awaited r, cu_arrived r, map dp_state (co_dispatches c))) =
   (None, [], [1, 0], [Returned (Bytes [20, 50, 80]) SIM_DEVICE_ID 1, Returned (Bytes [60, 80]) SIM_DEVICE_ID 1])"
  by code_simp


theorem anonymous_media_never_complete_witness:
  "\<exists>c r. fold (run_exec demo_server_env) (demo_image_events ''wkl-image-parent'' @ [AllEnded]) (demo_image_run None ''wkl-boxblur-1'') = (c, r) \<and>
     cu_awaited r = [] \<and> cu_response r \<noteq> Some (Completed (Bytes [20, 50, 80]) 2)"
proof -
  obtain c r where run: "fold (run_exec demo_server_env) (demo_image_events ''wkl-image-parent'') (demo_image_run None ''wkl-boxblur-1'') = (c, r)"
    by fastforce
  note facts = demo_anonymous_over [unfolded run prod.case prod.inject]
  have run': "fold (run_exec demo_server_env) (demo_image_events ''wkl-image-parent'' @ [AllEnded]) (demo_image_run None ''wkl-boxblur-1'') =
      (c, finish_run demo_server_env c r)" by (simp add: run)
  have anon: "ImagePlan 1 3 1 (demo_image_specs ''wkl-boxblur-1'') = ImagePlan 1 3 1 (demo_image_specs ''wkl-boxblur-1'') \<and>
      image_parent (wl_workloadId (demo_image None)) \<noteq> ''wkl-boxblur-1'' \<or>
      ImagePlan 1 3 1 (demo_image_specs ''wkl-boxblur-1'') = VideoPlan 0 [] \<and> video_parent (wl_workloadId (demo_image None)) \<noteq> ''wkl-boxblur-1''"
    by (simp add: image_parent_def demo_image_def str_or_def or_undef_def)
  have "cu_awaited (finish_run demo_server_env c r) = []"
    using facts by (simp add: finish_run_def reject_def split: sum.splits)
  with run' anonymous_media_never_complete [OF anon run' [unfolded demo_image_run_def]] show ?thesis by blast
qed









end
