(* ===== verification/Ipc_Server.thy ===== *)
theory Ipc_Server
  imports Chunked_Workloads Simulation_Worker
begin

text \<open>
  \<open>IpcServer\<close> of \<^verbatim>\<open>core/src/ipc_server.ts\<close>: the state it adds to the shared objects, the ring of recent workload events,
  the requests that \<open>handleMessage\<close> answers at once, and \<open>executeWorkload\<close> with its decision, its choice among the chunked
  paths and the single task, and the events it records.  The response of a workload that runs is the response of its
  run or dispatcher.

  A workload event is an object whose fields are a map; \<open>{...old, ...new}\<close> overrides the fields of \<open>old\<close> one by one, also by
  \<open>undefined\<close>, which is the value \<open>None\<close>.  Durations that are measured by \<open>performance.now()\<close> are left out of the events.
\<close>

subsection \<open>Recent workloads\<close>

type_synonym event = "(string, json option) jsmap"

definition event_field :: "event \<Rightarrow> string \<Rightarrow> json option" where
  "event_field e f = (case jget e f of Some v \<Rightarrow> v | None \<Rightarrow> None)"

definition merge_event :: "event \<Rightarrow> event \<Rightarrow> event" where
  "merge_event old new = fold (\<lambda>(k, v) m. jset m k v) new old"

definition MAX_RECENT :: nat where
  "MAX_RECENT = 50"

definition push_event :: "event list \<Rightarrow> event \<Rightarrow> event list" where
  "push_event recent event =
     (let r = recent @ [event] in if MAX_RECENT < length r then tl r else r)"

definition recordWorkloadEvent :: "event list \<Rightarrow> event \<Rightarrow> event list" where
  "recordWorkloadEvent recent event =
     (case find (\<lambda>i. event_field (recent ! i) ''workloadId'' = event_field event ''workloadId'' \<or>
                     event_field (recent ! i) ''taskId'' = event_field event ''taskId'') [0..<length recent] of
        Some i \<Rightarrow> recent[i := merge_event (recent ! i) event]
      | None \<Rightarrow> push_event recent event)"

subsection \<open>State\<close>

text \<open>A workload that runs as a single task: the index of its dispatcher and what its events repeat.\<close>

record single_run =
  sr_dispatch :: nat
  sr_workload :: workload
  sr_force :: bool
  sr_decision :: decision_result
  sr_hostName :: string

text \<open>A chunked run, with what its events repeat of the state at its start: whether the simulator was on and the number of
  nodes.\<close>

record workload_run =
  wr_run :: chunked_run
  wr_simActive :: bool
  wr_nodes :: int

record ipc_server =
  ip_core :: core
  ip_simulation :: simulation_worker
  ip_swarmEnabled :: bool
  ip_forceSwarmOverride :: bool
  ip_recentWorkloads :: "event list"
  ip_runs :: "workload_run list"
  ip_singles :: "single_run list"

record ipc_env =
  ie_server :: server_env
  ie_reason :: "choice_reason \<Rightarrow> string"
  ie_message :: "failure \<Rightarrow> string"
  ie_creates :: "string \<Rightarrow> bool"

definition record_event :: "event \<Rightarrow> ipc_server \<Rightarrow> ipc_server" where
  "record_event e ip = ip\<lparr>ip_recentWorkloads := recordWorkloadEvent (ip_recentWorkloads ip) e\<rparr>"

definition with_core :: "ipc_server \<Rightarrow> core \<Rightarrow> ipc_server" where
  "with_core ip c = ip\<lparr>ip_core := c\<rparr>"

definition with_transport :: "ipc_server \<Rightarrow> transport \<Rightarrow> ipc_server" where
  "with_transport ip t = ip\<lparr>ip_core := (ip_core ip)\<lparr>co_transport := t\<rparr>\<rparr>"

definition with_workers :: "ipc_server \<Rightarrow> worker_manager \<Rightarrow> ipc_server" where
  "with_workers ip m = with_transport ip ((co_transport (ip_core ip))\<lparr>tr_workers := m\<rparr>)"

abbreviation ip_transport :: "ipc_server \<Rightarrow> transport" where
  "ip_transport ip \<equiv> co_transport (ip_core ip)"

abbreviation ip_workers :: "ipc_server \<Rightarrow> worker_manager" where
  "ip_workers ip \<equiv> tr_workers (ip_transport ip)"

abbreviation ip_pipeline :: "ipc_server \<Rightarrow> workload_pipeline" where
  "ip_pipeline ip \<equiv> tr_pipeline (ip_transport ip)"

subsection \<open>Requests\<close>

datatype ipc_request =
    GetStatus
  | ListDiscoveredWorkers
  | ListWorkers
  | ListLiveStates
  | ListTrustedWorkers
  | InitiatePairing "string option"
  | RevokeWorker "string option"
  | ToggleSwarm "bool option"
  | SetForceSwarmMode "json option"
  | GetForceSwarmMode
  | ListTasks
  | SubmitTask "new_task option"
  | EvaluateWorkload "workload option"
  | ListRecentWorkloads
  | SetSimulationMode "json option" "string option" "int option"
  | GetSimulationStatus
  | GetWorkloadProgress "string option"
  | CancelWorkload "string option"
  | ListKernels
  | UnknownMethod string

record status_report =
  sp_enabled :: bool
  sp_forceSwarmOverride :: bool
  sp_totalTasks :: nat
  sp_pendingTasks :: nat
  sp_runningTasks :: nat
  sp_completedTasks :: nat
  sp_activeWorkerCount :: nat
  sp_eligibleWorkerCount :: nat
  sp_discoveredWorkerCount :: nat
  sp_trustedWorkerCount :: nat
  sp_webSocketConnectionCount :: nat
  sp_workers :: "worker_state list"
  sp_liveWorkers :: "worker_live_state list"

datatype ipc_result =
    StatusReport status_report
  | Discovered "discovered_worker list"
  | Workers "worker_state list"
  | LiveStates "worker_live_state list"
  | Trusted "trusted_worker list"
  | Initiated "string \<times> string \<times> string"
  | Revoked bool string
  | Enabled bool
  | ForceSwarm bool
  | Tasks "task list"
  | Created task
  | DisabledDecision
  | Decision decision_result
  | ForcedDecision decision_result
  | RecentWorkloads "event list"
  | SimulationConfig simulation_config
  | SimulationStatus simulation_config capability_profile
  | Progress workload_progress
  | ProgressNotFound string
  | Cancelled "string option"
  | Kernels "kernel_definition list"

datatype ipc_error =
    MissingField string
  | NotConnected string
  | InvalidTask
  | InvalidWorkload
  | StoreFailed store_error
  | PlanFailed plan_error
  | NoSuchMethod string

definition status_of :: "ipc_server \<Rightarrow> ms \<Rightarrow> ipc_server \<times> status_report" where
  "status_of ip now =
     (let tasks = listTasks (tr_store (ip_transport ip)) None;
          count = (\<lambda>st. length (filter (\<lambda>t. t_status t = st) tasks));
          workers = listWorkers (ip_workers ip);
          eligibleWorkers = listEligibleWorkers (ip_workers ip);
          (t, discovered) = getDiscoveredWorkers (ip_transport ip) now;
          (m, liveWorkers) = listLiveStates (tr_workers t) now
      in (with_transport ip (t\<lparr>tr_workers := m\<rparr>),
          \<lparr>sp_enabled = ip_swarmEnabled ip, sp_forceSwarmOverride = ip_forceSwarmOverride ip, sp_totalTasks = length tasks,
           sp_pendingTasks = count PENDING, sp_runningTasks = count RUNNING, sp_completedTasks = count COMPLETED,
           sp_activeWorkerCount = length workers, sp_eligibleWorkerCount = length eligibleWorkers,
           sp_discoveredWorkerCount = length discovered,
           sp_trustedWorkerCount = length (listTrustedWorkers (tr_pairing t)),
           sp_webSocketConnectionCount = length (tr_workerSockets t), sp_workers = workers, sp_liveWorkers = liveWorkers\<rparr>))"

definition initiate_pairing :: "transport_env \<Rightarrow> fresh_values \<Rightarrow> ipc_server \<Rightarrow> string option \<Rightarrow> ipc_server \<times> (ipc_error + ipc_result)" where
  "initiate_pairing te fv ip workerDeviceId =
     (case or_undef workerDeviceId of
        None \<Rightarrow> (ip, Inl (MissingField ''workerDeviceId''))
      | Some w \<Rightarrow>
          (case createPairingInitiation (te_crypto te) (tr_pairing (ip_transport ip)) (fv_now fv) w ''swarmx-host''
                  (fv_privateKey fv) (fv_publicKeyDer fv) (fv_uuid fv) of
             (ps, initiation) \<Rightarrow>
               (case sendPairingRequest ((ip_transport ip)\<lparr>tr_pairing := ps\<rparr>) w initiation of
                  (t, sent) \<Rightarrow> (with_transport ip t, if sent then Inr (Initiated initiation) else Inl (NotConnected w)))))"

definition revoke_worker :: "ipc_server \<Rightarrow> string option \<Rightarrow> ipc_server \<times> (ipc_error + ipc_result)" where
  "revoke_worker ip deviceId =
     (case or_undef deviceId of
        None \<Rightarrow> (ip, Inl (MissingField ''deviceId''))
      | Some d \<Rightarrow>
          (case revokeWorker (tr_pairing (ip_transport ip)) d of
             (ps, success) \<Rightarrow>
               (with_transport ip ((ip_transport ip)\<lparr>tr_pairing := ps, tr_workers := fst (unregisterWorker (ip_workers ip) d)\<rparr>),
                Inr (Revoked success d))))"

text \<open>The candidates of \<open>evaluateWorkload\<close> carry no count of their tasks, those of \<open>executeWorkload\<close> do.\<close>

definition candidates_of :: "(string \<Rightarrow> int option) \<Rightarrow> worker_state list \<Rightarrow> worker_candidate_load list" where
  "candidates_of inFlight = map (\<lambda>w. \<lparr>wc_deviceId = ws_deviceId w, wc_capabilityProfile = Some (ws_capabilityProfile w),
     wc_telemetry = ws_latestTelemetry w, wc_inFlightTasks = inFlight (ws_deviceId w)\<rparr>)"

definition eligible_count :: "ipc_server \<Rightarrow> nat" where
  "eligible_count ip = length (filter ws_isEligible (listWorkers (ip_workers ip)))"

definition evaluate_workload :: "transport_env \<Rightarrow> ipc_server \<Rightarrow> workload option \<Rightarrow> ipc_error + ipc_result" where
  "evaluate_workload te ip w =
     (case w of
        None \<Rightarrow> Inl InvalidWorkload
      | Some w \<Rightarrow>
          if wl_kernelId w = [] then Inl InvalidWorkload
          else if \<not> ip_swarmEnabled ip then Inr DisabledDecision
          else
            let decision = evaluate (te_environment te) (co_engine (ip_core ip)) (wl_kernelId w) (wl_totalPayloadBytes w)
                  (candidates_of (\<lambda>_. None) (listWorkers (ip_workers ip)))
            in if ip_forceSwarmOverride ip \<and> 0 < eligible_count ip then Inr (ForcedDecision decision) else Inr (Decision decision))"

text \<open>\<open>setSimulationMode\<close>, and the same when \<open>SWARMX_SIMULATION_MODE\<close> is set at the start.\<close>

definition register_cluster :: "environment \<Rightarrow> ms \<Rightarrow> simulation_worker \<Rightarrow> worker_manager \<Rightarrow> worker_manager" where
  "register_cluster environment now sim m =
     (let register = (\<lambda>p m. case registerWorker m now p of Inl _ \<Rightarrow> m | Inr (m', _) \<Rightarrow> m');
          report = (\<lambda>t m. case updateTelemetry environment m now t of Inl _ \<Rightarrow> m | Inr (m', _) \<Rightarrow> m')
      in fold report (getAllTelemetries sim now) (fold register getAllCapabilityProfiles m))"

definition unregister_cluster :: "worker_manager \<Rightarrow> worker_manager" where
  "unregister_cluster m =
     fold (\<lambda>d m. fst (unregisterWorker m d)) (map cp_deviceId getAllCapabilityProfiles @ [SIM_DEVICE_ID]) m"

definition set_simulation :: "ipc_env \<Rightarrow> environment \<Rightarrow> ms \<Rightarrow> partial_config \<Rightarrow> ipc_server \<Rightarrow> ipc_server \<times> simulation_config" where
  "set_simulation env environment now newConfig ip =
     (case setConfig (ie_creates env) (ip_simulation ip) newConfig of
        (sim, config) \<Rightarrow>
          let ip1 = ip\<lparr>ip_simulation := sim, ip_core := (ip_core ip)\<lparr>co_simulation := isEnabled sim\<rparr>\<rparr>
          in (with_workers ip1 (if sc_enabled config then register_cluster environment now sim (ip_workers ip1)
                                else unregister_cluster (ip_workers ip1)), config))"

definition start_server :: "ipc_env \<Rightarrow> environment \<Rightarrow> ms \<Rightarrow> ipc_server \<Rightarrow> ipc_server" where
  "start_server env environment now ip =
     (if environment ''SWARMX_SIMULATION_MODE'' = Some ''1''
      then fst (set_simulation env environment now
             \<lparr>pc_enabled = Some True, pc_failureMode = None, pc_simulatedDelayMs = Some 0\<rparr> ip)
      else ip)"

text \<open>\<open>cancelWorkload\<close> answers success whatever the pipeline says, resets the stage of every worker and pushes an
  event without looking for an older one of the workload.\<close>

definition cancelled_event :: "ms \<Rightarrow> string option \<Rightarrow> event" where
  "cancelled_event now workloadId =
     (let i = str_or workloadId ''wkl-cancelled''
      in [(''workloadId'', Some (JStr i)), (''taskId'', Some (JStr i)), (''workerId'', Some (JStr ''swarm-host'')),
          (''workerHostname'', Some (JStr ''Swarm Coordinator'')), (''startTimeMs'', Some (jint now)),
          (''endTimeMs'', Some (jint now)), (''durationSeconds'', Some (JNum 0)), (''localVsRemote'', Some (JStr ''REMOTE'')),
          (''status'', Some (JStr ''FAILED'')), (''kernelId'', Some (JStr ''video_frame_analysis_v1'')),
          (''decision'', Some (JStr ''SWARM'')),
          (''decisionReason'', Some (JStr ''Workload execution was aborted via Control Center.'')),
          (''parameters'', Some (JObj [(''totalChunks'', JNum 0), (''completedChunks'', JNum 0), (''failedChunks'', JNum 0)]))])"

definition cancel_workload :: "ms \<Rightarrow> ipc_server \<Rightarrow> string option \<Rightarrow> ipc_server" where
  "cancel_workload now ip workloadId =
     (let c = (case or_undef workloadId of
            Some i \<Rightarrow>
              if i = ''ALL'' then ip_core ip
              else (case cancelWorkload (ip_pipeline ip) i of
                      (p, cancelled, calls) \<Rightarrow> deliver now calls (with_pipeline (ip_core ip) p))
          | None \<Rightarrow> ip_core ip);
          (m, live) = listLiveStates (co_workers c) now;
          ready = fold (\<lambda>l m. fst (updateWorkerStage m now (ls_deviceId l) Stage_READY None)) live m;
          ip1 = with_workers (with_core ip c) ready
      in ip1\<lparr>ip_recentWorkloads := push_event (ip_recentWorkloads ip1) (cancelled_event now workloadId)\<rparr>)"

definition handleMessage ::
  "ipc_env \<Rightarrow> fresh_values \<Rightarrow> ipc_request \<Rightarrow> ipc_server \<Rightarrow> ipc_server \<times> (ipc_error + ipc_result)" where
  "handleMessage env fv req ip =
     (let te = di_transport (se_dispatch (ie_server env)); now = fv_now fv
      in case req of
           GetStatus \<Rightarrow> (case status_of ip now of (ip', s) \<Rightarrow> (ip', Inr (StatusReport s)))
         | ListDiscoveredWorkers \<Rightarrow>
             (case getDiscoveredWorkers (ip_transport ip) now of (t, ds) \<Rightarrow> (with_transport ip t, Inr (Discovered ds)))
         | ListWorkers \<Rightarrow> (ip, Inr (Workers (listWorkers (ip_workers ip))))
         | ListLiveStates \<Rightarrow>
             (case listLiveStates (ip_workers ip) now of (m, live) \<Rightarrow> (with_workers ip m, Inr (LiveStates live)))
         | ListTrustedWorkers \<Rightarrow> (ip, Inr (Trusted (listTrustedWorkers (tr_pairing (ip_transport ip)))))
         | InitiatePairing w \<Rightarrow> initiate_pairing te fv ip w
         | RevokeWorker d \<Rightarrow> revoke_worker ip d
         | ToggleSwarm b \<Rightarrow>
             (let e = (case b of Some v \<Rightarrow> v | None \<Rightarrow> \<not> ip_swarmEnabled ip)
              in (ip\<lparr>ip_swarmEnabled := e\<rparr>, Inr (Enabled e)))
         | SetForceSwarmMode v \<Rightarrow> (ip\<lparr>ip_forceSwarmOverride := truthy v\<rparr>, Inr (ForceSwarm (truthy v)))
         | GetForceSwarmMode \<Rightarrow> (ip, Inr (ForceSwarm (ip_forceSwarmOverride ip)))
         | ListTasks \<Rightarrow> (ip, Inr (Tasks (listTasks (tr_store (ip_transport ip)) None)))
         | SubmitTask nt \<Rightarrow>
             (case nt of
                None \<Rightarrow> (ip, Inl InvalidTask)
              | Some nt \<Rightarrow>
                  if nt_id nt = [] then (ip, Inl InvalidTask)
                  else (case createTask (tr_store (ip_transport ip)) now nt of
                          Inl e \<Rightarrow> (ip, Inl (StoreFailed e))
                        | Inr (s, task) \<Rightarrow> (with_transport ip (set_store (ip_transport ip) s), Inr (Created task))))
         | EvaluateWorkload w \<Rightarrow> (ip, evaluate_workload te ip w)
         | ListRecentWorkloads \<Rightarrow> (ip, Inr (RecentWorkloads (ip_recentWorkloads ip)))
         | SetSimulationMode enabled failureMode delay \<Rightarrow>
             (case set_simulation env (te_environment te) now
                     \<lparr>pc_enabled = Some (truthy enabled), pc_failureMode = Some (str_or failureMode ''NONE''),
                      pc_simulatedDelayMs = Some (case delay of Some d \<Rightarrow> d | None \<Rightarrow> 0)\<rparr> ip of
                (ip', config) \<Rightarrow> (ip', Inr (SimulationConfig config)))
         | GetSimulationStatus \<Rightarrow> (ip, Inr (SimulationStatus (getConfig (ip_simulation ip)) (getCapabilityProfile None)))
         | GetWorkloadProgress i \<Rightarrow>
             (case or_undef i of
                None \<Rightarrow> (ip, Inl (MissingField ''workloadId''))
              | Some i \<Rightarrow> (ip, Inr (case getWorkloadProgress (ip_pipeline ip) now i of
                                   Some p \<Rightarrow> Progress p
                                 | None \<Rightarrow> ProgressNotFound i)))
         | CancelWorkload i \<Rightarrow> (cancel_workload now ip i, Inr (Cancelled i))
         | ListKernels \<Rightarrow> (ip, Inr (Kernels (listKernels (dn_registry (co_engine (ip_core ip))))))
         | UnknownMethod m \<Rightarrow> (ip, Inl (NoSuchMethod m)))"

end
