(* ===== verification/Workload_Execution.thy ===== *)
theory Workload_Execution
  imports Ipc_Server
begin

text \<open>
  \<open>executeWorkload\<close> of \<^verbatim>\<open>core/src/ipc_server.ts\<close>: the decision, the choice of a path, the events that the paths record,
  and the end of a run or of a single task.  The id that a workload without one is given and the suffix that makes a
  task id unique are arguments.  A single task's event does not show the host name and the process id that the
  worker reports, nor do events show an estimate that is \<open>Infinity\<close>.
\<close>

subsection \<open>Events\<close>

definition em_dash :: string where
  "em_dash = [CHR 0xE2, CHR 0x80, CHR 0x94]"

definition jtext :: "string \<Rightarrow> json option" where
  "jtext s = Some (JStr s)"

definition decision_fields :: "ipc_env \<Rightarrow> decision_result \<Rightarrow> event" where
  "decision_fields env d =
     [(''decision'', jtext (case dr_decision d of SWARM \<Rightarrow> ''SWARM'' | LOCAL \<Rightarrow> ''LOCAL'')),
      (''estimatedLocalTimeMs'', Some (jint (dr_estimatedLocalTimeMs d))),
      (''estimatedSwarmTimeMs'', map_option jint (dr_estimatedSwarmTimeMs d)),
      (''estimatedQueueTimeMs'', map_option jint (dr_estimatedQueueTimeMs d)),
      (''estimatedTransferTimeMs'', map_option jint (dr_estimatedTransferTimeMs d)),
      (''estimatedComputeTimeMs'', map_option jint (dr_estimatedComputeTimeMs d)),
      (''estimatedGain'', Some (JNum (dr_estimatedGain d))), (''decisionReason'', jtext (ie_reason env (dr_reason d)))]"

text \<open>\<open>params.batchId || workload.batchId\<close>, and for a single task a constant when the id contains \<open>parallel\<close>.\<close>

definition batch_id :: "workload \<Rightarrow> json option" where
  "batch_id w =
     (let b = map_of (wl_parameters w) ''batchId'' in if truthy b then b else wl_batchId w)"

definition task_batch_id :: "workload \<Rightarrow> string \<Rightarrow> json option" where
  "task_batch_id w wklId =
     (if truthy (batch_id w) then batch_id w
      else if contains_text wklId ''parallel'' then jtext ''parallel-matmul-demo'' else None)"

definition identity_fields :: "string \<Rightarrow> string \<Rightarrow> string \<Rightarrow> event" where
  "identity_fields workloadId taskId workerId =
     [(''workloadId'', jtext workloadId), (''taskId'', jtext taskId), (''workerId'', jtext workerId)]"

definition local_event :: "ipc_env \<Rightarrow> ms \<Rightarrow> workload \<Rightarrow> string \<Rightarrow> decision_result \<Rightarrow> event" where
  "local_event env now w wklId d =
     identity_fields wklId wklId ''local-host'' @
     [(''workerHostname'', jtext ''Local Host''), (''status'', jtext ''LOCAL_FALLBACK''), (''startTimeMs'', Some (jint now)),
      (''endTimeMs'', Some (jint now)), (''durationSeconds'', Some (JNum 0)), (''localVsRemote'', jtext ''LOCAL''),
      (''kernelId'', jtext (wl_kernelId w)), (''batchId'', task_batch_id w wklId)] @
     decision_fields env d @
     [(''isForceSwarm'', Some (JBool False)), (''inputBytes'', Some (jint (wl_totalPayloadBytes w))),
      (''parameters'', Some (JObj (wl_parameters w)))]"

fun plan_kernel :: "plan \<Rightarrow> string" where
  "plan_kernel (MatrixPlan M K N specs) = ''matrix_multiply_v1''"
| "plan_kernel (ImagePlan w h ch specs) = ''image_filter_box_blur_v1''"
| "plan_kernel (VideoPlan frames specs) = ''video_frame_analysis_v1''"

text \<open>The number of nodes that the host name of an event mentions, and the parameters that it shows.\<close>

fun plan_nodes :: "json_codec \<Rightarrow> core \<Rightarrow> (string \<times> json) list \<Rightarrow> plan \<Rightarrow> int" where
  "plan_nodes jc c params (MatrixPlan M K N specs) = chunk_count jc c params M"
| "plan_nodes jc c params (ImagePlan w h ch specs) = chunk_count jc c params h"
| "plan_nodes jc c params (VideoPlan frames specs) = effective_workers c"

definition plan_parameters :: "json_codec \<Rightarrow> (string \<times> json) list \<Rightarrow> plan \<Rightarrow> (string \<times> json) list" where
  "plan_parameters jc params p =
     (let ps = jset params ''totalChunks'' (jint (int (plan_size p)))
      in case p of
           VideoPlan frames _ \<Rightarrow> jset (jset ps ''totalFrames'' (jint frames)) ''chunkSize''
             (jint (case number_param jc params [''chunkSize'', ''framesPerChunk''] 30 of Some n \<Rightarrow> n | None \<Rightarrow> 0))
         | _ \<Rightarrow> ps)"

text \<open>The \<open>RUNNING\<close> and \<open>COMPLETE\<close> events of a chunked run.\<close>

definition chunked_event :: "ipc_env \<Rightarrow> string \<Rightarrow> event \<Rightarrow> workload_run \<Rightarrow> event" where
  "chunked_event env status extra wr =
     (let r = wr_run wr
      in identity_fields (cu_parent r) (cu_parent r) (if wr_simActive wr then SIM_DEVICE_ID else ''multi-worker-swarm'') @
         [(''workerHostname'', jtext (if wr_simActive wr then test_tube @ '' Virtual Apple Silicon Worker''
                                     else int_text (wr_nodes wr) @ '' Swarm Nodes'')),
          (''status'', jtext status), (''startTimeMs'', Some (jint (cu_startTimeMs r)))] @ extra @
         [(''kernelId'', jtext (plan_kernel (cu_plan r))), (''batchId'', batch_id (cu_workload r))] @
         decision_fields env (cu_decision r) @
         [(''isForceSwarm'', Some (JBool (cu_force r))), (''inputBytes'', Some (jint (wl_totalPayloadBytes (cu_workload r)))),
          (''parameters'', Some (JObj (plan_parameters (se_codec (ie_server env)) (wl_parameters (cu_workload r)) (cu_plan r))))])"

definition failed_event :: "ipc_env \<Rightarrow> ms \<Rightarrow> failure \<Rightarrow> chunked_run \<Rightarrow> event" where
  "failed_event env now f r =
     identity_fields (cu_parent r) (cu_parent r) ''multi-worker-swarm'' @
     [(''workerHostname'', jtext ''Swarm Cluster''), (''status'', jtext ''FAILED''), (''startTimeMs'', Some (jint (cu_startTimeMs r))),
      (''endTimeMs'', Some (jint now)), (''durationSeconds'', Some (JNum (of_int (now - cu_startTimeMs r) / 1000))),
      (''localVsRemote'', jtext ''REMOTE''), (''kernelId'', jtext ''matrix_multiply_v1''), (''batchId'', batch_id (cu_workload r)),
      (''decision'', jtext (case dr_decision (cu_decision r) of SWARM \<Rightarrow> ''SWARM'' | LOCAL \<Rightarrow> ''LOCAL'')),
      (''decisionReason'', jtext (str_or (Some (ie_message env f)) ''Chunk execution failed'')),
      (''isForceSwarm'', Some (JBool (cu_force r))), (''inputBytes'', Some (jint (wl_totalPayloadBytes (cu_workload r)))),
      (''parameters'', Some (JObj (wl_parameters (cu_workload r))))]"

definition task_event :: "ipc_env \<Rightarrow> string \<Rightarrow> event \<Rightarrow> single_run \<Rightarrow> dispatch \<Rightarrow> event" where
  "task_event env status extra sr d =
     (let w = sr_workload sr; i = t_id (dp_task d); wklId = str_or (wl_workloadId w) i
      in identity_fields wklId i (str_or (t_assignedWorkerId (dp_task d)) []) @
         [(''status'', jtext status), (''startTimeMs'', Some (jint (t_createdAtMs (dp_task d))))] @ extra @
         [(''kernelId'', jtext (wl_kernelId w)), (''batchId'', task_batch_id w wklId)] @
         decision_fields env (sr_decision sr) @
         [(''isForceSwarm'', Some (JBool (sr_force sr))), (''inputBytes'', Some (jint (wl_totalPayloadBytes w))),
          (''parameters'', Some (JObj (wl_parameters w)))])"

text \<open>A run that has its response records it; the handlers of images and videos record no failure.\<close>

definition record_response :: "ipc_env \<Rightarrow> ms \<Rightarrow> workload_run \<Rightarrow> ipc_server \<Rightarrow> ipc_server" where
  "record_response env now wr ip =
     (case (cu_response (wr_run wr), cu_plan (wr_run wr)) of
        (Some (Completed out n), p) \<Rightarrow>
          record_event (chunked_event env ''COMPLETE''
            [(''endTimeMs'', Some (jint now)), (''queueTimeMs'', Some (JNum 0)), (''localVsRemote'', jtext ''REMOTE'')] wr) ip
      | (Some (NotCompleted status f), MatrixPlan M K N specs) \<Rightarrow> record_event (failed_event env now f (wr_run wr)) ip
      | _ \<Rightarrow> ip)"

subsection \<open>The choice of a path\<close>

datatype path = ChunkedProduct | ChunkedImage | ChunkedVideo | SingleTask

definition choose_path :: "json_codec \<Rightarrow> ipc_server \<Rightarrow> workload \<Rightarrow> bool \<Rightarrow> path" where
  "choose_path jc ip w isForceSwarm =
     (let num = (\<lambda>ks. number_param jc (wl_parameters w) ks 0);
          requestedChunks = num [''chunks'', ''chunkCount''];
          connectedRealCount = eligible_count ip;
          simActive = isEnabled (ip_simulation ip);
          spread = at_least requestedChunks 2 \<or> 1 < connectedRealCount \<and> 64 * 1024 \<le> wl_totalPayloadBytes w \<or>
                   simActive \<and> at_least requestedChunks 2
      in if wl_kernelId w = ''matrix_multiply_v1'' \<and> at_least (num [''M'']) 64 \<and> at_least (num [''K'']) 1 \<and>
            at_least (num [''N'']) 1 \<and> spread then ChunkedProduct
         else if wl_kernelId w = ''image_filter_box_blur_v1'' \<and> at_least (num [''width'']) 64 \<and> at_least (num [''height'']) 64 \<and> spread
         then ChunkedImage
         else if wl_kernelId w = ''video_frame_analysis_v1'' \<and>
            (at_least (num [''totalFrames'', ''frameCount'', ''frames'']) 2 \<or> at_least requestedChunks 2 \<or> isForceSwarm \<or>
             1 \<le> connectedRealCount \<or> simActive) then ChunkedVideo
         else SingleTask)"

definition plan_for :: "server_env \<Rightarrow> core \<Rightarrow> workload \<Rightarrow> string \<Rightarrow> path \<Rightarrow> plan_error + plan" where
  "plan_for env c w parent p =
     (case p of
        ChunkedImage \<Rightarrow> plan_image env c w parent
      | ChunkedVideo \<Rightarrow> plan_video env c w parent
      | _ \<Rightarrow> plan_matrix env c w parent)"

definition single_job :: "server_env \<Rightarrow> workload \<Rightarrow> string \<Rightarrow> job" where
  "single_job env w taskId =
     \<lparr>jb_kind = SingleJob, jb_workloadId = taskId, jb_chunkIndex = 0, jb_totalChunks = 1, jb_startFrameIndex = 0,
      jb_itemCount = (case wl_itemCount w of Some n \<Rightarrow> n | None \<Rightarrow> 1),
      jb_task = (chunk_task (se_codec env) taskId (str_or (wl_uri w) ''inline_payload'')
                  (kernel_descriptor (wl_kernelId w) (wl_parameters w)) taskId)
                  \<lparr>nt_executionConstraints := Some (wl_parameters w)\<rparr>,
      jb_payload = raw_payload env w,
      jb_payloadBytes = (if wl_totalPayloadBytes w \<noteq> 0 then wl_totalPayloadBytes w
                         else case wl_rawPayloadBuffer w of Some b \<Rightarrow> int (length b) | None \<Rightarrow> 0)\<rparr>"

subsection \<open>The request\<close>

datatype local_reason = SwarmDisabled | NoWorkerForForce | DecidedLocally decision_result

datatype execution =
    RequestFailed ipc_error
  | AnsweredAtOnce response_status local_reason
  | RunsChunked nat
  | RunsTask nat
  | TaskNotSent dispatch_error

text \<open>A task of a chunk that cannot be created rejects the run at its start, after the \<open>RUNNING\<close> event.\<close>

definition start_chunks ::
  "ipc_env \<Rightarrow> ms \<Rightarrow> (int \<Rightarrow> string) \<Rightarrow> string \<Rightarrow> workload \<Rightarrow> bool \<Rightarrow> decision_result \<Rightarrow> path \<Rightarrow> ipc_server \<Rightarrow> ipc_server \<times> execution" where
  "start_chunks env now fresh generated w force decision path ip =
     (let c = ip_core ip; senv = ie_server env; parent = str_or (wl_workloadId w) generated
      in case plan_for senv c w parent path of
           Inl e \<Rightarrow> (ip, RequestFailed (PlanFailed e))
         | Inr p \<Rightarrow>
             (case start_chunked senv now fresh c w force decision parent p of
                (c', r) \<Rightarrow>
                  let wr = \<lparr>wr_run = r, wr_simActive = isEnabled (ip_simulation ip),
                            wr_nodes = plan_nodes (se_codec senv) c (wl_parameters w) p\<rparr>;
                      ip1 = ip\<lparr>ip_core := c', ip_runs := ip_runs ip @ [wr]\<rparr>
                  in (record_response env now wr (record_event (chunked_event env ''RUNNING'' [] wr) ip1),
                      RunsChunked (length (ip_runs ip)))))"

definition start_task ::
  "ipc_env \<Rightarrow> ms \<Rightarrow> string \<Rightarrow> string \<Rightarrow> workload \<Rightarrow> bool \<Rightarrow> decision_result \<Rightarrow> ipc_server \<Rightarrow> ipc_server \<times> execution" where
  "start_task env now generated unique w force decision ip =
     (let c = ip_core ip; senv = ie_server env;
          i = str_or (wl_workloadId w) generated;
          taskId = (if getTask (co_store c) i = None then i else i @ ''-'' @ unique);
          j = single_job senv w taskId
      in case open_task c now j of
           Inl e \<Rightarrow> (ip, RequestFailed (StoreFailed e))
         | Inr _ \<Rightarrow>
             let c' = start_dispatch (se_dispatch senv) now j c;
                 k = length (co_dispatches c);
                 d = co_dispatches c' ! k;
                 host = (\<lambda>t. case getWorker (co_workers c) t of
                    Some ws \<Rightarrow> str_or (Some (cp_deviceName (ws_capabilityProfile ws))) t
                  | None \<Rightarrow> test_tube @ '' Virtual Worker '' @ em_dash @ '' Simulation Mode'');
                 sr = \<lparr>sr_dispatch = k, sr_workload = w, sr_force = force, sr_decision = decision,
                       sr_hostName = host (str_or (t_assignedWorkerId (dp_task d)) [])\<rparr>;
                 ip' = ip\<lparr>ip_core := c', ip_singles := ip_singles ip @ [sr]\<rparr>
             in (case dp_state d of
                   Threw e \<Rightarrow> (ip', TaskNotSent e)
                 | _ \<Rightarrow> (record_event (task_event env ''RUNNING'' [(''workerHostname'', jtext (sr_hostName sr))] sr d) ip',
                         RunsTask (length (ip_singles ip)))))"

definition executeWorkload ::
  "ipc_env \<Rightarrow> ms \<Rightarrow> (int \<Rightarrow> string) \<Rightarrow> string \<Rightarrow> string \<Rightarrow> workload option \<Rightarrow> json option \<Rightarrow> ipc_server \<Rightarrow> ipc_server \<times> execution" where
  "executeWorkload env now fresh generated unique workload forceSwarm ip =
     (case workload of
        None \<Rightarrow> (ip, RequestFailed InvalidWorkload)
      | Some w \<Rightarrow>
          if wl_kernelId w = [] then (ip, RequestFailed InvalidWorkload)
          else if \<not> ip_swarmEnabled ip then (ip, AnsweredAtOnce RLocalFallback SwarmDisabled)
          else
            let engine = co_engine (ip_core ip);
                decision = evaluate (te_environment (di_transport (se_dispatch (ie_server env)))) engine (wl_kernelId w)
                  (wl_totalPayloadBytes w)
                  (candidates_of (\<lambda>d. Some (getInFlightCount engine d)) (listWorkers (ip_workers ip)));
                isForceSwarm = (truthy forceSwarm \<or> ip_forceSwarmOverride ip);
                path = choose_path (se_codec (ie_server env)) ip w isForceSwarm
            in if isForceSwarm \<and> eligible_count ip = 0 \<and> \<not> isEnabled (ip_simulation ip)
               then (ip, AnsweredAtOnce RFailed NoWorkerForForce)
               else if \<not> isForceSwarm \<and> dr_decision decision \<noteq> SWARM
               then (record_event (local_event env now w (str_or (wl_workloadId w) generated) decision) ip,
                     AnsweredAtOnce RLocalFallback (DecidedLocally decision))
               else if path = SingleTask then start_task env now generated unique w isForceSwarm decision ip
               else start_chunks env now fresh generated w isForceSwarm decision path ip)"

subsection \<open>The end of a workload\<close>

definition put_run :: "ipc_env \<Rightarrow> ms \<Rightarrow> nat \<Rightarrow> core \<times> chunked_run \<Rightarrow> ipc_server \<Rightarrow> ipc_server" where
  "put_run env now k cr ip =
     (let wr = (ip_runs ip ! k)\<lparr>wr_run := snd cr\<rparr>; ip' = ip\<lparr>ip_core := fst cr, ip_runs := (ip_runs ip)[k := wr]\<rparr>
      in if cu_response (wr_run (ip_runs ip ! k)) = None then record_response env now wr ip' else ip')"

definition chunk_arrives :: "ipc_env \<Rightarrow> ms \<Rightarrow> nat \<Rightarrow> nat \<Rightarrow> ipc_server \<Rightarrow> ipc_server" where
  "chunk_arrives env now k i ip =
     put_run env now k (arrive_chunk (ie_server env) now i (ip_core ip, wr_run (ip_runs ip ! k))) ip"

definition consumers_end :: "ipc_env \<Rightarrow> ms \<Rightarrow> nat \<Rightarrow> ipc_server \<Rightarrow> ipc_server" where
  "consumers_end env now k ip =
     put_run env now k (ip_core ip, finish_run (ie_server env) (ip_core ip) (wr_run (ip_runs ip ! k))) ip"

definition task_ends :: "ipc_env \<Rightarrow> ms \<Rightarrow> nat \<Rightarrow> ipc_server \<Rightarrow> ipc_server" where
  "task_ends env now k ip =
     (let sr = ip_singles ip ! k; d = co_dispatches (ip_core ip) ! sr_dispatch sr;
          over = [(''endTimeMs'', Some (jint now)),
                  (''durationSeconds'', Some (JNum (of_int (now - t_createdAtMs (dp_task d)) / 1000))), (''localVsRemote'', jtext ''REMOTE'')]
      in case dp_state d of
           Returned out worker ms \<Rightarrow>
             record_event (task_event env ''COMPLETE''
               (over @ [(''queueTimeMs'', Some (JNum 1)), (''validationTimeMs'', Some (JNum 1))]) sr d) ip
         | Threw (WorkerFailed e) \<Rightarrow> record_event (task_event env ''FAILED'' over sr d) ip
         | _ \<Rightarrow> ip)"

end
