(* ===== verification/Ipc_Theorems.thy ===== *)
theory Ipc_Theorems
  imports Workload_Execution Simulation_Theorems Dispatch_Retries
begin

text \<open>
  Properties of the whole IPC server, over every interleaving of its requests, the workloads that it executes and the
  events of the objects it shares: what stays consistent, when a workload reaches the swarm, and what the simulation
  mode does to the registered workers.
\<close>

subsection \<open>The events of the server\<close>

datatype ipc_event =
    Requested fresh_values ipc_request
  | Executes ms "int \<Rightarrow> string" string string "workload option" "json option"
  | CoreEvent core_event
  | ChunkDone ms nat nat
  | ConsumersDone ms nat
  | TaskDone ms nat

fun ipc_exec :: "ipc_env \<Rightarrow> ipc_event \<Rightarrow> ipc_server \<Rightarrow> ipc_server" where
  "ipc_exec env (Requested fv req) ip = fst (handleMessage env fv req ip)"
| "ipc_exec env (Executes now fresh generated unique w force) ip =
     fst (executeWorkload env now fresh generated unique w force ip)"
| "ipc_exec env (CoreEvent ev) ip = with_core ip (core_exec (se_dispatch (ie_server env)) ev (ip_core ip))"
| "ipc_exec env (ChunkDone now k i) ip = (if k < length (ip_runs ip) then chunk_arrives env now k i ip else ip)"
| "ipc_exec env (ConsumersDone now k) ip = (if k < length (ip_runs ip) then consumers_end env now k ip else ip)"
| "ipc_exec env (TaskDone now k) ip = (if k < length (ip_singles ip) then task_ends env now k ip else ip)"

definition new_ipc_server :: "transport \<Rightarrow> decision_config \<Rightarrow> kernel_registry \<Rightarrow> ipc_server" where
  "new_ipc_server t config registry =
     \<lparr>ip_core = start_core t config registry False, ip_simulation = new_simulation_worker, ip_swarmEnabled = True,
      ip_forceSwarmOverride = False, ip_recentWorkloads = [], ip_runs = [], ip_singles = []\<rparr>"

subsection \<open>What the events of workloads leave alone\<close>

lemma record_event_simps [simp]:
  "ip_core (record_event e ip) = ip_core ip" "ip_runs (record_event e ip) = ip_runs ip"
  "ip_singles (record_event e ip) = ip_singles ip" "ip_simulation (record_event e ip) = ip_simulation ip"
  "ip_recentWorkloads (record_event e ip) = recordWorkloadEvent (ip_recentWorkloads ip) e"
  by (simp_all add: record_event_def)

lemma record_response_core [simp]: "ip_core (record_response env now wr ip) = ip_core ip"
  by (auto simp: record_response_def split: option.splits chunked_response.splits plan.splits)

lemma put_run_core [simp]: "ip_core (put_run env now k cr ip) = fst cr"
  by (simp add: put_run_def Let_def)

subsection \<open>Properties of the core that the server keeps\<close>

text \<open>What the events of the core keep, what does not depend on the workers, the pairing or the workloads in the
  pipeline, and what a new task and a call of a listener keep, is kept by everything that the server does.\<close>

locale core_property =
  fixes Q :: "core \<Rightarrow> bool"
  assumes runs: "Q c \<Longrightarrow> Q (core_exec env ev c)"
    and frame: "Q c \<Longrightarrow> co_engine c' = co_engine c \<Longrightarrow> co_dispatches c' = co_dispatches c \<Longrightarrow> co_store c' = co_store c \<Longrightarrow> Q c'"
    and creates: "Q c \<Longrightarrow> createTask (co_store c) now nt = Inr (s, t) \<Longrightarrow> Q (with_store c s)"
    and delivers: "Q c \<Longrightarrow> Q (deliver now calls c)"
begin

lemma starts: "Q c \<Longrightarrow> Q (start_dispatch env now j c)"
  using runs [of c env "Submits now j"] by simp

lemma takes: "Q (fst cr) \<Longrightarrow> Q (fst (take_chunk env now cr))"
  by (auto simp: take_chunk_def intro: starts split: prod.splits list.splits sum.splits)

lemma arrives: "Q c \<Longrightarrow> Q (fst (arrive_chunk env now i (c, r)))"
  by (auto simp: arrive_chunk_def Let_def intro: takes split: dispatch_state.splits)

lemma chunked: "Q c \<Longrightarrow> Q (fst (start_chunked env now fresh c w force decision parent p))"
proof -
  assume "Q c"
  then have "Q (with_pipeline c (registerWorkload (co_pipeline c) now parent n))" for n
    by (rule frame) (simp_all add: with_pipeline_def registerWorkload_def)
  moreover have "Q (fst cr) \<Longrightarrow> Q (fst ((take_chunk senv now ^^ k) cr))" for k cr senv
    by (induction k) (simp_all add: takes)
  ultimately show ?thesis unfolding start_chunked_def Let_def by simp
qed

lemma changed_transport:
  "Q (ip_core ip) \<Longrightarrow> tr_pipeline t = ip_pipeline ip \<Longrightarrow> Q (ip_core (with_transport ip t))"
  by (rule frame) (simp_all add: with_transport_def)

lemma changed_workers: "Q (ip_core ip) \<Longrightarrow> Q (ip_core (with_workers ip m))"
  unfolding with_workers_def by (rule changed_transport) simp_all

lemma simulated: "Q (ip_core ip) \<Longrightarrow> Q (ip_core (fst (set_simulation env environment now cfg ip)))"
proof -
  assume "Q (ip_core ip)"
  then have "Q ((ip_core ip)\<lparr>co_simulation := b\<rparr>)" for b by (rule frame) simp_all
  then have "Q (ip_core (with_workers (ip\<lparr>ip_simulation := sim, ip_core := (ip_core ip)\<lparr>co_simulation := b\<rparr>\<rparr>) m))" for b sim m
    using changed_workers [of "ip\<lparr>ip_simulation := sim, ip_core := (ip_core ip)\<lparr>co_simulation := b\<rparr>\<rparr>" m] by simp
  then show ?thesis by (simp add: set_simulation_def Let_def split: prod.splits)
qed

lemma cancels: "Q (ip_core ip) \<Longrightarrow> Q (ip_core (cancel_workload now ip i))"
proof -
  assume Q: "Q (ip_core ip)"
  define c where "c = (case or_undef i of
            Some j \<Rightarrow>
              if j = ''ALL'' then ip_core ip
              else (case cancelWorkload (ip_pipeline ip) j of
                      (p, cancelled, calls) \<Rightarrow> deliver now calls (with_pipeline (ip_core ip) p))
          | None \<Rightarrow> ip_core ip)"
  have "Q (with_pipeline (ip_core ip) p)" if "cancelWorkload (ip_pipeline ip) j = (p, b, calls)" for j p b calls
    using Q by (rule frame) (use that in \<open>auto simp: with_pipeline_def cancelWorkload_def split: option.splits prod.splits\<close>)
  then have "Q c" unfolding c_def using Q by (auto intro: delivers split: option.splits prod.splits)
  then have "Q (ip_core (with_workers (with_core ip c) m))" for m
    using changed_workers [of "with_core ip c" m] by (simp add: with_core_def)
  then show ?thesis unfolding cancel_workload_def c_def [symmetric] by (simp add: Let_def split: prod.splits)
qed

lemma requested: "Q (ip_core ip) \<Longrightarrow> Q (ip_core (fst (handleMessage env fv req ip)))"
proof (cases req)
  case GetStatus
  assume "Q (ip_core ip)"
  then show ?thesis unfolding GetStatus
    by (auto simp: handleMessage_def status_of_def getDiscoveredWorkers_def Let_def intro!: changed_transport split: prod.splits)
next
  case (InitiatePairing w)
  assume "Q (ip_core ip)"
  then show ?thesis unfolding InitiatePairing
    by (auto simp: handleMessage_def initiate_pairing_def sendPairingRequest_def send_to_def Let_def intro!: changed_transport
        split: prod.splits option.splits if_splits)
next
  case (RevokeWorker d)
  assume "Q (ip_core ip)"
  then show ?thesis unfolding RevokeWorker
    by (auto simp: handleMessage_def revoke_worker_def intro!: changed_transport split: prod.splits option.splits)
next
  case (SubmitTask nt)
  assume "Q (ip_core ip)"
  then show ?thesis unfolding SubmitTask
    using creates [of "ip_core ip"]
    by (auto simp: handleMessage_def with_transport_def with_store_def Let_def split: option.splits sum.splits prod.splits)
next
  case (SetSimulationMode b m d)
  assume "Q (ip_core ip)"
  then show ?thesis unfolding SetSimulationMode
    using simulated [of ip env]
    by (auto simp: handleMessage_def Let_def split: prod.splits) (metis fst_conv)
qed (auto simp: handleMessage_def getDiscoveredWorkers_def Let_def listLiveStates_def
       intro!: changed_transport changed_workers cancels split: option.splits prod.splits)

lemma executed: "Q (ip_core ip) \<Longrightarrow> Q (ip_core (fst (executeWorkload env now fresh generated unique w force ip)))"
proof -
  assume Q: "Q (ip_core ip)"
  have chunks: "Q (ip_core (fst (start_chunks env now fresh generated wl f d p ip)))" for wl f d p
  proof (cases "plan_for (ie_server env) (ip_core ip) wl (str_or (wl_workloadId wl) generated) p")
    case (Inr pl)
    then show ?thesis
      using chunked [OF Q, of "ie_server env" now fresh wl f d "str_or (wl_workloadId wl) generated" pl]
      by (simp add: start_chunks_def Let_def case_prod_unfold)
  qed (use Q in \<open>simp add: start_chunks_def Let_def\<close>)
  have single: "Q (ip_core (fst (start_task env now generated unique wl f d ip)))" for wl f d
    using Q starts [OF Q] by (auto simp: start_task_def record_event_def Let_def split: sum.splits dispatch_state.splits)
  show ?thesis
    using Q chunks single by (auto simp: executeWorkload_def record_event_def Let_def split: option.splits)
qed

lemma ipc: "Q (ip_core ip) \<Longrightarrow> Q (ip_core (ipc_exec env ev ip))"
proof (cases ev)
  case (TaskDone now k)
  assume "Q (ip_core ip)"
  then show ?thesis unfolding TaskDone by (simp add: task_ends_def Let_def split: dispatch_state.splits dispatch_error.splits)
qed (simp_all add: requested executed runs with_core_def chunk_arrives_def consumers_end_def arrives)

end


interpretation reaching: store_property "store_reach (\<lambda>_. True)"
  by unfold_locales (rule store_reach.step, simp_all)

interpretation reserved_core: core_property balanced
proof
  show "balanced c \<Longrightarrow> co_engine c' = co_engine c \<Longrightarrow> co_dispatches c' = co_dispatches c \<Longrightarrow> co_store c' = co_store c \<Longrightarrow>
    balanced c'" for c c' by (simp add: balanced_def reserved_def)
  show "balanced c \<Longrightarrow> createTask (co_store c) now nt = Inr (s, t) \<Longrightarrow> balanced (with_store c s)" for c now nt s t
    by (simp add: balanced_def reserved_def)
  show "balanced c \<Longrightarrow> balanced (deliver now calls c)" for c now calls by (simp add: balanced_def)
qed (rule reserving.exec_inv)

interpretation reached_core: core_property "\<lambda>c. store_reach (\<lambda>_. True) (co_store c)"
  by unfold_locales (auto intro: reaching.core reaching.created)

subsection \<open>The ring of recent workloads\<close>

lemma push_event_bound: "length r \<le> MAX_RECENT \<Longrightarrow> length (push_event r e) \<le> MAX_RECENT"
  by (simp add: push_event_def Let_def)

lemma recordWorkloadEvent_bound: "length r \<le> MAX_RECENT \<Longrightarrow> length (recordWorkloadEvent r e) \<le> MAX_RECENT"
  by (simp add: recordWorkloadEvent_def push_event_bound split: option.splits)

lemma with_recent [simp]:
  "ip_recentWorkloads (with_core ip c) = ip_recentWorkloads ip" "ip_recentWorkloads (with_transport ip t) = ip_recentWorkloads ip"
  "ip_recentWorkloads (with_workers ip m) = ip_recentWorkloads ip"
  by (simp_all add: with_core_def with_transport_def with_workers_def)

abbreviation ring_ok :: "ipc_server \<Rightarrow> bool" where
  "ring_ok ip \<equiv> length (ip_recentWorkloads ip) \<le> MAX_RECENT"

lemma ring_response: "ring_ok ip \<Longrightarrow> ring_ok (record_response env now wr ip)"
  by (simp add: record_response_def recordWorkloadEvent_bound split: option.splits chunked_response.splits plan.splits)

lemma ring_put_run: "ring_ok ip \<Longrightarrow> ring_ok (put_run env now k cr ip)"
  by (simp add: put_run_def Let_def ring_response)

lemma ring_requested: "ring_ok ip \<Longrightarrow> ring_ok (fst (handleMessage env fv req ip))"
proof (cases req)
  case GetStatus
  then show "ring_ok ip \<Longrightarrow> ?thesis" by (simp add: handleMessage_def status_of_def Let_def case_prod_unfold)
next
  case (InitiatePairing w)
  then show "ring_ok ip \<Longrightarrow> ?thesis"
    by (simp add: handleMessage_def initiate_pairing_def Let_def case_prod_unfold split: option.splits)
next
  case (RevokeWorker d)
  then show "ring_ok ip \<Longrightarrow> ?thesis" by (simp add: handleMessage_def revoke_worker_def Let_def case_prod_unfold split: option.splits)
next
  case (SetSimulationMode b m d)
  then show "ring_ok ip \<Longrightarrow> ?thesis" by (simp add: handleMessage_def set_simulation_def Let_def case_prod_unfold)
next
  case (CancelWorkload i)
  then show "ring_ok ip \<Longrightarrow> ?thesis"
    by (simp add: handleMessage_def cancel_workload_def Let_def case_prod_unfold push_event_bound)
qed (simp_all add: handleMessage_def Let_def case_prod_unfold split: option.splits sum.splits)

lemma ring_chunks: "ring_ok ip \<Longrightarrow> ring_ok (fst (start_chunks env now fresh generated w f d p ip))"
  by (cases "plan_for (ie_server env) (ip_core ip) w (str_or (wl_workloadId w) generated) p")
     (simp_all add: start_chunks_def Let_def case_prod_unfold ring_response recordWorkloadEvent_bound)

lemma ring_task: "ring_ok ip \<Longrightarrow> ring_ok (fst (start_task env now generated unique w f d ip))"
  unfolding start_task_def Let_def
  by (simp add: recordWorkloadEvent_bound split: sum.split dispatch_state.split)

lemma ring_executed: "ring_ok ip \<Longrightarrow> ring_ok (fst (executeWorkload env now fresh generated unique w force ip))"
  by (simp add: executeWorkload_def Let_def ring_chunks ring_task recordWorkloadEvent_bound split: option.splits)

interpretation ring: machine "ipc_exec env" ring_ok for env
proof
  show "ring_ok ip \<Longrightarrow> ring_ok (ipc_exec env ev ip)" for ip ev
  proof (cases ev)
    case (TaskDone now k)
    then show "ring_ok ip \<Longrightarrow> ?thesis"
      by (simp add: task_ends_def Let_def recordWorkloadEvent_bound split: dispatch_state.splits dispatch_error.splits)
  qed (simp_all add: ring_requested ring_executed chunk_arrives_def consumers_end_def ring_put_run)
qed

subsection \<open>Consistency\<close>

lemma balanced_count:
  assumes "balanced c"
  shows "getInFlightCount (co_engine c) v = int (length (filter (\<lambda>d. awaits (dp_state d) = Some v) (co_dispatches c)))"
proof -
  have "counters_of (co_engine c) v = length (filter (\<lambda>d. awaits (dp_state d) = Some v) (co_dispatches c))"
    using assms reserved_length [of v "co_dispatches c"] by (simp add: balanced_def reserved_def)
  moreover have "0 \<le> getInFlightCount (co_engine c) v"
    using assms by (intro inFlight_nonneg) (simp add: balanced_def)
  ultimately show ?thesis by (simp add: counters_of_def nat_eq_iff)
qed

lemma new_server_balanced: "balanced (ip_core (new_ipc_server t config registry))"
  by (auto simp: new_ipc_server_def balanced_def start_core_def reserved_def reservations_ok_def counters_of_def getInFlightCount_def
      new_decision_engine_def num_or_undef_def)

interpretation consistent: machine "ipc_exec env"
  "\<lambda>ip. balanced (ip_core ip) \<and> store_reach (\<lambda>_. True) (co_store (ip_core ip))" for env
  by unfold_locales (simp add: reserved_core.ipc reached_core.ipc)

text \<open>C3. The server stays consistent in every run, whatever requests, workloads, worker messages, timeouts and answers of
  simulated workers interleave: the dependencies of the stored tasks form no cycle and no two tasks share an id; the
  reservations that the decision engine counts for a worker are the dispatchers that await a result of it; and at
  most fifty recent workloads are kept.\<close>

theorem server_stays_consistent:
  assumes "store_reach (\<lambda>_. True) (tr_store t)"
  shows "let ip = fold (ipc_exec env) evs (new_ipc_server t config registry); c = ip_core ip
    in acyclic (dep_edges (co_store c)) \<and> distinct (map t_id (ts_rows (co_store c))) \<and>
       getInFlightCount (co_engine c) w = int (length (filter (\<lambda>d. awaits (dp_state d) = Some w) (co_dispatches c))) \<and>
       length (ip_recentWorkloads ip) \<le> 50"
proof -
  let ?ip = "fold (ipc_exec env) evs (new_ipc_server t config registry)"
  have "store_reach (\<lambda>_. True) (co_store (ip_core (new_ipc_server t config registry)))"
    using assms by (simp add: new_ipc_server_def start_core_def)
  with new_server_balanced have c: "balanced (ip_core ?ip)" "store_reach (\<lambda>_. True) (co_store (ip_core ?ip))"
    using consistent.run_inv [of "new_ipc_server t config registry" env evs] by simp_all
  have "ring_ok ?ip" by (rule ring.run_inv) (simp add: new_ipc_server_def)
  then show ?thesis
    using reach_acyclic [OF c(2)] reach_ids_distinct [OF c(2)] balanced_count [OF c(1)] by (simp add: MAX_RECENT_def Let_def)
qed

subsection \<open>The gate of the swarm\<close>

lemma swarm_gates:
  assumes "dr_decision (evaluate env e k n ws) = SWARM"
  shows "isCertified (dn_registry e) k \<and> kd_minBeneficialBytes (the (getKernel (dn_registry e) k)) \<le> n \<and>
    (\<exists>v\<in>set ws. candidate_eligible env (dn_registry e) k v)"
proof -
  have "filter (candidate_eligible env (dn_registry e) k) ws \<noteq> []" and rest: "isCertified (dn_registry e) k"
      "kd_minBeneficialBytes (the (getKernel (dn_registry e) k)) \<le> n"
    using assms by (auto simp: evaluate_def local_result_def Let_def split: if_splits)
  then show ?thesis by (auto simp: filter_empty_conv)
qed

text \<open>C14. A workload touches the core - creates a task, reserves a worker, sends a message - only through the gate: the
  swarm is enabled, and the workload is either forced and some registered worker eligible or the simulator on, or the
  decision engine found its kernel certified, its payload large enough and a candidate eligible.\<close>

theorem swarm_entered_through_gate:
  assumes "executeWorkload env now fresh generated unique (Some w) force ip = (ip', x)" and "ip_core ip' \<noteq> ip_core ip"
  shows "ip_swarmEnabled ip \<and>
    (if truthy force \<or> ip_forceSwarmOverride ip
     then (\<exists>v\<in>set (listWorkers (ip_workers ip)). ws_isEligible v) \<or> isEnabled (ip_simulation ip)
     else let e = co_engine (ip_core ip); registry = dn_registry e; k = wl_kernelId w
          in isCertified registry k \<and> kd_minBeneficialBytes (the (getKernel registry k)) \<le> wl_totalPayloadBytes w \<and>
             (\<exists>v\<in>set (candidates_of (\<lambda>d. Some (getInFlightCount e d)) (listWorkers (ip_workers ip))).
                candidate_eligible (te_environment (di_transport (se_dispatch (ie_server env)))) registry k v))"
proof -
  have el: "eligible_count ip = 0 \<longleftrightarrow> \<not> (\<exists>v\<in>set (listWorkers (ip_workers ip)). ws_isEligible v)"
    by (auto simp: eligible_count_def filter_empty_conv)
  show ?thesis
    using assms by (auto simp: executeWorkload_def Let_def el dest: swarm_gates split: if_splits)
qed

subsection \<open>Simulation mode\<close>

abbreviation registered :: "ms \<Rightarrow> capability_profile \<Rightarrow> worker_manager \<Rightarrow> worker_manager" where
  "registered now p m \<equiv> (case registerWorker m now p of Inl _ \<Rightarrow> m | Inr (m', _) \<Rightarrow> m')"

abbreviation reported :: "environment \<Rightarrow> ms \<Rightarrow> worker_telemetry \<Rightarrow> worker_manager \<Rightarrow> worker_manager" where
  "reported environment now t m \<equiv> (case updateTelemetry environment m now t of Inl _ \<Rightarrow> m | Inr (m', _) \<Rightarrow> m')"

lemma registered_get:
  "cp_capabilitySchemaVersion p = CAPABILITY_SCHEMA_VERSION \<Longrightarrow>
   \<exists>w. ws_capabilityProfile w = p \<and> (\<forall>d. jget (registered now p m) d = (if d = cp_deviceId p then Some w else jget m d))"
  by (auto simp: registerWorker_def Let_def js_simps)

lemma registered_all:
  assumes "\<forall>p\<in>set ps. cp_capabilitySchemaVersion p = CAPABILITY_SCHEMA_VERSION" and "distinct (map cp_deviceId ps)"
  shows "case find (\<lambda>p. cp_deviceId p = d) ps of
      Some p \<Rightarrow> \<exists>w. jget (fold (registered now) ps m) d = Some w \<and> ws_capabilityProfile w = p
    | None \<Rightarrow> jget (fold (registered now) ps m) d = jget m d"
  using assms
proof (induction ps arbitrary: m)
  case (Cons p ps)
  obtain w where w: "ws_capabilityProfile w = p" "\<And>d. jget (registered now p m) d = (if d = cp_deviceId p then Some w else jget m d)"
    using registered_get [of p m now] Cons.prems(1) by auto
  show ?case
  proof (cases "cp_deviceId p = d")
    case True
    then have "d \<notin> cp_deviceId ` set ps" using Cons.prems(2) by simp
    then have "find (\<lambda>p. cp_deviceId p = d) ps = None" by (auto simp: find_None_iff)
    then show ?thesis using Cons.IH [of "registered now p m"] Cons.prems w True by simp
  next
    case False
    then show ?thesis using Cons.IH [of "registered now p m"] Cons.prems w(2) [of d] by (simp split: option.splits)
  qed
qed simp

lemma reported_get:
  "jget (reported environment now t m) d =
     (if d = tm_deviceId t then map_option (\<lambda>w. w\<lparr>ws_latestTelemetry := Some (t\<lparr>tm_isEligible := Some (evaluateEligibility environment t)\<rparr>),
          ws_isEligible := evaluateEligibility environment t, ws_lastHeartbeatMs := now,
          ws_liveState := Some ((getOrCreateLiveState now w)\<lparr>ls_isEligible := evaluateEligibility environment t, ls_lastHeartbeatMs := now\<rparr>)\<rparr>)
        (jget m d)
      else jget m d)"
  by (auto simp: updateTelemetry_def Let_def js_simps split: option.splits)

lemma reported_all:
  assumes "\<forall>t\<in>set ts. evaluateEligibility environment t"
  shows "map_option ws_capabilityProfile (jget (fold (reported environment now) ts m) d) = map_option ws_capabilityProfile (jget m d)"
    and "d \<notin> tm_deviceId ` set ts \<Longrightarrow> jget (fold (reported environment now) ts m) d = jget m d"
    and "d \<in> tm_deviceId ` set ts \<or> pred_option ws_isEligible (jget m d) \<Longrightarrow>
      pred_option ws_isEligible (jget (fold (reported environment now) ts m) d)"
proof -
  note m0 = assms
  show "map_option ws_capabilityProfile (jget (fold (reported environment now) ts m) d) = map_option ws_capabilityProfile (jget m d)"
    by (induction ts arbitrary: m) (auto simp: reported_get option.map_comp comp_def)
  show "d \<notin> tm_deviceId ` set ts \<Longrightarrow> jget (fold (reported environment now) ts m) d = jget m d"
    by (induction ts arbitrary: m) (auto simp: reported_get)
  show "d \<in> tm_deviceId ` set ts \<or> pred_option ws_isEligible (jget m d) \<Longrightarrow>
      pred_option ws_isEligible (jget (fold (reported environment now) ts m) d)"
    using m0
  proof (induction ts arbitrary: m)
    case (Cons t ts)
    have "pred_option ws_isEligible (jget (reported environment now t m) d)"
      if "d = tm_deviceId t \<or> pred_option ws_isEligible (jget m d)"
      using that Cons.prems(2) unfolding reported_get by (cases "jget m d") auto
    then have "pred_option ws_isEligible (jget (fold (reported environment now) ts (reported environment now t m)) d)"
      using Cons.prems by (intro Cons.IH) auto
    then show ?case by simp
  qed simp
qed

lemma virtual_eligible: "evaluateEligibility environment (virtual_telemetry sim now p)"
  by (simp add: evaluateEligibility_def virtual_telemetry_def less_thermal_state_def)

lemma unregistered_all:
  "jget (fold (\<lambda>d m. fst (unregisterWorker m d)) ds m) d = (if d \<in> set ds then None else jget m d)"
  by (induction ds arbitrary: m) (auto simp: unregisterWorker_def js_simps)

lemma virtual_ids:
  "map tm_deviceId (getAllTelemetries sim now) = map cp_deviceId getAllCapabilityProfiles"
  by (simp add: getAllTelemetries_def getAllCapabilityProfiles_def virtual_telemetry_def virtual_profile_def)

text \<open>C39. The simulation mode: switching it on registers the four virtual workers with their profiles, eligible in every
  environment and in every failure mode (also in \<open>DISCONNECTED\<close>, which the telemetry reports but the manager's own gate
  replaces); switching it off removes them and the device of the adapter; no other worker changes.\<close>

theorem simulation_mode_workers:
  "(case find (\<lambda>p. cp_deviceId p = d) getAllCapabilityProfiles of
      Some p \<Rightarrow> \<exists>w. getWorker (ip_workers (fst (set_simulation env environment now
          \<lparr>pc_enabled = Some True, pc_failureMode = mode, pc_simulatedDelayMs = delay\<rparr> ip))) d = Some w \<and>
        ws_capabilityProfile w = p \<and> ws_isEligible w
    | None \<Rightarrow> getWorker (ip_workers (fst (set_simulation env environment now
          \<lparr>pc_enabled = Some True, pc_failureMode = mode, pc_simulatedDelayMs = delay\<rparr> ip))) d = getWorker (ip_workers ip) d) \<and>
   getWorker (ip_workers (fst (set_simulation env environment now
          \<lparr>pc_enabled = Some False, pc_failureMode = mode, pc_simulatedDelayMs = delay\<rparr> ip))) d =
     (if d = SIM_DEVICE_ID \<or> d \<in> cp_deviceId ` set getAllCapabilityProfiles then None else getWorker (ip_workers ip) d)"
proof -
  let ?on = "\<lparr>pc_enabled = Some True, pc_failureMode = mode, pc_simulatedDelayMs = delay\<rparr>"
  define sim where "sim = fst (setConfig (ie_creates env) (ip_simulation ip) ?on)"
  define m1 where "m1 = fold (registered now) getAllCapabilityProfiles (ip_workers ip)"
  define m2 where "m2 = fold (reported environment now) (getAllTelemetries sim now) m1"
  have on: "ip_workers (fst (set_simulation env environment now ?on ip)) = m2"
    by (simp add: set_simulation_def setConfig_def with_workers_def with_transport_def register_cluster_def sim_def m1_def m2_def Let_def)
  have "\<forall>p\<in>set getAllCapabilityProfiles. cp_capabilitySchemaVersion p = CAPABILITY_SCHEMA_VERSION"
    by (simp add: getAllCapabilityProfiles_def virtual_profile_def CAPABILITY_SCHEMA_VERSION_def)
  moreover have "distinct (map cp_deviceId getAllCapabilityProfiles)" by code_simp
  ultimately have reg: "case find (\<lambda>p. cp_deviceId p = d) getAllCapabilityProfiles of
      Some p \<Rightarrow> \<exists>w. jget m1 d = Some w \<and> ws_capabilityProfile w = p | None \<Rightarrow> jget m1 d = jget (ip_workers ip) d"
    unfolding m1_def by (rule registered_all)
  have all: "\<forall>t\<in>set (getAllTelemetries sim now). evaluateEligibility environment t"
    by (simp add: getAllTelemetries_def virtual_eligible)
  have ids: "tm_deviceId ` set (getAllTelemetries sim now) = cp_deviceId ` set getAllCapabilityProfiles"
    using virtual_ids [of sim now] by (metis image_set)
  note rep = reported_all [OF all, where now = now and m = m1 and d = d, folded m2_def, unfolded ids]
  have first: "case find (\<lambda>p. cp_deviceId p = d) getAllCapabilityProfiles of
      Some p \<Rightarrow> \<exists>w. jget m2 d = Some w \<and> ws_capabilityProfile w = p \<and> ws_isEligible w | None \<Rightarrow> jget m2 d = jget (ip_workers ip) d"
  proof (cases "find (\<lambda>p. cp_deviceId p = d) getAllCapabilityProfiles")
    case None
    then have "d \<notin> cp_deviceId ` set getAllCapabilityProfiles" by (auto simp: find_None_iff)
    then show ?thesis using None rep(2) reg by simp
  next
    case (Some p)
    then have "d \<in> cp_deviceId ` set getAllCapabilityProfiles" by (auto simp: find_Some_iff)
    then show ?thesis using Some rep(1,3) reg by (cases "jget m2 d") auto
  qed
  have "ip_workers (fst (set_simulation env environment now \<lparr>pc_enabled = Some False, pc_failureMode = mode, pc_simulatedDelayMs = delay\<rparr> ip)) =
      unregister_cluster (ip_workers ip)"
    by (simp add: set_simulation_def setConfig_def with_workers_def with_transport_def Let_def)
  moreover have "jget (unregister_cluster (ip_workers ip)) d =
      (if d = SIM_DEVICE_ID \<or> d \<in> cp_deviceId ` set getAllCapabilityProfiles then None else jget (ip_workers ip) d)"
    unfolding unregister_cluster_def unregistered_all by auto
  ultimately show ?thesis using first on by (simp only: getWorker_def simp_thms)
qed

subsection \<open>A concrete server\<close>

definition demo_ipc_env :: ipc_env where
  "demo_ipc_env = \<lparr>ie_server = demo_server_env, ie_reason = (\<lambda>_. []), ie_message = (\<lambda>_. []), ie_creates = (\<lambda>_. True)\<rparr>"

abbreviation demo_ipc :: ipc_server where
  "demo_ipc \<equiv> new_ipc_server (new_transport 1 new_service demo_pipeline) DEFAULT_DECISION_CONFIG []"

definition demo_ipc_events :: "ipc_event list" where
  "demo_ipc_events =
     [Requested (demo_fv 1) (SubmitTask (Some (Task_Store_Theorems.demo_task ''a'' []))),
      Requested (demo_fv 2) (SubmitTask (Some (Task_Store_Theorems.demo_task ''b'' [''a'']))),
      Requested (demo_fv 3) (SetSimulationMode (Some (JBool True)) None None),
      Executes 4 (\<lambda>_. ''x'') ''g'' ''u'' (Some demo_product) (Some (JBool True)),
      Requested (demo_fv 5) (CancelWorkload (Some ''w''))]"

definition demo_ipc_end :: ipc_server where
  "demo_ipc_end = fold (ipc_exec demo_ipc_env) demo_ipc_events demo_ipc"

lemma demo_ipc_state:
  "map (\<lambda>r. (t_id r, t_dependencies r)) (ts_rows (co_store (ip_core demo_ipc_end))) = [(''a'', []), (''b'', [''a'']), (''w'', [])]"
  "map (\<lambda>d. awaits (dp_state d)) (co_dispatches (ip_core demo_ipc_end)) = [Some SIM_DEVICE_ID]"
  "length (ip_recentWorkloads demo_ipc_end) = 2"
  by code_simp+

lemma demo_ipc_reach: "store_reach ok (tr_store (new_transport 1 new_service demo_pipeline))"
  by (simp add: new_transport_def demo_pipeline_def new_pipeline_def store_reach.init)

theorem server_stays_consistent_witness:
  "acyclic (dep_edges (co_store (ip_core demo_ipc_end))) \<and> (''b'', ''a'') \<in> dep_edges (co_store (ip_core demo_ipc_end)) \<and>
   getInFlightCount (co_engine (ip_core demo_ipc_end)) SIM_DEVICE_ID = 1 \<and> length (ip_recentWorkloads demo_ipc_end) \<le> 50"
proof -
  note ok = server_stays_consistent [OF demo_ipc_reach, where env = demo_ipc_env and evs = demo_ipc_events and
      config = DEFAULT_DECISION_CONFIG and registry = "[]" and w = SIM_DEVICE_ID, folded demo_ipc_end_def, unfolded Let_def]
  have "length (filter (\<lambda>d. awaits (dp_state d) = Some SIM_DEVICE_ID) (co_dispatches (ip_core demo_ipc_end))) = 1"
    using demo_ipc_state(2) by (auto simp: map_eq_Cons_conv)
  moreover have "(''b'', ''a'') \<in> dep_edges (co_store (ip_core demo_ipc_end))"
    using demo_ipc_state(1) by (auto simp: dep_edges_def map_eq_Cons_conv)
  ultimately show ?thesis using ok by simp
qed

text \<open>A forced workload on a server whose simulator is on.\<close>

definition demo_simulating :: ipc_server where
  "demo_simulating = fst (set_simulation demo_ipc_env (\<lambda>_. None) 0
     \<lparr>pc_enabled = Some True, pc_failureMode = None, pc_simulatedDelayMs = None\<rparr> demo_ipc)"

lemma demo_entered:
  "length (co_dispatches (ip_core (fst (executeWorkload demo_ipc_env 1 (\<lambda>_. ''x'') ''g'' ''u'' (Some demo_product) (Some (JBool True)) demo_simulating)))) = 1"
  "co_dispatches (ip_core demo_simulating) = []"
  by code_simp+

theorem swarm_entered_through_gate_witness:
  "ip_swarmEnabled demo_simulating \<and>
   (list_ex ws_isEligible (listWorkers (ip_workers demo_simulating)) \<or> isEnabled (ip_simulation demo_simulating))"
proof -
  obtain ip' x where run: "executeWorkload demo_ipc_env 1 (\<lambda>_. ''x'') ''g'' ''u'' (Some demo_product) (Some (JBool True)) demo_simulating = (ip', x)"
    by fastforce
  then have "ip_core ip' \<noteq> ip_core demo_simulating" using demo_entered by auto
  from swarm_entered_through_gate [OF run this] show ?thesis by (simp add: list_ex_iff)
qed

end
