(* ===== verification/Spec2Isabelle.thy ===== *)
theory Spec2Isabelle
  imports Task_Store_Theorems Dag_Theorems Matrix_Theorems Image_Theorems Video_Theorems Scheduler_Props Work_Stealer Pipeline_Theorems Pairing_Theorems Stream_Theorems Transport_Theorems Decision_Theorems Dispatch_Retries Simulation_Theorems Ipc_Theorems
begin

text \<open>
  SwarmX Core: a coordinator that splits workloads into tasks and chunks, leases them to paired worker devices and
  assembles their results.  This library models the TypeScript sources under \<^verbatim>\<open>src/core/src\<close>.

  \<^bold>\<open>The program.\<close>  A client hands a workload to the IPC server over a socket, as binary frames or as lines of JSON.
  The decision engine decides whether the swarm is faster than the host.  A workload of the swarm becomes tasks in the
  task store, or a DAG of stages; matrices, images and videos are cut into chunks.  The scheduler picks an eligible
  worker for a task, the transport server sends it the task in an encrypted envelope of the pairing service, and the
  worker runs a certified kernel.  A result travels back through the transport server into the workload pipeline, which
  drops what is stale or duplicate, validates the rest and completes the task.  Watchdogs reclaim expired leases and
  lost workers; the work stealer moves stragglers.  The chunk engine assembles the outputs.

  \<^bold>\<open>The theories, and the source that each one models.\<close>
  \<^item> \<open>Prelude\<close>: strings, times and buffers; the JavaScript primitives the sources rest on (the insertion-ordered \<open>Map\<close>
    as an association list, \<open>Math.round\<close>, \<open>subarray\<close>, the stable \<open>sort\<close>); the collections of simplification rules; the
    locales \<open>js_map\<close>, \<open>machine\<close> (an invariant of a machine and its runs) and \<open>refining_machine\<close> (a machine that refines
    an abstract one).
  \<^item> \<open>Json\<close>, \<open>Types\<close>: JSON values and payloads, big-endian integers; the interfaces of \<^verbatim>\<open>types.ts\<close> as records and
    datatypes.
  \<^item> \<open>Cycle_Check\<close>, \<open>Task_Store\<close>, \<open>Task_Store_Props\<close>, \<open>Task_Store_Theorems\<close>: \<^verbatim>\<open>db/task_store.ts\<close>.  The two
    tables of SQLite are a list of rows and a list of edges; every operation is a transaction and is one function.
  \<^item> \<open>Kernel_Registry\<close>: \<^verbatim>\<open>kernel_registry.ts\<close>.
  \<^item> \<open>Dag_Engine\<close>, \<open>Dag_Validation\<close>, \<open>Dag_Props\<close>, \<open>Dag_Artifacts\<close>, \<open>Dag_Theorems\<close>: \<^verbatim>\<open>dag_engine.ts\<close>.
  \<^item> \<open>Chunking\<close>, \<open>Matrix_Chunks\<close>, \<open>Image_Chunks\<close>, \<open>Video_Chunks\<close>: the three engines of \<^verbatim>\<open>chunk_engine.ts\<close>;
    \<open>Gemm\<close>, \<open>Box_Blur\<close>: the kernels of \<^verbatim>\<open>simulation_worker.ts\<close> (the one for video is in \<open>Video_Chunks\<close>);
    \<open>Matrix_Theorems\<close>, \<open>Image_Theorems\<close>, \<open>Video_Theorems\<close>: partition, kernel and assembly composed.
  \<^item> \<open>Worker_Manager\<close>: \<^verbatim>\<open>worker_manager.ts\<close>.  \<open>Scheduler\<close>, \<open>Scheduler_Props\<close>: \<^verbatim>\<open>scheduler.ts\<close>.
    \<open>Work_Stealer\<close>: \<^verbatim>\<open>work_stealer.ts\<close>.  \<open>Result_Validator\<close>: \<^verbatim>\<open>result_validator.ts\<close>.
    \<open>Workload_Pipeline\<close>, \<open>Pipeline_Theorems\<close>: \<^verbatim>\<open>workload_pipeline.ts\<close>.
  \<^item> \<open>Pairing_Service\<close>, \<open>Pairing_Theorems\<close>: \<^verbatim>\<open>pairing_service.ts\<close>.
  \<^item> \<open>Binary_Framing\<close>, \<open>Framing_Theorems\<close>: \<^verbatim>\<open>binary_framing.ts\<close>.  \<open>Ipc_Stream\<close>, \<open>Stream_Theorems\<close>: the data handler
    of a socket and \<open>processBuffer\<close> in \<^verbatim>\<open>ipc_server.ts\<close>.
  \<^item> \<open>Transport_Server\<close>, \<open>Transport_Theorems\<close>: the connections, messages, deferred callbacks and the watchdog of
    \<^verbatim>\<open>transport_server.ts\<close>.
  \<^item> \<open>Decision_Engine\<close>, \<open>Decision_Theorems\<close>: \<^verbatim>\<open>decision_engine.ts\<close>.
  \<^item> \<open>Chunk_Dispatch\<close>: \<open>dispatchChunkWithRetry\<close>, its variants for images and videos and the single-task path of
    \<^verbatim>\<open>ipc_server.ts\<close>, as a machine over the shared objects (\<open>core\<close>); \<open>Dispatch_Theorems\<close>, \<open>Dispatch_Retries\<close>: its
    reservations and its retries.
  \<^item> \<open>Chunk_Jobs\<close>, \<open>Chunked_Workloads\<close>: \<open>executeChunkedMatMul\<close>, \<open>executeChunkedImageFilter\<close> and \<open>executeChunkedVideoAnalysis\<close>
    from the parameters to the response; \<open>Chunked_Theorems\<close>, \<open>Chunked_Results\<close>: their runs and their answers.
  \<^item> \<open>Simulation_Worker\<close>, \<open>Simulation_Theorems\<close>: the adapter, the worker threads and the virtual workers of
    \<^verbatim>\<open>simulation_worker.ts\<close>.
  \<^item> \<open>Ipc_Server\<close>: the state of \<open>IpcServer\<close>, the ring of recent workloads and the requests of \<open>handleMessage\<close>;
    \<open>Workload_Execution\<close>: \<open>executeWorkload\<close>, its paths and its events; \<open>Ipc_Theorems\<close>: the whole server in every run.

  \<^bold>\<open>How the code appears in the model.\<close>  A class is a record of its fields and a method is a function that takes the
  record and returns it updated, with its result.  An exception, an error object and an early return are constructors of
  an error type or \<open>None\<close>.  What a method reads from outside (\<open>Date.now()\<close>, \<open>randomUUID\<close>, random bytes) is an argument.
  An \<open>async\<close> method that awaits is cut at the await: \<open>begin_result\<close> and \<open>finish_result\<close> in the pipeline, one pass of the
  loop per step in the receive loop, a queue of callbacks for \<open>setImmediate\<close> in the transport server, and a dispatcher or a run as
  a value with a state in the IPC server; other steps may
  happen between the pieces, and the theorems quantify over them.  Where two maps share an object (the sessions of
  the pairing service under their id and their device, the sockets of the transport server) the model keeps a store
  of objects and references into it.  Doubles that carry decisions (scores, throughputs, times) are exact rationals; the float32
  arithmetic of the matrix kernel is a parameter, so that its theorems hold for any rounding.  Bytes are
  \<^typ>\<open>8 word\<close>.

  \<^bold>\<open>Parameters.\<close>  Code that is not in the repository is an argument: JSON text (\<open>jc_*\<close>), float32 operations, the
  decoders and \<open>Math.sqrt\<close> of the validators, and the cryptography of Node.js (\<open>crypto_env\<close>: X25519, HKDF, HMAC, AES-GCM).
  A theorem that needs a law of one of them names it as a hypothesis (for example, that opening returns what was
  sealed under the same key, nonce and associated data) and has a witness with a concrete instance.

  \<^bold>\<open>What the theorems show.\<close>
  \<^item> Task store: the dependencies of the stored tasks are acyclic in every run, \<open>validateDagCycle\<close> is exact against
    reachability, \<open>assignTask\<close> succeeds exactly under its guard, terminal rows are final under the guarded operations,
    leases agree with the status, and a pass of the watchdog recovers exactly the expired leases.
  \<^item> DAG engine: \<open>registerDag\<close> accepts exactly the well-formed acyclic graphs, stages run after their dependencies and
    complete once, a live DAG has work that is ready or in flight until it ends, and artifacts live exactly as long as they have
    consumers left.
  \<^item> Chunks: a distributed matrix product is the local one bit for bit, a distributed blur is the local blur, a video
    analysis is the local one up to the first frame of each chunk; reassembly accepts exactly complete tilings.
  \<^item> Workers, scheduling, stealing: eligibility is the gate of the last telemetry, the scheduler returns the first of the
    best-scored fitting workers, allocations sum up, the stealer moves the longest straggler.
  \<^item> Results: which results are accepted, that a task is completed once under every interleaving, and what the
    validators accept.
  \<^item> Pairing: nonces never repeat, accepted numbers increase, trust needs the SAS code, decryption inverts encryption.
  \<^item> IPC: frames round trip; a stream of frames is received exactly and in a bounded number of passes, under every
    interleaving; the two ways in which the loop loses or repeats data.
  \<^item> Dispatchers: the reservations of a worker are the dispatchers that wait for it, in every run; retries go unheard,
    because they are announced under the first attempt's number.
  \<^item> Chunked workloads: each chunk is dispatched once; the answer of a run that nothing rejects is what the kernel computes
    on the whole input, in every interleaving and order of arrival; media without an id never complete.
  \<^item> Simulation: a virtual worker computes image chunks as the kernel does on each of its paths; videos lose their frames.
  \<^item> Server: dependencies, reservations and the ring stay consistent in every run of requests, workloads and events; the
    core is touched through the gate only; the simulation mode adds and removes exactly the virtual workers.  The locale
    \<open>core_property\<close> lifts a property of the core to the server, \<open>store_property\<close> one of the task store to the core.
  \<^item> Transport: what a closed socket and a sweep of the watchdog leave behind, in every run of the connected
    components; the fault on reconnection.
  \<^item> Decisions: the exact condition for the swarm, the reservations as counters, one telemetry gate in three
    components.

  \<^bold>\<open>Bounds and fuel.\<close>  The depth-first searches of the task store and the DAG engine recurse on fuel that exceeds the number of
  nodes, and \<open>Cycle_Check\<close> proves that it never runs out.  The
  loops over rows, stages, pixels and workers are structural.  The receive loop is modelled one pass at a time, and
  \<open>stream_received\<close> bounds the number of passes.  Sequence numbers are integers with the limit of
  \<open>Number.MAX_SAFE_INTEGER\<close> that the code checks, and 64-bit big-endian in the nonce.

  A dispatcher tries three times and a run ends its consumers in any order, so neither has fuel; the pool of a video takes
  its chunks one by one, and the number of its consumers is the number of iterations that start it.

  \<^bold>\<open>Not modelled.\<close>  Creating, listening on and closing sockets and servers, mDNS discovery and HTTP; the durations that
  are measured for the telemetry of a response and the wording of messages; logging (\<^verbatim>\<open>logger.ts\<close>), start-up
  (\<^verbatim>\<open>index.ts\<close>) and the SQL schema (\<^verbatim>\<open>db/migrations.ts\<close>, \<^verbatim>\<open>db/sqlite.ts\<close>); the VS Code extension, which is user
  interface and process control; the workers and the SDK in Swift and Python.
\<close>

end
